(* ===== verification/Prelude.thy ===== *)
theory Prelude
  imports Main "HOL-Library.Word"
begin

unbundle bit_operations_syntax

text \<open>
  Shared vocabulary of the development: Go's byte slices and unsigned integers, errors as
  values, the state-and-error monad in which the stateful code is written, the big-endian
  byte codecs the wire formats are built from, and the list lemmas the components share.
  A 64-bit platform is assumed, so that Go's \<open>int\<close> holds every length and offset.
\<close>

section \<open>Types\<close>

type_synonym byte = "8 word"
type_synonym u16 = "16 word"
type_synonym u32 = "32 word"
type_synonym u64 = "64 word"
type_synonym bytes = "byte list"

text \<open>
  Go's error values. The sentinel errors and the error structs of the repository have a
  constructor each; \<open>Msg\<close> is an \<open>errors.New\<close> or \<open>fmt.Errorf\<close> with a fixed text (its
  formatted arguments are dropped), \<open>Wrap\<close> a \<open>fmt.Errorf("...: %w", ..., err)\<close>.
  \<open>External\<close> is an error of a library or of the card transport. \<open>Panic\<close> is not a returned
  error but the run-time panic the code runs into at that place (a slice or index out of
  range); no modelled operation recovers from it.
\<close>

datatype go_error =
    Msg string
  | Wrap string go_error
  | AtPosition int go_error
  | External string
  | EOF
  | BadRawCommand
  | BadRawResponse
  | BadResponse u16
  | WrongPIN nat
  | WrongPUK nat
  | NoAvailablePairingSlots
  | BadChecksumSize
  | WrongApplicationInfoTemplate
  | InvalidLifeCycleValue bytes
  | InvalidInstanceIndex
  | BadCryptogram
  | InvalidCardCryptogram
  | SecureChannelNotOpen
  | Panic string

type_synonym 'a res = "go_error + 'a"

type_synonym ('s, 'a) st = "'s \<Rightarrow> 'a res \<times> 's"

fun root_error :: "go_error \<Rightarrow> go_error" where
  "root_error (Wrap _ e) = root_error e"
| "root_error (AtPosition _ e) = root_error e"
| "root_error e = e"

definition panics :: "'a res \<Rightarrow> bool" where
  "panics r \<longleftrightarrow> (case r of Inl e \<Rightarrow> (case root_error e of Panic _ \<Rightarrow> True | _ \<Rightarrow> False) | Inr _ \<Rightarrow> False)"

lemma panics_simps [simp]:
  "panics (Inr x) = False"
  "panics (Inl (Panic m)) = True"
  "panics (Inl (Wrap m e)) = panics (Inl e :: 'a res)"
  "panics (Inl (AtPosition p e)) = panics (Inl e :: 'a res)"
  "\<not> panics (Inl (Msg m))" "\<not> panics (Inl (External m))" "\<not> panics (Inl EOF)"
  "\<not> panics (Inl BadRawCommand)" "\<not> panics (Inl BadRawResponse)" "\<not> panics (Inl (BadResponse sw))"
  "\<not> panics (Inl (WrongPIN n))" "\<not> panics (Inl (WrongPUK n))"
  "\<not> panics (Inl WrongApplicationInfoTemplate)" "\<not> panics (Inl (InvalidLifeCycleValue bs))"
  by (simp_all add: panics_def)

section \<open>Errors and state\<close>

text \<open>Collections: facts about when a computation returns, and unfoldings of stateful code.\<close>

named_theorems returns_iff
named_theorems exec_simps
named_theorems go_defs

definition bindE :: "'a res \<Rightarrow> ('a \<Rightarrow> 'b res) \<Rightarrow> 'b res" where
  "bindE r f = (case r of Inl e \<Rightarrow> Inl e | Inr x \<Rightarrow> f x)"

definition wrapE :: "string \<Rightarrow> 'a res \<Rightarrow> 'a res" where
  "wrapE m r = (case r of Inl e \<Rightarrow> Inl (Wrap m e) | Inr x \<Rightarrow> Inr x)"

definition guardE :: "bool \<Rightarrow> go_error \<Rightarrow> unit res" where
  "guardE b e = (if b then Inr () else Inl e)"

lemma bindE_simps [simp]: "bindE (Inl e) f = Inl e" "bindE (Inr x) f = f x"
  by (simp_all add: bindE_def)

lemma wrapE_simps [simp]: "wrapE m (Inl e) = Inl (Wrap m e)" "wrapE m (Inr x) = Inr x"
  by (simp_all add: wrapE_def)

lemma guardE_simps [simp]: "guardE True e = Inr ()" "guardE False e = Inl e"
  by (simp_all add: guardE_def)

lemma bindE_Inr_iff [returns_iff]: "bindE r f = Inr y \<longleftrightarrow> (\<exists>x. r = Inr x \<and> f x = Inr y)"
  by (cases r) auto

lemma wrapE_Inr_iff [returns_iff]: "wrapE m r = Inr y \<longleftrightarrow> r = Inr y"
  by (cases r) auto

lemma guardE_Inr_iff [returns_iff]: "guardE b e = Inr u \<longleftrightarrow> b"
  by (simp add: guardE_def)

lemma panics_bindE: "panics (bindE r f) \<longleftrightarrow> panics r \<or> (\<exists>x. r = Inr x \<and> panics (f x))"
  by (cases r) (auto simp: panics_def)

lemma panics_wrapE [simp]: "panics (wrapE m r) = panics r"
  by (cases r) (auto simp: panics_def)

text \<open>Stateful code: the state survives an error, as a Go receiver does.\<close>

definition returnS :: "'a \<Rightarrow> ('s, 'a) st" where
  "returnS x = (\<lambda>s. (Inr x, s))"

definition failS :: "go_error \<Rightarrow> ('s, 'a) st" where
  "failS e = (\<lambda>s. (Inl e, s))"

definition bindS :: "('s, 'a) st \<Rightarrow> ('a \<Rightarrow> ('s, 'b) st) \<Rightarrow> ('s, 'b) st" where
  "bindS m f = (\<lambda>s. case m s of (Inl e, s') \<Rightarrow> (Inl e, s') | (Inr x, s') \<Rightarrow> f x s')"

definition liftS :: "'a res \<Rightarrow> ('s, 'a) st" where
  "liftS r = (\<lambda>s. (r, s))"

definition modifyS :: "('s \<Rightarrow> 's) \<Rightarrow> ('s, unit) st" where
  "modifyS f = (\<lambda>s. (Inr (), f s))"

definition readS :: "('s \<Rightarrow> ('s, 'a) st) \<Rightarrow> ('s, 'a) st" where
  "readS f = (\<lambda>s. f s s)"

definition wrapS :: "string \<Rightarrow> ('s, 'a) st \<Rightarrow> ('s, 'a) st" where
  "wrapS msg m = (\<lambda>s. (wrapE msg (fst (m s)), snd (m s)))"

lemma returnS_apply [simp]: "returnS x s = (Inr x, s)"
  by (simp add: returnS_def)

lemma failS_apply [simp]: "failS e s = (Inl e, s)"
  by (simp add: failS_def)

lemma liftS_apply [simp]: "liftS r s = (r, s)"
  by (simp add: liftS_def)

lemma modifyS_apply [simp]: "modifyS f s = (Inr (), f s)"
  by (simp add: modifyS_def)

lemma readS_apply [simp]: "readS f s = f s s"
  by (simp add: readS_def)

lemma bindS_Inl [simp]: "m s = (Inl e, s') \<Longrightarrow> bindS m f s = (Inl e, s')"
  by (simp add: bindS_def)

lemma bindS_Inr [simp]: "m s = (Inr x, s') \<Longrightarrow> bindS m f s = f x s'"
  by (simp add: bindS_def)

lemma wrapS_apply [simp]: "wrapS msg m s = (wrapE msg (fst (m s)), snd (m s))"
  by (simp add: wrapS_def)

lemma bindS_Inr_iff [returns_iff]:
  "bindS m f s = (Inr y, t) \<longleftrightarrow> (\<exists>x s'. m s = (Inr x, s') \<and> f x s' = (Inr y, t))"
  by (auto simp: bindS_def split: prod.splits sum.splits)

lemma bindS_split: "P (bindS m f s) \<longleftrightarrow>
    (\<forall>e s'. m s = (Inl e, s') \<longrightarrow> P (Inl e, s')) \<and> (\<forall>x s'. m s = (Inr x, s') \<longrightarrow> P (f x s'))"
  by (auto simp: bindS_def split: prod.splits sum.splits)

lemma bindS_cong:
  assumes "m s = m' s" and "\<And>x s'. m s = (Inr x, s') \<Longrightarrow> f x s' = f' x s'"
  shows "bindS m f s = bindS m' f' s"
  using assms by (auto simp: bindS_def split: prod.splits sum.splits)

text \<open>An invariant of the state that every step of a computation keeps.\<close>

definition keeps :: "('s \<Rightarrow> bool) \<Rightarrow> ('s, 'a) st \<Rightarrow> bool" where
  "keeps P m \<longleftrightarrow> (\<forall>s. P s \<longrightarrow> P (snd (m s)))"

lemma keepsI: "(\<And>s. P s \<Longrightarrow> P (snd (m s))) \<Longrightarrow> keeps P m"
  by (simp add: keeps_def)

lemma keepsD: "keeps P m \<Longrightarrow> P s \<Longrightarrow> m s = (r, s') \<Longrightarrow> P s'"
  unfolding keeps_def by (metis snd_conv)

lemma keeps_basic [simp, intro]:
  "keeps P (returnS x)" "keeps P (failS e)" "keeps P (liftS r)"
  by (simp_all add: keeps_def)

lemma keeps_bindS [intro]: "keeps P m \<Longrightarrow> (\<And>x. keeps P (f x)) \<Longrightarrow> keeps P (bindS m f)"
  unfolding keeps_def bindS_def by (fastforce split: prod.splits sum.splits)

lemma keeps_wrapS [intro]: "keeps P m \<Longrightarrow> keeps P (wrapS msg m)"
  by (simp add: keeps_def)

section \<open>Lists\<close>

text \<open>Go's slice expression \<open>xs[i:j]\<close> for \<open>i \<le> j \<le> len(xs)\<close>.\<close>

definition gslice :: "nat \<Rightarrow> nat \<Rightarrow> 'a list \<Rightarrow> 'a list" where
  "gslice i j xs = take (j - i) (drop i xs)"

lemma length_gslice [simp]: "length (gslice i j xs) = min (j - i) (length xs - i)"
  by (simp add: gslice_def min.commute)

lemma gslice_0 [simp]: "gslice 0 j xs = take j xs"
  by (simp add: gslice_def)

lemma gslice_append_mid:
  "i = length us \<Longrightarrow> j = length us + length vs \<Longrightarrow> gslice i j (us @ vs @ ws) = vs"
  by (simp add: gslice_def)

lemma drop_nth_Cons: "i < length xs \<Longrightarrow> drop i xs = xs ! i # drop (Suc i) xs"
  by (rule Cons_nth_drop_Suc [symmetric])

lemma take_eq_append: "take n xs = us \<Longrightarrow> n \<le> length xs \<Longrightarrow> xs = us @ drop n xs \<and> length us = n"
  by auto

lemma snoc2_exhaust: "2 \<le> length xs \<Longrightarrow> \<exists>d a b. xs = d @ [a, b]"
proof (cases xs rule: rev_cases)
  case (snoc ys b)
  assume "2 \<le> length xs"
  with snoc show ?thesis by (cases ys rule: rev_cases) auto
qed simp

text \<open>A fresh zeroed buffer of \<open>n\<close> bytes after \<open>copy(buf, src)\<close>.\<close>

definition gcopy :: "nat \<Rightarrow> bytes \<Rightarrow> bytes" where
  "gcopy n src = take n src @ replicate (n - length src) 0"

lemma length_gcopy [simp]: "length (gcopy n src) = n"
  by (simp add: gcopy_def)

lemma gcopy_id [simp]: "length src = n \<Longrightarrow> gcopy n src = src"
  by (simp add: gcopy_def)

text \<open>The bytes of a Go string literal.\<close>

definition str_bytes :: "string \<Rightarrow> bytes" where
  "str_bytes s = map of_char s"

lemma length_str_bytes [simp]: "length (str_bytes s) = length s"
  by (simp add: str_bytes_def)

section \<open>Big-endian bytes\<close>

text \<open>
  \<open>be_nat\<close> reads a byte string as a big-endian number and \<open>be_bytes n v\<close> writes the low
  \<open>n\<close> bytes of \<open>v\<close>; they are the specification of the shift-and-mask code.
\<close>

definition be_nat :: "bytes \<Rightarrow> nat" where
  "be_nat bs = foldl (\<lambda>a b. a * 256 + unat b) 0 bs"

fun be_bytes :: "nat \<Rightarrow> nat \<Rightarrow> bytes" where
  "be_bytes 0 v = []"
| "be_bytes (Suc n) v = be_bytes n (v div 256) @ [of_nat v]"

lemma length_be_bytes [simp]: "length (be_bytes n v) = n"
  by (induction n arbitrary: v) auto

lemma be_bytes_numerals:
  "be_bytes 1 v = [of_nat v]"
  "be_bytes 2 v = [of_nat (v div 256), of_nat v]"
  "be_bytes 3 v = [of_nat (v div 256 div 256), of_nat (v div 256), of_nat v]"
  "be_bytes 4 v = [of_nat (v div 256 div 256 div 256), of_nat (v div 256 div 256), of_nat (v div 256), of_nat v]"
proof -
  have "be_bytes (Suc 0) v = [of_nat v]" for v by simp
  then show one: "be_bytes 1 v = [of_nat v]" for v by (simp only: One_nat_def)
  have "be_bytes (Suc 1) v = be_bytes 1 (v div 256) @ [of_nat v]" for v by (rule be_bytes.simps)
  then show two: "be_bytes 2 v = [of_nat (v div 256), of_nat v]" for v
    by (simp only: one Suc_1) simp
  have "be_bytes (Suc 2) v = be_bytes 2 (v div 256) @ [of_nat v]" for v by (rule be_bytes.simps)
  moreover have "Suc 2 = 3" by simp
  ultimately show three: "be_bytes 3 v = [of_nat (v div 256 div 256), of_nat (v div 256), of_nat v]" for v
    by (simp only: two) simp
  have "be_bytes (Suc 3) v = be_bytes 3 (v div 256) @ [of_nat v]" for v by (rule be_bytes.simps)
  moreover have "Suc 3 = 4" by simp
  ultimately show "be_bytes 4 v = [of_nat (v div 256 div 256 div 256), of_nat (v div 256 div 256),
      of_nat (v div 256), of_nat v]"
    by (simp only: three) simp
qed

lemma be_nat_Nil [simp]: "be_nat [] = 0"
  by (simp add: be_nat_def)

lemma be_nat_snoc [simp]: "be_nat (bs @ [b]) = be_nat bs * 256 + unat b"
  by (simp add: be_nat_def)

lemma be_nat_acc: "foldl (\<lambda>a b. a * 256 + unat b) k bs = k * 256 ^ length bs + be_nat bs"
  by (induction bs rule: rev_induct) (simp_all add: algebra_simps)

lemma be_nat_Cons: "be_nat (b # bs) = unat b * 256 ^ length bs + be_nat bs"
  using be_nat_acc [of "unat b" bs] by (simp add: be_nat_def)

lemma be_nat_single [simp]: "be_nat [b] = unat b"
  by (simp add: be_nat_def)

lemma be_nat_append: "be_nat (as @ bs) = be_nat as * 256 ^ length bs + be_nat bs"
  using be_nat_acc [of "be_nat as" bs] by (simp add: be_nat_def)

lemma unat_of_nat8 [simp]: "unat (of_nat v :: byte) = v mod 256"
  by (simp add: unat_of_nat)

lemma unat_byte_lt [simp]: "unat (b :: byte) < 256"
  using unsigned_less [of b] by simp

lemma unat_u32_lt: "unat (w :: u32) < 4294967296"
  using unsigned_less [of w] by simp

lemma unat_u16_lt: "unat (w :: u16) < 65536"
  using unsigned_less [of w] by simp

lemma be_nat_be_bytes: "be_nat (be_bytes n v) = v mod 256 ^ n"
proof (induction n arbitrary: v)
  case (Suc n)
  have "v mod 256 ^ Suc n = 256 * (v div 256 mod 256 ^ n) + v mod 256"
    by (simp add: mod_mult2_eq)
  with Suc show ?case by simp
qed simp

lemma be_nat_lt: "be_nat bs < 256 ^ length bs"
proof (induction bs rule: rev_induct)
  case (snoc b bs)
  have "unat b < 256" by simp
  moreover from snoc have "256 * (be_nat bs + 1) \<le> 256 * 256 ^ length bs"
    by (intro mult_le_mono) auto
  ultimately show ?case by (simp del: unat_byte_lt)
qed simp

lemma be_nat_lt_pow: "length bs \<le> k \<Longrightarrow> be_nat bs < 256 ^ k"
  using be_nat_lt [of bs] power_increasing [of "length bs" k "256 :: nat"] by linarith

lemma be_bytes_be_nat: "be_bytes (length bs) (be_nat bs) = bs"
proof (induction bs rule: rev_induct)
  case (snoc b bs)
  have "unat b < 256" by simp
  then have "(be_nat bs * 256 + unat b) div 256 = be_nat bs" by (simp add: div_mult1_eq)
  moreover have "(of_nat (be_nat bs * 256 + unat b) :: byte) = b"
    by (rule word_unat_eq_iff [THEN iffD2]) (simp del: of_nat_add of_nat_mult)
  ultimately show ?case using snoc by (simp del: of_nat_add of_nat_mult)
qed simp

lemma be_nat_inj: "length as = length bs \<Longrightarrow> be_nat as = be_nat bs \<Longrightarrow> as = bs"
  by (metis be_bytes_be_nat)

text \<open>Shifting a word left by a byte and or-ing one in, as the decoding loops do.\<close>

lemma push8_or_byte:
  fixes w :: "'a::len word"
  assumes "8 < LENGTH('a)"
  shows "push_bit 8 w OR ucast (b :: byte) = w * 256 + ucast b"
proof -
  have "push_bit 8 w AND ucast b = 0"
    by (rule bit_word_eqI) (auto simp: bit_simps dest: bit_imp_le_length)
  then have "push_bit 8 w OR ucast b = push_bit 8 w + ucast b"
    by (rule disjunctive_add_eq_or [symmetric])
  then show ?thesis by (simp add: push_bit_eq_mult)
qed

text \<open>\<open>uint8(w >> 8*k)\<close> is the \<open>k\<close>-th byte of the number.\<close>

lemma ucast_drop_bit_of_nat:
  fixes w :: "'a::len word"
  shows "(ucast (drop_bit k w) :: byte) = of_nat (unat w div 2 ^ k)"
proof (rule word_unat_eq_iff [THEN iffD2])
  have "unat (drop_bit k w) = drop_bit k (unat w)" by (rule unat_drop_bit_eq)
  also have "\<dots> = unat w div 2 ^ k" by (rule drop_bit_eq_div)
  finally have "unat (drop_bit k w) = unat w div 2 ^ k" .
  then show "unat (ucast (drop_bit k w) :: byte) = unat (of_nat (unat w div 2 ^ k) :: byte)"
    by (simp only: unsigned_ucast_eq take_bit_eq_mod unat_of_nat8) simp
qed

lemma ucast_byte_of_nat: "(ucast (w :: 'a::len word) :: byte) = of_nat (unat w)"
  using ucast_drop_bit_of_nat [of 0 w] by simp

end
