(* ===== verification/Codec.thy ===== *)
theory Codec
  imports Prelude
begin

text \<open>
  The interface every wire format of the program meets: an encoder and a decoder that
  hands back the unread bytes. The clients (a sequence of encoded items read until the
  input is used up, two codecs one after the other) are proved once, inside the locale;
  the BER lengths, the TLV items, the wallet ranges of a metadata record and the segments
  of a derivation path are its interpretations.
\<close>

section \<open>Fixed-width shift loops\<close>

text \<open>The loop \<open>acc = acc << 8 | b\<close> over a byte slice, at the width of the accumulator.\<close>

definition shift_in :: "bytes \<Rightarrow> 'a::len word" where
  "shift_in bs = foldl (\<lambda>acc b. push_bit 8 acc OR ucast b) 0 bs"

lemma shift_in_Nil [simp]: "shift_in [] = 0"
  by (simp add: shift_in_def)

lemma unat_shift_in:
  assumes "8 < LENGTH('a::len)"
  shows "unat (shift_in bs :: 'a word) = be_nat bs mod 2 ^ LENGTH('a)"
proof (induction bs rule: rev_induct)
  case (snoc b bs)
  have wide: "(256 :: nat) < 2 ^ LENGTH('a)"
    using assms power_strict_increasing [of 8 "LENGTH('a)" "2 :: nat"] by simp
  then have "unat b < 2 ^ LENGTH('a)" using unat_byte_lt [of b] by linarith
  then have b: "unat (ucast b :: 'a word) = unat b"
    by (simp add: unsigned_ucast_eq take_bit_nat_eq_self)
  have c: "unat (256 :: 'a word) = 256"
    using wide by (simp add: unsigned_numeral take_bit_nat_eq_self)
  have "shift_in (bs @ [b]) = (shift_in bs * 256 + ucast b :: 'a word)"
    using assms by (simp add: shift_in_def push8_or_byte)
  then have "unat (shift_in (bs @ [b]) :: 'a word)
      = (unat (shift_in bs :: 'a word) * unat (256 :: 'a word) + unat b) mod 2 ^ LENGTH('a)"
    by (simp add: unat_word_ariths b mod_simps)
  then show ?case by (simp only: snoc c be_nat_snoc) (metis mod_add_left_eq mod_mult_left_eq)
qed simp

lemma shift_in_of_nat:
  assumes "8 < LENGTH('a::len)" and "be_nat bs < 2 ^ LENGTH('a)"
  shows "(shift_in bs :: 'a word) = of_nat (be_nat bs)"
  using assms by (simp add: word_unat_eq_iff unat_shift_in unat_of_nat)

section \<open>Reading encoded items until the input is used up\<close>

text \<open>The fuel bounds the number of items; the length of the input is enough, as every
  item takes at least one byte.\<close>

fun decode_all :: "(bytes \<Rightarrow> ('a \<times> bytes) option) \<Rightarrow> nat \<Rightarrow> bytes \<Rightarrow> 'a list option" where
  "decode_all dec fuel [] = Some []"
| "decode_all dec 0 (b # bs) = None"
| "decode_all dec (Suc fuel) (b # bs) =
     (case dec (b # bs) of
        None \<Rightarrow> None
      | Some (x, rest) \<Rightarrow> map_option ((#) x) (decode_all dec fuel rest))"

locale prefix_codec =
  fixes enc :: "'a \<Rightarrow> bytes"
    and dec :: "bytes \<Rightarrow> ('a \<times> bytes) option"
    and ok :: "'a \<Rightarrow> bool"
  assumes dec_enc: "ok x \<Longrightarrow> dec (enc x @ rest) = Some (x, rest)"
    and dec_shrinks: "dec bs = Some (x, rest) \<Longrightarrow> length rest < length bs"
begin

lemma enc_nonempty: "ok x \<Longrightarrow> enc x \<noteq> []"
  using dec_enc [of x "[]"] dec_shrinks [of "enc x" x "[]"] by auto

lemma enc_prefix_free: "ok x \<Longrightarrow> ok y \<Longrightarrow> enc x @ us = enc y @ vs \<Longrightarrow> x = y \<and> us = vs"
  by (metis dec_enc option.inject prod.inject)

lemma enc_inj: "ok x \<Longrightarrow> ok y \<Longrightarrow> enc x = enc y \<Longrightarrow> x = y"
  using enc_prefix_free [of x y "[]" "[]"] by simp

lemma decode_all_enc:
  "list_all ok xs \<Longrightarrow> length xs \<le> fuel \<Longrightarrow> decode_all dec fuel (concat (map enc xs)) = Some xs"
proof (induction xs arbitrary: fuel)
  case (Cons x xs)
  then obtain n where fuel: "fuel = Suc n" "length xs \<le> n" by (cases fuel) auto
  from Cons.prems obtain b bs where enc: "enc x = b # bs"
    using enc_nonempty [of x] by (cases "enc x") auto
  have "dec (b # bs @ concat (map enc xs)) = Some (x, concat (map enc xs))"
    using dec_enc [of x "concat (map enc xs)"] Cons.prems enc by simp
  with Cons fuel enc show ?case by simp
qed simp

text \<open>The code stops at the end of the input: the input's own length is enough fuel.\<close>

lemma length_items: "list_all ok xs \<Longrightarrow> length xs \<le> length (concat (map enc xs))"
proof (induction xs)
  case (Cons x xs)
  moreover from Cons.prems have "0 < length (enc x)" by (auto dest: enc_nonempty)
  ultimately show ?case by (simp del: length_greater_0_conv)
qed simp

lemma decode_all_input:
  "list_all ok xs \<Longrightarrow> decode_all dec (length (concat (map enc xs))) (concat (map enc xs)) = Some xs"
  by (intro decode_all_enc length_items)

lemma concat_enc_inj:
  "list_all ok xs \<Longrightarrow> list_all ok ys \<Longrightarrow> concat (map enc xs) = concat (map enc ys) \<Longrightarrow> xs = ys"
  by (metis decode_all_input option.inject)

end

end
