(* ===== verification/Tlv.thy ===== *)
theory Tlv
  imports Codec
begin

text \<open>
  Package \<open>tlv\<close> (\<open>tlv/tlv.go\<close>): BER lengths, the cursor-based reader \<open>BerTlvReader\<close> and
  the writer \<open>BerTlvWriter\<close>. A reader is its buffer and position; its methods are
  computations over that state, which also move the position on some of their error paths.
  A writer is its accumulated buffer. The specification is the pure parser \<open>tlv_item\<close> on
  the unread bytes, which the reader refines.
\<close>

section \<open>Tags\<close>

definition TLV_BOOL :: byte where [simp]: "TLV_BOOL = 0x01"
definition TLV_INT :: byte where [simp]: "TLV_INT = 0x02"
definition TLV_ECDSA_TEMPLATE :: byte where [simp]: "TLV_ECDSA_TEMPLATE = 0x30"
definition TLV_SIGNATURE_TEMPLATE :: byte where [simp]: "TLV_SIGNATURE_TEMPLATE = 0xA0"
definition TLV_KEY_TEMPLATE :: byte where [simp]: "TLV_KEY_TEMPLATE = 0xA1"
definition TLV_APPLICATION_STATUS_TEMPLATE :: byte where
  [simp]: "TLV_APPLICATION_STATUS_TEMPLATE = 0xA3"
definition TLV_APPLICATION_INFO_TEMPLATE :: byte where
  [simp]: "TLV_APPLICATION_INFO_TEMPLATE = 0xA4"
definition TLV_PUB_KEY :: byte where [simp]: "TLV_PUB_KEY = 0x80"
definition TLV_PRIV_KEY :: byte where [simp]: "TLV_PRIV_KEY = 0x81"
definition TLV_CHAIN_CODE :: byte where [simp]: "TLV_CHAIN_CODE = 0x82"
definition TLV_LEE_NSK :: byte where [simp]: "TLV_LEE_NSK = 0x83"
definition TLV_LEE_ASK :: byte where [simp]: "TLV_LEE_ASK = 0x84"
definition TLV_LEE_VSK_D :: byte where [simp]: "TLV_LEE_VSK_D = 0x85"
definition TLV_LEE_VSK_Z :: byte where [simp]: "TLV_LEE_VSK_Z = 0x86"
definition TLV_CERT :: byte where [simp]: "TLV_CERT = 0x8A"
definition TLV_CAPABILITIES :: byte where [simp]: "TLV_CAPABILITIES = 0x8D"
definition TLV_KEY_UID :: byte where [simp]: "TLV_KEY_UID = 0x8E"
definition TLV_UID :: byte where [simp]: "TLV_UID = 0x8F"
definition TLV_STATUS :: byte where [simp]: "TLV_STATUS = 0x8C"
definition TLV_PUB_DATA :: byte where [simp]: "TLV_PUB_DATA = 0x82"

section \<open>BER lengths\<close>

definition encode_ber_length :: "u32 \<Rightarrow> bytes" where
  "encode_ber_length len =
     (if len < 0x80 then [ucast len]
      else if len < 0x100 then [0x81, ucast len]
      else if len < 0x10000 then [0x82, ucast (drop_bit 8 len), ucast len]
      else if len < 0x1000000 then
        [0x83, ucast (drop_bit 16 len), ucast (drop_bit 8 len), ucast len]
      else
        [0x84, ucast (drop_bit 24 len), ucast (drop_bit 16 len), ucast (drop_bit 8 len), ucast len])"

text \<open>Returns the length and the offset behind it.\<close>

definition decode_ber_length :: "bytes \<Rightarrow> nat \<Rightarrow> (u32 \<times> nat) res" where
  "decode_ber_length data off =
     (if length data \<le> off then Inl (Msg ''end of buffer, no length to read'')
      else
        let first = data ! off; off = off + 1 in
        if first < 0x80 then Inr (ucast first, off)
        else if first = 0x80 then Inl (Msg ''indefinite length encoding not supported'')
        else
          let numBytes = unat (first AND 0x7F) in
          if 4 < numBytes then Inl (Msg ''length encoding too long'')
          else if length data < off + numBytes then Inl (Msg ''end of buffer while reading length'')
          else Inr (shift_in (gslice off (off + numBytes) data), off + numBytes))"

text \<open>The specification: the length at the front of a byte string, and what follows it.\<close>

fun ber_length :: "bytes \<Rightarrow> (nat \<times> bytes) option" where
  "ber_length [] = None"
| "ber_length (b # bs) =
     (if unat b < 128 then Some (unat b, bs)
      else let n = unat b - 128 in
        if n = 0 \<or> 4 < n \<or> length bs < n then None
        else Some (be_nat (take n bs), drop n bs))"

definition ber_enc :: "nat \<Rightarrow> bytes" where
  "ber_enc n = encode_ber_length (of_nat n)"

lemma and_7F_byte: "0x80 \<le> (b :: byte) \<Longrightarrow> unat (b AND 0x7F) = unat b - 128"
proof -
  assume "0x80 \<le> b"
  then have "128 \<le> unat b" by (simp add: word_le_nat_alt)
  moreover have "unat (b AND 0x7F) = unat b mod 128"
  proof -
    have "b AND 0x7F = take_bit 7 b" by (simp add: take_bit_eq_mask mask_eq_decr_exp)
    then have "unat (b AND 0x7F) = take_bit 7 (unat b)" by (simp only: unsigned_take_bit_eq)
    then show ?thesis by (simp only: take_bit_eq_mod) simp
  qed
  moreover obtain k where "unat b = 128 + k" "k < 128"
    using calculation(1) unat_byte_lt [of b] by (metis add_less_imp_less_left le_Suc_ex numeral_Bit0)
  ultimately show ?thesis by simp
qed

lemma ber_length_shrinks: "ber_length bs = Some (n, rest) \<Longrightarrow> length rest < length bs"
  by (cases bs) (auto simp: Let_def split: if_splits)

lemma ber_length_lt: "ber_length bs = Some (n, rest) \<Longrightarrow> n < 2 ^ 32"
proof (cases bs)
  case (Cons b bs')
  assume "ber_length bs = Some (n, rest)"
  moreover have "be_nat (take (unat b - 128) bs') < 256 ^ 4" if "unat b - 128 \<le> 4"
    using that by (intro be_nat_lt_pow) auto
  ultimately show ?thesis using Cons by (auto simp: Let_def split: if_splits)
qed simp

text \<open>The decoder at an offset is the specification on the suffix.\<close>

lemma decode_ber_length_spec:
  "off \<le> length data \<Longrightarrow>
   (case ber_length (drop off data) of
      None \<Rightarrow> \<exists>m. decode_ber_length data off = Inl (Msg m)
    | Some (n, rest) \<Rightarrow>
        \<exists>off'. decode_ber_length data off = Inr (of_nat n, off') \<and> off < off' \<and>
          off' \<le> length data \<and> drop off' data = rest)"
proof (cases "off < length data")
  case True
  define b where "b = data ! off"
  have suffix: "drop off data = b # drop (Suc off) data"
    using True by (simp add: b_def drop_nth_Cons)
  consider "b < 0x80" | "b = 0x80" | "0x80 < b" by fastforce
  then show ?thesis
  proof cases
    case 1
    then have "unat b < 128" by (simp add: word_less_nat_alt)
    moreover have "(ucast b :: u32) = of_nat (unat b)" by simp
    ultimately show ?thesis
      using True 1 by (auto simp: suffix decode_ber_length_def simp flip: b_def)
  next
    case 2
    then show ?thesis using True by (simp add: suffix decode_ber_length_def flip: b_def)
  next
    case 3
    define n where "n = unat b - 128"
    have n: "unat (b AND 0x7F) = n" using 3 by (simp add: n_def and_7F_byte)
    have b128: "128 < unat b" using 3 by (simp add: word_less_nat_alt)
    then have n0: "n \<noteq> 0" by (simp add: n_def)
    have nb: "\<not> b < 0x80" "b \<noteq> 0x80" using 3 by auto
    show ?thesis
    proof (cases "n \<le> 4 \<and> Suc off + n \<le> length data")
      case ok: True
      let ?s = "take n (drop (Suc off) data)"
      have "be_nat ?s < 256 ^ 4" using ok by (intro be_nat_lt_pow) auto
      then have val: "(shift_in ?s :: u32) = of_nat (be_nat ?s)"
        by (intro shift_in_of_nat) auto
      have "decode_ber_length data off = Inr (of_nat (be_nat ?s), Suc off + n)"
        using True nb ok by (simp add: decode_ber_length_def Let_def n gslice_def val [simplified] flip: b_def)
      moreover have "ber_length (drop off data) = Some (be_nat ?s, drop (Suc off + n) data)"
        using b128 n0 ok by (simp add: suffix Let_def add.commute flip: n_def) arith
      ultimately show ?thesis using ok by simp
    next
      case bad: False
      have "ber_length (drop off data) = None"
        using b128 bad by (auto simp: suffix Let_def n_def)
      moreover have "\<exists>m. decode_ber_length data off = Inl (Msg m)"
        using True nb bad by (auto simp: decode_ber_length_def Let_def n simp flip: b_def)
      ultimately show ?thesis by simp
    qed
  qed
next
  case False
  then show ?thesis by (simp add: decode_ber_length_def)
qed

text \<open>The encoder writes the shortest of the five forms.\<close>

lemma encode_ber_length_bytes:
  "encode_ber_length w =
     (if unat w < 128 then [of_nat (unat w)]
      else if unat w < 256 then 0x81 # be_bytes 1 (unat w)
      else if unat w < 256 ^ 2 then 0x82 # be_bytes 2 (unat w)
      else if unat w < 256 ^ 3 then 0x83 # be_bytes 3 (unat w)
      else 0x84 # be_bytes 4 (unat w))"
proof -
  have div2: "n div 256 div 256 = n div 65536" "n div 65536 div 256 = n div 16777216" for n :: nat
    by (simp_all flip: div_mult2_eq)
  have lt: "(w < 0x80) = (unat w < 128)" "(w < 0x100) = (unat w < 256)"
    "(w < 0x10000) = (unat w < 256 ^ 2)" "(w < 0x1000000) = (unat w < 256 ^ 3)"
    by (simp_all add: word_less_nat_alt)
  obtain n where n: "unat w = n" by simp
  show ?thesis
    unfolding encode_ber_length_def lt be_bytes_numerals ucast_drop_bit_of_nat
    unfolding ucast_byte_of_nat n
    by (simp only: div2) simp
qed

lemma ber_length_encode: "ber_length (encode_ber_length w @ rest) = Some (unat w, rest)"
proof -
  obtain n where n: "unat w = n" by simp
  moreover have "unat w < 256 ^ 4" using unsigned_less [of w] by simp
  ultimately have "n < 256 ^ 4" by simp
  then show ?thesis
    unfolding encode_ber_length_bytes n by (simp add: Let_def be_nat_be_bytes)
qed

text \<open>A BER length is a codec: \<open>prefix_codec\<close> for lengths that fit 32 bits.\<close>

lemma ber_length_enc: "n < 2 ^ 32 \<Longrightarrow> ber_length (ber_enc n @ rest) = Some (n, rest)"
  by (simp add: ber_enc_def ber_length_encode unat_of_nat take_bit_nat_eq_self)

interpretation ber: prefix_codec ber_enc ber_length "\<lambda>n. n < 2 ^ 32"
  by unfold_locales (simp_all add: ber_length_enc ber_length_shrinks)

section \<open>BerTlvReader\<close>

record ber_reader =
  rd_buffer :: bytes
  rd_pos :: nat

type_synonym 'a reader = "(ber_reader, 'a) st"

definition NewBerTlvReader :: "bytes \<Rightarrow> ber_reader" where
  "NewBerTlvReader buffer = \<lparr>rd_buffer = buffer, rd_pos = 0\<rparr>"

definition ReadTag :: "byte reader" where
  "ReadTag = (\<lambda>r.
     if length (rd_buffer r) \<le> rd_pos r then (Inl (Msg ''end of buffer, no tag to read''), r)
     else (Inr (rd_buffer r ! rd_pos r), r\<lparr>rd_pos := rd_pos r + 1\<rparr>))"

definition NextTagIs :: "byte \<Rightarrow> ber_reader \<Rightarrow> bool" where
  "NextTagIs expected r =
     (if rd_pos r < length (rd_buffer r) then rd_buffer r ! rd_pos r = expected else False)"

definition ReadLength :: "u32 reader" where
  "ReadLength = (\<lambda>r.
     case decode_ber_length (rd_buffer r) (rd_pos r) of
       Inl e \<Rightarrow> (Inl e, r)
     | Inr (len, nextPos) \<Rightarrow> (Inr len, r\<lparr>rd_pos := nextPos\<rparr>))"

definition EnterConstructed :: "byte \<Rightarrow> u32 reader" where
  "EnterConstructed tag =
     bindS ReadTag (\<lambda>actualTag.
       if actualTag \<noteq> tag then failS (Msg ''expected tag'') else ReadLength)"

text \<open>\<open>has\<close> adds as \<open>uint64\<close>: a position and a 32-bit length never wrap there.\<close>

definition has :: "nat \<Rightarrow> ber_reader \<Rightarrow> bool" where
  "has len r \<longleftrightarrow> rd_pos r + len \<le> length (rd_buffer r)"

definition ReadPrimitive :: "byte \<Rightarrow> bytes reader" where
  "ReadPrimitive tag =
     bindS ReadTag (\<lambda>actualTag.
       if actualTag \<noteq> tag then failS (Msg ''expected tag'')
       else bindS ReadLength (\<lambda>len. \<lambda>r.
         if \<not> has (unat len) r then (Inl (Msg ''not enough data for value''), r)
         else (Inr (gslice (rd_pos r) (rd_pos r + unat len) (rd_buffer r)),
               r\<lparr>rd_pos := rd_pos r + unat len\<rparr>)))"

text \<open>A nil slice is \<open>None\<close>: an absent field is not an empty one.\<close>

definition ReadPrimitiveIfPresent :: "byte \<Rightarrow> bytes option reader" where
  "ReadPrimitiveIfPresent tag = (\<lambda>r.
     if \<not> NextTagIs tag r then (Inr None, r)
     else bindS (ReadPrimitive tag) (\<lambda>v. returnS (Some v)) r)"

definition Skip :: "u32 \<Rightarrow> unit reader" where
  "Skip len = (\<lambda>r.
     if \<not> has (unat len) r then (Inl (Msg ''not enough data to skip''), r)
     else (Inr (), r\<lparr>rd_pos := rd_pos r + unat len\<rparr>))"

definition SkipPrimitive :: "unit reader" where
  "SkipPrimitive = bindS ReadTag (\<lambda>_. bindS ReadLength Skip)"

definition ReadBoolean :: "bool reader" where
  "ReadBoolean =
     bindS (ReadPrimitive TLV_BOOL) (\<lambda>value.
       if length value \<noteq> 1 then failS (Msg ''BOOLEAN value must be 1 byte'')
       else returnS (value ! 0 = 0xFF))"

text \<open>The \<open>int32\<close> is kept as its 32-bit pattern.\<close>

definition ReadInteger :: "u32 reader" where
  "ReadInteger =
     bindS (ReadPrimitive TLV_INT) (\<lambda>value.
       if length value = 0 \<or> 4 < length value then failS (Msg ''INTEGER value must be 1-4 bytes'')
       else returnS (shift_in value))"

definition PeekUnread :: "ber_reader \<Rightarrow> bytes" where
  "PeekUnread r = (if rd_pos r < length (rd_buffer r) then drop (rd_pos r) (rd_buffer r) else [])"

definition Len :: "ber_reader \<Rightarrow> nat" where
  "Len r = length (rd_buffer r)"

definition IsEmpty :: "ber_reader \<Rightarrow> bool" where
  "IsEmpty r \<longleftrightarrow> length (rd_buffer r) = 0"

text \<open>A sum of two values of Go's 64-bit \<open>int\<close>, which wraps.\<close>

definition go_int_add :: "int \<Rightarrow> int \<Rightarrow> int" where
  "go_int_add a b = (a + b + 2 ^ 63) mod 2 ^ 64 - 2 ^ 63"

text \<open>
  \<open>Advance\<close> takes a signed count and does not check it, so what it assigns to \<open>pos\<close> may be any
  \<open>int\<close>: the definition gives that value. The positions of a reader here are those that the other
  methods produce, never negative; \<open>advanced\<close> is the reader afterwards where the value is one.
\<close>

definition Advance :: "int \<Rightarrow> ber_reader \<Rightarrow> int" where
  "Advance count r =
     (if int (length (rd_buffer r)) < go_int_add (int (rd_pos r)) count then int (length (rd_buffer r))
      else go_int_add (int (rd_pos r)) count)"

definition advanced :: "int \<Rightarrow> ber_reader \<Rightarrow> ber_reader" where
  "advanced count r = r\<lparr>rd_pos := nat (Advance count r)\<rparr>"

lemmas reader_defs = NewBerTlvReader_def ReadTag_def NextTagIs_def ReadLength_def
  EnterConstructed_def has_def ReadPrimitive_def ReadPrimitiveIfPresent_def Skip_def
  SkipPrimitive_def ReadBoolean_def ReadInteger_def PeekUnread_def

section \<open>BerTlvWriter\<close>

text \<open>A writer is its buffer; each method returns the new buffer.\<close>

type_synonym ber_writer = bytes

definition NewBerTlvWriter :: ber_writer where
  "NewBerTlvWriter = []"

definition WriteNumLength :: "u32 \<Rightarrow> ber_writer \<Rightarrow> ber_writer" where
  "WriteNumLength len w = w @ encode_ber_length len"

definition WriteTag :: "byte \<Rightarrow> ber_writer \<Rightarrow> ber_writer" where
  "WriteTag tag w = w @ [tag]"

definition WritePrimitive :: "byte \<Rightarrow> bytes \<Rightarrow> ber_writer \<Rightarrow> ber_writer" where
  "WritePrimitive tag value w = WriteNumLength (of_nat (length value)) (w @ [tag]) @ value"

definition WriteConstructed :: "byte \<Rightarrow> (ber_writer \<Rightarrow> ber_writer) \<Rightarrow> ber_writer \<Rightarrow> ber_writer" where
  "WriteConstructed tag contentFn w =
     (let content = contentFn NewBerTlvWriter in
      WriteNumLength (of_nat (length content)) (w @ [tag]) @ content)"

definition WriteBoolean :: "byte \<Rightarrow> bool \<Rightarrow> ber_writer \<Rightarrow> ber_writer" where
  "WriteBoolean tag value w =
     (if value then WritePrimitive tag [0xFF] w else WritePrimitive tag [0x00] w)"

text \<open>The loop \<open>for start < 3 && bytes[start] == 0\<close> over the four bytes.\<close>

fun strip_start :: "bytes \<Rightarrow> nat \<Rightarrow> nat" where
  "strip_start [] start = start"
| "strip_start (b # bs) start = (if start < 3 \<and> b = 0 then strip_start bs (start + 1) else start)"

definition WriteInteger :: "byte \<Rightarrow> u32 \<Rightarrow> ber_writer \<Rightarrow> ber_writer" where
  "WriteInteger tag value w =
     (let bs = [ucast (signed_drop_bit 24 value), ucast (signed_drop_bit 16 value),
                ucast (signed_drop_bit 8 value), ucast value];
          start = strip_start bs 0;
          start = (if sint value < 0 then 0 else start)
      in WritePrimitive tag (drop start bs) w)"

definition ToBytes :: "ber_writer \<Rightarrow> bytes" where
  "ToBytes w = w"

lemmas writer_defs = NewBerTlvWriter_def WriteNumLength_def WriteTag_def WritePrimitive_def
  WriteConstructed_def WriteBoolean_def WriteInteger_def ToBytes_def

section \<open>Cursor safety\<close>

text \<open>
  The invariant of a reader, and the frame condition every method meets whether it fails or
  not: the buffer is never written, the cursor never moves back and never leaves the buffer.
\<close>

definition rd_wf :: "ber_reader \<Rightarrow> bool" where
  "rd_wf r \<longleftrightarrow> rd_pos r \<le> length (rd_buffer r)"

definition reader_step :: "ber_reader \<Rightarrow> ber_reader \<Rightarrow> bool" where
  "reader_step r r' \<longleftrightarrow> rd_buffer r' = rd_buffer r \<and> rd_pos r \<le> rd_pos r' \<and> (rd_wf r \<longrightarrow> rd_wf r')"

definition cursor_safe :: "'a reader \<Rightarrow> bool" where
  "cursor_safe m \<longleftrightarrow> (\<forall>r. rd_wf r \<longrightarrow> reader_step r (snd (m r)))"

named_theorems cursor_safe_intros

lemma reader_step_refl [simp]: "reader_step r r"
  by (simp add: reader_step_def)

lemma reader_step_trans: "reader_step r r' \<Longrightarrow> reader_step r' r'' \<Longrightarrow> reader_step r r''"
  by (auto simp: reader_step_def)

lemma cursor_safeD: "cursor_safe m \<Longrightarrow> rd_wf r \<Longrightarrow> m r = (x, r') \<Longrightarrow> reader_step r r'"
  unfolding cursor_safe_def by (metis snd_conv)

lemma cursor_safe_basic [cursor_safe_intros]:
  "cursor_safe (returnS x)" "cursor_safe (failS e)" "cursor_safe (liftS y)"
  by (simp_all add: cursor_safe_def)

lemma cursor_safe_bindS [cursor_safe_intros]:
  assumes m: "cursor_safe m" and f: "\<And>x. cursor_safe (f x)"
  shows "cursor_safe (bindS m f)"
  unfolding cursor_safe_def
proof (intro allI impI)
  fix r assume wf: "rd_wf r"
  show "reader_step r (snd (bindS m f r))"
  proof (cases "m r")
    case (Pair x r')
    have step: "reader_step r r'" using m wf Pair by (rule cursor_safeD)
    then have "rd_wf r'" using wf by (simp add: reader_step_def)
    then have "reader_step r' (snd (f y r'))" for y
      using f by (simp add: cursor_safe_def)
    with step Pair show ?thesis by (cases x) (auto intro: reader_step_trans)
  qed
qed

lemma cursor_safe_wrapS [cursor_safe_intros]: "cursor_safe m \<Longrightarrow> cursor_safe (wrapS msg m)"
  by (simp add: cursor_safe_def)

lemma cursor_safe_if [cursor_safe_intros]:
  "(b \<Longrightarrow> cursor_safe m) \<Longrightarrow> (\<not> b \<Longrightarrow> cursor_safe n) \<Longrightarrow> cursor_safe (if b then m else n)"
  by simp

lemma cursor_safe_ReadTag [cursor_safe_intros]: "cursor_safe ReadTag"
  by (auto simp: cursor_safe_def ReadTag_def reader_step_def rd_wf_def)

lemma cursor_safe_ReadLength [cursor_safe_intros]: "cursor_safe ReadLength"
proof -
  have "reader_step r (snd (ReadLength r))" if "rd_wf r" for r
    using that decode_ber_length_spec [of "rd_pos r" "rd_buffer r"]
    by (auto simp: ReadLength_def reader_step_def rd_wf_def split: option.splits)
  then show ?thesis by (simp add: cursor_safe_def)
qed

lemma cursor_safe_Skip [cursor_safe_intros]: "cursor_safe (Skip len)"
  by (auto simp: cursor_safe_def Skip_def has_def reader_step_def rd_wf_def)

lemma cursor_safe_value [cursor_safe_intros]:
  "cursor_safe (\<lambda>r. if \<not> has n r then (Inl (e r), r) else (Inr (g r), r\<lparr>rd_pos := rd_pos r + n\<rparr>))"
  by (auto simp: cursor_safe_def has_def reader_step_def rd_wf_def)

lemma cursor_safe_ReadPrimitive [cursor_safe_intros]: "cursor_safe (ReadPrimitive tag)"
  unfolding ReadPrimitive_def by (intro cursor_safe_intros)

lemma cursor_safe_EnterConstructed [cursor_safe_intros]: "cursor_safe (EnterConstructed tag)"
  unfolding EnterConstructed_def by (intro cursor_safe_intros)

lemma cursor_safe_SkipPrimitive [cursor_safe_intros]: "cursor_safe SkipPrimitive"
  unfolding SkipPrimitive_def by (intro cursor_safe_intros)

lemma cursor_safe_ReadBoolean [cursor_safe_intros]: "cursor_safe ReadBoolean"
  unfolding ReadBoolean_def by (intro cursor_safe_intros)

lemma cursor_safe_ReadInteger [cursor_safe_intros]: "cursor_safe ReadInteger"
  unfolding ReadInteger_def by (intro cursor_safe_intros)

lemma cursor_safe_ReadPrimitiveIfPresent [cursor_safe_intros]: "cursor_safe (ReadPrimitiveIfPresent tag)"
proof -
  have "cursor_safe (bindS (ReadPrimitive tag) (\<lambda>v. returnS (Some v)))"
    by (intro cursor_safe_intros)
  then show ?thesis by (simp add: cursor_safe_def ReadPrimitiveIfPresent_def)
qed

section \<open>Refinement: a reader is the parser of its unread bytes\<close>

definition reader_at :: "bytes \<Rightarrow> bytes \<Rightarrow> ber_reader" where
  "reader_at us vs = \<lparr>rd_buffer = us @ vs, rd_pos = length us\<rparr>"

definition unread :: "ber_reader \<Rightarrow> bytes" where
  "unread r = drop (rd_pos r) (rd_buffer r)"

text \<open>A TLV item at the front of a byte string: tag, value, and what follows.\<close>

fun tlv_item :: "bytes \<Rightarrow> ((byte \<times> bytes) \<times> bytes) option" where
  "tlv_item [] = None"
| "tlv_item (t # bs) =
     (case ber_length bs of
        None \<Rightarrow> None
      | Some (n, rest) \<Rightarrow> if n \<le> length rest then Some ((t, take n rest), drop n rest) else None)"

definition tlv_enc :: "byte \<times> bytes \<Rightarrow> bytes" where
  "tlv_enc tv = fst tv # ber_enc (length (snd tv)) @ snd tv"

definition tlv_ok :: "byte \<times> bytes \<Rightarrow> bool" where
  "tlv_ok tv \<longleftrightarrow> length (snd tv) < 2 ^ 32"

lemma length_tlv_enc_le: "length (tlv_enc (t, v)) \<le> length v + 6"
  by (simp add: tlv_enc_def ber_enc_def encode_ber_length_def)

lemma unread_reader_at [simp]: "unread (reader_at us vs) = vs"
  by (simp add: unread_def reader_at_def)

lemma rd_wf_reader_at [simp]: "rd_wf (reader_at us vs)"
  by (simp add: rd_wf_def reader_at_def)

lemma reader_atE:
  assumes "rd_wf r"
  obtains us where "r = reader_at us (unread r)"
proof
  show "r = reader_at (take (rd_pos r) (rd_buffer r)) (unread r)"
    using assms by (cases r) (auto simp: reader_at_def unread_def rd_wf_def)
qed

lemma NewBerTlvReader_at: "NewBerTlvReader bs = reader_at [] bs"
  by (simp add: NewBerTlvReader_def reader_at_def)

lemma ReadTag_at:
  "ReadTag (reader_at us []) = (Inl (Msg ''end of buffer, no tag to read''), reader_at us [])"
  "ReadTag (reader_at us (v # vs)) = (Inr v, reader_at (us @ [v]) vs)"
  by (simp_all add: ReadTag_def reader_at_def)

lemma NextTagIs_at [simp]:
  "NextTagIs t (reader_at us vs) \<longleftrightarrow> (case vs of [] \<Rightarrow> False | v # _ \<Rightarrow> v = t)"
  by (cases vs) (simp_all add: NextTagIs_def reader_at_def)

lemma PeekUnread_at [simp]: "PeekUnread (reader_at us vs) = vs"
  by (simp add: PeekUnread_def reader_at_def)

lemma ReadLength_at:
  "case ber_length vs of
     None \<Rightarrow> \<exists>m. ReadLength (reader_at us vs) = (Inl (Msg m), reader_at us vs)
   | Some (n, rest) \<Rightarrow> \<exists>ws. vs = ws @ rest \<and>
       ReadLength (reader_at us vs) = (Inr (of_nat n), reader_at (us @ ws) rest)"
proof (cases "ber_length vs")
  case None
  then show ?thesis
    using decode_ber_length_spec [of "length us" "us @ vs"]
    by (auto simp: ReadLength_def reader_at_def)
next
  case (Some nr)
  obtain n rest where nr: "nr = (n, rest)" by (cases nr)
  with Some decode_ber_length_spec [of "length us" "us @ vs"] obtain off
    where off: "decode_ber_length (us @ vs) (length us) = Inr (of_nat n, off)"
      "length us < off" "off \<le> length (us @ vs)" "drop off (us @ vs) = rest"
    by auto
  define ws where "ws = take (off - length us) vs"
  have ws: "vs = ws @ rest" "length us + length ws = off"
    using off(2-4) by (auto simp: ws_def)
  with off Some nr show ?thesis
    by (auto simp: ReadLength_def reader_at_def)
qed

lemma ReadPrimitive_at:
  "case tlv_item vs of
     None \<Rightarrow> \<exists>m r'. ReadPrimitive tag (reader_at us vs) = (Inl (Msg m), r')
   | Some ((t, v), rest) \<Rightarrow>
       if t = tag then \<exists>ws. vs = ws @ rest \<and> ReadPrimitive tag (reader_at us vs) = (Inr v, reader_at (us @ ws) rest)
       else ReadPrimitive tag (reader_at us vs) = (Inl (Msg ''expected tag''), reader_at (us @ [t]) (tl vs))"
proof (cases vs)
  case (Cons t bs)
  show ?thesis
  proof (cases "t = tag")
    case True
    show ?thesis
    proof (cases "ber_length bs")
      case None
      then show ?thesis
        using ReadLength_at [of "us @ [t]" bs] Cons True
        by (auto simp: ReadPrimitive_def ReadTag_at)
    next
      case (Some nr)
      obtain n rest where nr: "nr = (n, rest)" by (cases nr)
      with Some ReadLength_at [of "us @ [t]" bs] obtain ws
        where ws: "bs = ws @ rest"
          "ReadLength (reader_at (us @ [t]) bs) = (Inr (of_nat n), reader_at (us @ t # ws) rest)"
        by auto
      have n: "unat (of_nat n :: u32) = n"
        using Some nr ber_length_lt by (simp add: unat_of_nat)
      have split: "us @ t # ws @ rest = (us @ t # ws @ take n rest) @ drop n rest"
        by simp
      show ?thesis
      proof (cases "n \<le> length rest")
        case ok: True
        then have "ReadPrimitive tag (reader_at us vs)
            = (Inr (take n rest), reader_at (us @ t # ws @ take n rest) (drop n rest))"
          using Cons True ws n by (simp add: ReadPrimitive_def ReadTag_at has_def)
             (simp add: reader_at_def gslice_def)
        with Some nr ok Cons True ws show ?thesis
          by (auto intro!: exI [of _ "tag # ws @ take n rest"])
      next
        case False
        then show ?thesis using Some nr Cons True ws n
          by (simp add: ReadPrimitive_def ReadTag_at has_def) (simp add: reader_at_def)
      qed
    qed
  next
    case False
    then show ?thesis using Cons
      by (auto simp: ReadPrimitive_def ReadTag_at split: option.splits)
  qed
qed (simp add: ReadPrimitive_def ReadTag_at)

text \<open>The refinement as one equation on values: the read returns exactly the parsed value.\<close>

lemma ReadPrimitive_Inr_iff:
  assumes "rd_wf r"
  shows "(\<exists>r'. ReadPrimitive tag r = (Inr v, r') \<and> unread r' = rest)
    \<longleftrightarrow> tlv_item (unread r) = Some ((tag, v), rest)"
proof -
  obtain us where "r = reader_at us (unread r)" using assms by (rule reader_atE)
  then show ?thesis
    using ReadPrimitive_at [where tag = tag and us = us and vs = "unread r"]
    by (fastforce split: option.splits prod.splits if_splits)
qed

lemma tlv_item_shrinks: "tlv_item bs = Some (tv, rest) \<Longrightarrow> length rest < length bs"
  by (cases bs) (auto split: option.splits if_splits dest!: ber_length_shrinks)

lemma tlv_item_enc: "tlv_ok tv \<Longrightarrow> tlv_item (tlv_enc tv @ rest) = Some (tv, rest)"
  by (cases tv) (simp add: tlv_ok_def tlv_enc_def ber_length_enc)

interpretation tlv: prefix_codec tlv_enc tlv_item tlv_ok
  by unfold_locales (simp_all add: tlv_item_enc tlv_item_shrinks)

section \<open>What the writer writes, the reader reads\<close>

lemma WritePrimitive_enc: "WritePrimitive tag v w = w @ tlv_enc (tag, v)"
  by (simp add: WritePrimitive_def WriteNumLength_def tlv_enc_def ber_enc_def)

lemma WriteConstructed_enc:
  "WriteConstructed tag f w = w @ tlv_enc (tag, f [])"
  by (simp add: WriteConstructed_def WriteNumLength_def NewBerTlvWriter_def tlv_enc_def ber_enc_def Let_def)

text \<open>Symbolic execution of a reader over encoded items.\<close>

lemma ReadPrimitive_enc [exec_simps]:
  assumes "length v < 2 ^ 32"
  shows "ReadPrimitive tag (reader_at us (tlv_enc (tag, v) @ rest))
    = (Inr v, reader_at (us @ tlv_enc (tag, v)) rest)"
proof -
  have "tlv_item (tlv_enc (tag, v) @ rest) = Some ((tag, v), rest)"
    using assms by (simp add: tlv_item_enc tlv_ok_def)
  then show ?thesis
    using ReadPrimitive_at [where tag = tag and us = us and vs = "tlv_enc (tag, v) @ rest"]
    by auto
qed

lemma EnterConstructed_enc [exec_simps]:
  assumes "length v < 2 ^ 32"
  shows "EnterConstructed tag (reader_at us (tlv_enc (tag, v) @ rest))
    = (Inr (of_nat (length v)), reader_at (us @ tag # ber_enc (length v)) (v @ rest))"
proof -
  have "ber_length (ber_enc (length v) @ v @ rest) = Some (length v, v @ rest)"
    using assms by (simp add: ber_length_enc)
  then show ?thesis
    using ReadLength_at [of "us @ [tag]" "ber_enc (length v) @ v @ rest"]
    by (auto simp: EnterConstructed_def ReadTag_at tlv_enc_def)
qed

lemma NextTagIs_enc [exec_simps]: "NextTagIs t (reader_at us (tlv_enc (tag, v) @ rest)) \<longleftrightarrow> tag = t"
  by (simp add: tlv_enc_def)

lemma reader_at_end [exec_simps]:
  "ReadPrimitive tag (reader_at us (tlv_enc (tag, v))) = ReadPrimitive tag (reader_at us (tlv_enc (tag, v) @ []))"
  "EnterConstructed tag (reader_at us (tlv_enc (tag, v))) = EnterConstructed tag (reader_at us (tlv_enc (tag, v) @ []))"
  by simp_all

text \<open>Integers: four bytes less their leading zeros, and back.\<close>

lemma be_nat_strip_start:
  "be_nat (drop (strip_start bs k - k) bs) = be_nat bs \<and> k \<le> strip_start bs k"
proof (induction bs arbitrary: k)
  case (Cons b bs)
  show ?case
  proof (cases "k < 3 \<and> b = 0")
    case True
    moreover from Cons [of "k + 1"] have "k + 1 \<le> strip_start bs (k + 1)" by simp
    then have "strip_start bs (k + 1) - k = Suc (strip_start bs (k + 1) - (k + 1))" by simp
    ultimately show ?thesis using Cons [of "k + 1"] by (simp add: be_nat_Cons)
  next
    case False
    then show ?thesis by auto
  qed
qed simp

lemma strip_start_le: "strip_start bs k \<le> max k 3"
proof (induction bs arbitrary: k)
  case (Cons b bs)
  from this [of "Suc k"] show ?case by auto
qed simp

definition int32_bytes :: "u32 \<Rightarrow> bytes" where
  "int32_bytes i =
     [ucast (signed_drop_bit 24 i), ucast (signed_drop_bit 16 i),
      ucast (signed_drop_bit 8 i), ucast i]"

lemma ucast_signed_drop_bit:
  "k \<le> 24 \<Longrightarrow> (ucast (signed_drop_bit k (w :: u32)) :: byte) = ucast (drop_bit k w)"
  by (rule bit_word_eqI) (auto simp: bit_simps not_less)

lemma int32_bytes_eq: "int32_bytes i = be_bytes 4 (unat i)"
proof -
  have div2: "n div 256 div 256 = n div 65536" "n div 65536 div 256 = n div 16777216" for n :: nat
    by (simp_all flip: div_mult2_eq)
  obtain n where n: "unat i = n" by simp
  have "int32_bytes i = [ucast (drop_bit 24 i), ucast (drop_bit 16 i), ucast (drop_bit 8 i), ucast i]"
    by (simp only: int32_bytes_def ucast_signed_drop_bit)
  then show ?thesis
    unfolding be_bytes_numerals ucast_drop_bit_of_nat
    unfolding ucast_byte_of_nat n by (simp only: div2) simp
qed

lemma WriteInteger_enc:
  "\<exists>bs. WriteInteger tag i w = w @ tlv_enc (tag, bs) \<and> bs \<noteq> [] \<and> length bs \<le> 4 \<and> be_nat bs = unat i"
proof -
  define start where "start = (if sint i < 0 then 0 else strip_start (int32_bytes i) 0)"
  have "WriteInteger tag i w = w @ tlv_enc (tag, drop start (int32_bytes i))"
    by (simp add: WriteInteger_def WritePrimitive_enc start_def int32_bytes_def Let_def)
  moreover have "start \<le> 3"
    using strip_start_le [of "int32_bytes i" 0] by (simp add: start_def)
  moreover have "length (int32_bytes i) = 4" by (simp add: int32_bytes_def)
  moreover have "be_nat (drop start (int32_bytes i)) = be_nat (int32_bytes i)"
    using be_nat_strip_start [of "int32_bytes i" 0] by (simp add: start_def)
  moreover have "be_nat (int32_bytes i) = unat i"
    using unat_u32_lt [of i] by (simp add: int32_bytes_eq be_nat_be_bytes)
  ultimately show ?thesis
    by (intro exI [of _ "drop start (int32_bytes i)"]) (auto simp flip: length_0_conv)
qed

lemma ReadInteger_WriteInteger:
  "ReadInteger (reader_at us (WriteInteger TLV_INT i [] @ rest))
    = (Inr i, reader_at (us @ WriteInteger TLV_INT i []) rest)"
proof -
  obtain bs where bs: "WriteInteger TLV_INT i [] = tlv_enc (TLV_INT, bs)" "bs \<noteq> []" "length bs \<le> 4"
    "be_nat bs = unat i"
    using WriteInteger_enc [of TLV_INT i "[]"] by auto
  have "(shift_in bs :: u32) = of_nat (be_nat bs)"
    using bs(4) unat_u32_lt [of i] by (intro shift_in_of_nat) auto
  moreover have "length bs < 2 ^ 32" using bs(3) by simp
  ultimately show ?thesis
    using bs by (simp add: ReadInteger_def exec_simps)
qed

section \<open>Properties\<close>

lemma decode_ber_length_at:
  assumes "ber_length vs = Some (n, rest)"
  shows "decode_ber_length (us @ vs) (length us) = Inr (of_nat n, length us + (length vs - length rest))"
proof -
  obtain off where off: "decode_ber_length (us @ vs) (length us) = Inr (of_nat n, off)"
    "off \<le> length us + length vs" "drop (off - length us) vs = rest" "length us < off"
    using assms decode_ber_length_spec [of "length us" "us @ vs"] by auto
  then have "off = length us + (length vs - length rest)" by auto
  with off show ?thesis by simp
qed

text \<open>
  Every 32-bit length is decoded from its encoding, at any offset of any buffer, with
  the offset moved exactly behind it.
\<close>

theorem decode_encode_ber_length:
  "decode_ber_length (us @ encode_ber_length w @ vs) (length us)
    = Inr (w, length us + length (encode_ber_length w))"
  using decode_ber_length_at [OF ber_length_encode, of us w vs] by simp

text \<open>
  The encoder is canonical: no byte string that decodes to a length is shorter than what
  \<open>EncodeBerLength\<close> writes for it.
\<close>

theorem encode_ber_length_shortest:
  assumes "decode_ber_length data 0 = Inr (w, off)"
  shows "length (encode_ber_length w) \<le> off"
proof -
  have "ber_length data \<noteq> None"
    using assms decode_ber_length_spec [of 0 data] by (cases "ber_length data") auto
  then obtain n rest where n: "ber_length data = Some (n, rest)" by auto
  have w: "unat w = n" and off: "off = length data - length rest"
    using assms decode_ber_length_at [OF n, of "[]"] ber_length_lt [OF n]
    by (auto simp: unat_of_nat)
  obtain b bs where data: "data = b # bs" using n by (cases data) auto
  show ?thesis
  proof (cases "unat b < 128")
    case True
    then show ?thesis using n data w off by (simp add: encode_ber_length_bytes)
  next
    case False
    define k where "k = unat b - 128"
    have k: "0 < k" "k \<le> 4" "k \<le> length bs" "n = be_nat (take k bs)" "off = 1 + k"
      using n data off False by (auto simp: k_def Let_def split: if_splits)
    then have "n < 256 ^ k" using be_nat_lt_pow [of "take k bs" k] by simp
    moreover have "k = 1 \<or> k = 2 \<or> k = 3 \<or> k = 4" using k by arith
    ultimately show ?thesis using k w by (auto simp: encode_ber_length_bytes)
  qed
qed

theorem encode_ber_length_shortest_witness:
  "length (encode_ber_length 5) \<le> 3"
  by (rule encode_ber_length_shortest [of "[0x82, 0, 5]"])
     (simp add: decode_ber_length_def gslice_def shift_in_def)

text \<open>A sum stays in the range unless it overflows; then it is negative.\<close>

lemma go_int_add_exact: "- (2 ^ 63) \<le> a + b \<Longrightarrow> a + b < 2 ^ 63 \<Longrightarrow> go_int_add a b = a + b"
  by (simp add: go_int_add_def)

lemma go_int_add_overflow:
  assumes "a < 2 ^ 63" "b < 2 ^ 63" "2 ^ 63 \<le> a + b"
  shows "go_int_add a b < 0"
proof -
  have "(a + b + 2 ^ 63) mod 2 ^ 64 = (a + b - 2 ^ 63) mod 2 ^ 64"
    using mod_add_self2 [of "a + b - 2 ^ 63" "2 ^ 64"] by (simp add: algebra_simps)
  also have "\<dots> = a + b - 2 ^ 63" using assms by (intro mod_pos_pos_trivial) simp_all
  finally show ?thesis using assms(1,2) by (simp add: go_int_add_def)
qed

text \<open>
  C29. No method of the reader but \<open>Advance\<close> moves the cursor back or out of the buffer, and none writes
  the buffer, whether it returns a value or an error. \<open>Advance\<close>, for any count of the (64-bit) type
  \<open>int\<close>, leaves the cursor between where it was and the end of the buffer exactly when the count
  is not negative and the sum does not overflow; a negative count moves it back, unchecked.
\<close>

theorem reader_methods_cursor_safe:
  assumes "rd_wf r" "length (rd_buffer r) < 2 ^ 63" "- (2 ^ 63) \<le> count" "count < 2 ^ 63"
  shows "cursor_safe ReadTag \<and> cursor_safe ReadLength \<and> cursor_safe (EnterConstructed tag)
   \<and> cursor_safe (ReadPrimitive tag) \<and> cursor_safe (ReadPrimitiveIfPresent tag)
   \<and> cursor_safe (Skip len) \<and> cursor_safe SkipPrimitive
   \<and> cursor_safe ReadBoolean \<and> cursor_safe ReadInteger
   \<and> (int (rd_pos r) \<le> Advance count r \<and> Advance count r \<le> int (length (rd_buffer r))
        \<longleftrightarrow> 0 \<le> count \<and> int (rd_pos r) + count < 2 ^ 63)
   \<and> (count < 0 \<longrightarrow> Advance count r = int (rd_pos r) + count)"
proof -
  have pos: "int (rd_pos r) \<le> int (length (rd_buffer r))" "int (length (rd_buffer r)) < 2 ^ 63"
    using assms(1,2) by (simp_all add: rd_wf_def)
  note exact = go_int_add_exact [of "int (rd_pos r)" count] and overflow = go_int_add_overflow [of "int (rd_pos r)" count]
  have moved: "Advance count r = int (rd_pos r) + count" if "count < 0"
    using that pos assms(3) exact by (simp add: Advance_def)
  have "int (rd_pos r) \<le> Advance count r \<and> Advance count r \<le> int (length (rd_buffer r))
      \<longleftrightarrow> 0 \<le> count \<and> int (rd_pos r) + count < 2 ^ 63"
  proof (cases "count < 0 \<or> 2 ^ 63 \<le> int (rd_pos r) + count")
    case True
    then have "Advance count r < int (rd_pos r)"
      using moved overflow pos assms(4) by (auto simp: Advance_def)
    then show ?thesis using True by auto
  next
    case False
    then show ?thesis using pos exact by (auto simp: Advance_def)
  qed
  with moved show ?thesis by (intro conjI cursor_safe_intros) auto
qed

lemma cursor_safe_advanced:
  assumes "rd_wf r" "length (rd_buffer r) < 2 ^ 63" "0 \<le> count" "int (rd_pos r) + count < 2 ^ 63"
  shows "reader_step r (advanced count r)"
  using assms go_int_add_exact [of "int (rd_pos r)" count]
  by (auto simp: reader_step_def rd_wf_def advanced_def Advance_def)

theorem reader_methods_cursor_safe_witness:
  "cursor_safe (ReadPrimitive 2) \<and> Advance (- 2) (reader_at [1, 2, 3] [4]) = 1
   \<and> \<not> int (rd_pos (reader_at [1, 2, 3] [4])) \<le> Advance (- 2) (reader_at [1, 2, 3] [4])"
proof -
  have l: "length (rd_buffer (reader_at [1, 2, 3] [4])) < 2 ^ 63" by (simp add: reader_at_def)
  have r: "- (2 ^ 63) \<le> (- 2 :: int)" "(- 2 :: int) < 2 ^ 63" by simp_all
  from reader_methods_cursor_safe [OF rd_wf_reader_at l r, of 2] show ?thesis by (simp add: reader_at_def)
qed

text \<open>
  C28. \<open>ReadPrimitive\<close> refines the TLV grammar: it returns a value and leaves certain bytes
  unread exactly when the unread bytes start with an item of that tag and value, followed by
  those bytes.
\<close>

theorem ReadPrimitive_refines_tlv_item:
  assumes "rd_wf r"
  shows "(\<exists>r'. ReadPrimitive tag r = (Inr v, r') \<and> unread r' = rest)
    \<longleftrightarrow> tlv_item (unread r) = Some ((tag, v), rest)"
  using assms by (rule ReadPrimitive_Inr_iff)

theorem ReadPrimitive_refines_tlv_item_witness:
  "\<exists>r'. ReadPrimitive 0x8A (NewBerTlvReader [0x8A, 2, 7, 8, 9]) = (Inr [7, 8], r') \<and> unread r' = [9]"
  using ReadPrimitive_refines_tlv_item [of "NewBerTlvReader [0x8A, 2, 7, 8, 9]" "0x8A" "[7, 8]" "[9]"]
  by (simp add: NewBerTlvReader_at)

text \<open>
  C30. A sequence of primitives written with \<open>WritePrimitive\<close> is unambiguous: two sequences
  with the same bytes are equal, and parsing the bytes item by item gives the sequence.
\<close>

theorem written_items_parse_back:
  assumes "list_all tlv_ok items"
  shows "decode_all tlv_item
      (length (fold (\<lambda>(t, v). WritePrimitive t v) items NewBerTlvWriter))
      (fold (\<lambda>(t, v). WritePrimitive t v) items NewBerTlvWriter) = Some items"
proof -
  have "fold (\<lambda>(t, v). WritePrimitive t v) is w = w @ concat (map tlv_enc is)" for "is" w
    by (induction "is" arbitrary: w) (auto simp: WritePrimitive_enc)
  then show ?thesis
    using tlv.decode_all_input [OF assms] by (simp add: NewBerTlvWriter_def)
qed

theorem written_items_parse_back_witness:
  "decode_all tlv_item
      (length (fold (\<lambda>(t, v). WritePrimitive t v) [(0x80, [1, 2]), (0x81, [])] NewBerTlvWriter))
      (fold (\<lambda>(t, v). WritePrimitive t v) [(0x80, [1, 2]), (0x81, [])] NewBerTlvWriter)
    = Some [(0x80, [1, 2]), (0x81, [])]"
  by (rule written_items_parse_back) (simp add: tlv_ok_def)

text \<open>
  Every \<open>int32\<close>, negative ones included, is read back from what \<open>WriteInteger\<close> wrote,
  although the writer strips leading zeros without keeping a sign byte.
\<close>

theorem ReadInteger_of_WriteInteger:
  "\<exists>r'. ReadInteger (NewBerTlvReader (WriteInteger TLV_INT i NewBerTlvWriter @ rest)) = (Inr i, r')
     \<and> unread r' = rest"
  using ReadInteger_WriteInteger [of "[]" i rest]
  by (simp add: NewBerTlvReader_at NewBerTlvWriter_def)

end
