(* ===== verification/Metadata.thy ===== *)
theory Metadata
  imports Tlv
begin

text \<open>
  \<open>types/metadata.go\<close>: the card's name and wallet ids, kept as a strictly ascending slice
  with binary search, and their compressed form of ranges in BER lengths. A name is the bytes
  of the Go string. The sorted slice implements the interface of a finite set, \<open>id_set\<close>.
\<close>

section \<open>The operations\<close>

definition MaxWalletRangeCount :: nat where "MaxWalletRangeCount = 100000"

definition MaxTotalWallets :: nat where "MaxTotalWallets = 100000"

record Metadata =
  mdName :: bytes
  wallets :: "u64 list"

definition EmptyMetadata :: Metadata where
  "EmptyMetadata = \<lparr>mdName = [], wallets = []\<rparr>"

definition SetName :: "bytes \<Rightarrow> (Metadata, unit) st" where
  "SetName nm = (\<lambda>m. if 20 < length nm then (Inl (Msg ''name longer than 20 chars''), m)
                     else (Inr (), m\<lparr>mdName := nm\<rparr>))"

text \<open>The loop of \<open>sortInsertPos\<close> and of \<open>sortSearchPos\<close>, which are the same function.\<close>

function search_loop :: "u64 list \<Rightarrow> u64 \<Rightarrow> nat \<Rightarrow> nat \<Rightarrow> nat" where
  "search_loop ws wid low high =
     (if low < high then
        let mid = (low + high) div 2
        in if ws ! mid < wid then search_loop ws wid (mid + 1) high else search_loop ws wid low mid
      else low)"
  by pat_completeness auto
termination
  by (relation "measure (\<lambda>(ws, wid, low, high). high - low)") auto

declare search_loop.simps [simp del]

definition sortInsertPos :: "u64 list \<Rightarrow> u64 \<Rightarrow> nat" where
  "sortInsertPos ws wid = search_loop ws wid 0 (length ws)"

definition sortSearchPos :: "u64 list \<Rightarrow> u64 \<Rightarrow> nat" where
  "sortSearchPos ws wid = search_loop ws wid 0 (length ws)"

definition AddWallet :: "u64 \<Rightarrow> Metadata \<Rightarrow> Metadata" where
  "AddWallet wid m =
     (let ws = wallets m; idx = sortInsertPos ws wid
      in if idx < length ws \<and> ws ! idx = wid then m
         else m\<lparr>wallets := take idx ws @ wid # drop idx ws\<rparr>)"

definition RemoveWallet :: "u64 \<Rightarrow> Metadata \<Rightarrow> Metadata" where
  "RemoveWallet wid m =
     (let ws = wallets m; idx = sortSearchPos ws wid
      in if idx < length ws \<and> ws ! idx = wid then m\<lparr>wallets := take idx ws @ drop (idx + 1) ws\<rparr> else m)"

definition AddPath :: "u32 \<Rightarrow> Metadata \<Rightarrow> Metadata" where
  "AddPath path m = AddWallet (ucast path) m"

definition RemovePath :: "u32 \<Rightarrow> Metadata \<Rightarrow> Metadata" where
  "RemovePath path m = RemoveWallet (ucast path) m"

definition NewMetadata :: "bytes \<Rightarrow> u32 list \<Rightarrow> Metadata res" where
  "NewMetadata nm paths =
     (case SetName nm EmptyMetadata of
        (Inl e, _) \<Rightarrow> Inl e
      | (Inr _, m) \<Rightarrow> Inr (fold (\<lambda>p. AddWallet (ucast p)) paths m))"

definition Paths :: "Metadata \<Rightarrow> u32 list" where
  "Paths m = map ucast (wallets m)"

text \<open>The loop that compresses the ids \<open>ws\<close> that follow a range of \<open>start\<close> and \<open>count\<close>.\<close>

fun ranges_from :: "u64 \<Rightarrow> u64 \<Rightarrow> u64 list \<Rightarrow> (u64 \<times> u64) list" where
  "ranges_from start count [] = [(start, count)]"
| "ranges_from start count (w # ws) =
     (if w = start + count + 1 then ranges_from start (count + 1) ws
      else (start, count) # ranges_from w 0 ws)"

definition Serialize_metadata :: "Metadata \<Rightarrow> bytes" where
  "Serialize_metadata m =
     (0x20 OR of_nat (length (mdName m))) # mdName m @
     (case wallets m of
        [] \<Rightarrow> []
      | w # ws \<Rightarrow> concat (map (\<lambda>(start, count). encode_ber_length (ucast start) @ encode_ber_length (ucast count))
                        (ranges_from w 0 ws)))"

lemma decode_ber_length_advances:
  "off \<le> length data \<Longrightarrow> decode_ber_length data off = Inr (n, off') \<Longrightarrow> off < off' \<and> off' \<le> length data"
  using decode_ber_length_spec [of off data] by (auto split: option.splits)

text \<open>The loop of \<open>ParseMetadata\<close> over the ranges.\<close>

function parse_ranges :: "bytes \<Rightarrow> nat \<Rightarrow> u64 list \<Rightarrow> nat \<Rightarrow> u64 list res" where
  "parse_ranges data off ws totalInserted =
     (if off < length data then
        (case decode_ber_length data off of
           Inl e \<Rightarrow> Inl e
         | Inr (start, off) \<Rightarrow>
             (case decode_ber_length data off of
                Inl e \<Rightarrow> Inl e
              | Inr (count, off) \<Rightarrow>
                  if MaxWalletRangeCount < unat count then Inl (Msg ''wallet range count too large'')
                  else if MaxTotalWallets < totalInserted + (unat count + 1)
                    then Inl (Msg ''Total wallet count too large'')
                  else parse_ranges data off
                         (ws @ map (\<lambda>i. ucast start + of_nat i) [0..<unat count + 1])
                         (totalInserted + (unat count + 1))))
      else Inr ws)"
  by pat_completeness auto
termination
proof (relation "measure (\<lambda>(data, off, ws, t). length data - off)", goal_cases)
  case (2 data off ws t a start off1 b count off2)
  then show ?case
    using decode_ber_length_advances [of off data start off1] decode_ber_length_advances [of off1 data count off2]
    by auto
qed simp

declare parse_ranges.simps [simp del]

definition ParseMetadata :: "bytes \<Rightarrow> Metadata res" where
  "ParseMetadata data =
     (if length data = 0 then Inl (Msg ''empty metadata data'')
      else
        let header = data ! 0; version = drop_bit 5 header
        in if version \<noteq> 1 then Inl (Msg ''invalid metadata version'')
           else
             let nameLen = unat (header AND 0x1F); off = 1
             in if length data < off + nameLen then Inl (Msg ''metadata data too short for card name'')
                else
                  let cardName = gslice off (off + nameLen) data
                  in bindE (parse_ranges data (off + nameLen) [] 0) (\<lambda>ws.
                       Inr \<lparr>mdName = cardName, wallets = ws\<rparr>))"

section \<open>Binary search\<close>

text \<open>On an ascending slice the search returns the number of elements below \<open>wid\<close>.\<close>

lemma search_loop_bounds:
  "sorted_wrt (<) ws \<Longrightarrow> low \<le> high \<Longrightarrow> high \<le> length ws \<Longrightarrow>
   \<forall>i < low. ws ! i < wid \<Longrightarrow> \<forall>i. high \<le> i \<and> i < length ws \<longrightarrow> wid \<le> ws ! i \<Longrightarrow>
   (let k = search_loop ws wid low high in k \<le> length ws \<and> (\<forall>i < k. ws ! i < wid) \<and>
      (\<forall>i. k \<le> i \<and> i < length ws \<longrightarrow> wid \<le> ws ! i))"
proof (induction ws wid low high rule: search_loop.induct)
  case (1 ws wid low high)
  show ?case
  proof (cases "low < high")
    case True
    define mid where "mid = (low + high) div 2"
    have mid: "low \<le> mid" "mid < high" "mid < length ws" using True 1(5) by (simp_all add: mid_def)
    have mono: "ws ! i < ws ! j" if "i < j" "j < length ws" for i j
      using 1(3) that by (rule sorted_wrt_nth_less)
    show ?thesis
    proof (cases "ws ! mid < wid")
      case less: True
      have "\<forall>i < mid + 1. ws ! i < wid"
      proof (intro allI impI)
        fix i assume "i < mid + 1"
        then show "ws ! i < wid" using less mono [of i mid] mid by (cases "i = mid") auto
      qed
      then have "let k = search_loop ws wid (mid + 1) high in k \<le> length ws \<and> (\<forall>i < k. ws ! i < wid) \<and>
          (\<forall>i. k \<le> i \<and> i < length ws \<longrightarrow> wid \<le> ws ! i)"
        using 1 True less mid by (intro 1(1)) (auto simp: mid_def)
      then show ?thesis using True less
        by (subst search_loop.simps) (simp add: Let_def mid_def)
    next
      case ge: False
      have "\<forall>i. mid \<le> i \<and> i < length ws \<longrightarrow> wid \<le> ws ! i"
      proof (intro allI impI)
        fix i assume "mid \<le> i \<and> i < length ws"
        then show "wid \<le> ws ! i" using ge mono [of mid i] by (cases "i = mid") auto
      qed
      then have "let k = search_loop ws wid low mid in k \<le> length ws \<and> (\<forall>i < k. ws ! i < wid) \<and>
          (\<forall>i. k \<le> i \<and> i < length ws \<longrightarrow> wid \<le> ws ! i)"
        using 1 True ge mid by (intro 1(2)) (auto simp: mid_def)
      then show ?thesis using True ge
        by (subst search_loop.simps) (simp add: Let_def mid_def)
    qed
  next
    case False
    then show ?thesis using 1 by (subst search_loop.simps) auto
  qed
qed

lemma search_split:
  fixes ws :: "u64 list" and wid :: u64
  assumes "sorted_wrt (<) ws"
  defines "k \<equiv> search_loop ws wid 0 (length ws)"
  shows "k \<le> length ws" "\<forall>x \<in> set (take k ws). x < wid" "\<forall>x \<in> set (drop k ws). wid \<le> x"
    "k < length ws \<and> ws ! k = wid \<longleftrightarrow> wid \<in> set ws"
proof -
  have b: "k \<le> length ws" "\<forall>i < k. ws ! i < wid" "\<forall>i. k \<le> i \<and> i < length ws \<longrightarrow> wid \<le> ws ! i"
    using search_loop_bounds [OF assms(1), of 0 "length ws" wid, unfolded Let_def, folded k_def]
    by (meson le0 leD le_refl not_less_zero)+
  show "k \<le> length ws" by (rule b)
  show t: "\<forall>x \<in> set (take k ws). x < wid" using b by (auto simp: in_set_conv_nth)
  show "\<forall>x \<in> set (drop k ws). wid \<le> x" using b by (auto simp: in_set_conv_nth)
  show "k < length ws \<and> ws ! k = wid \<longleftrightarrow> wid \<in> set ws"
  proof
    assume "wid \<in> set ws"
    then obtain i where i: "i < length ws" "ws ! i = wid" by (auto simp: in_set_conv_nth)
    then have "k \<le> i" using b(2) by (metis not_less order_less_irrefl)
    moreover have "\<not> k < i"
    proof
      assume "k < i"
      then have "ws ! k < ws ! i" using sorted_wrt_nth_less [OF assms(1)] i(1) by blast
      then show False using b(3) i \<open>k < i\<close> by (metis dual_order.strict_trans leD order_refl)
    qed
    ultimately show "k < length ws \<and> ws ! k = wid" using i by simp
  qed auto
qed

section \<open>The interface of a finite set\<close>

text \<open>
  What the owner of a wallet list relies on: adding and removing act on the set of elements and
  keep the invariant and the rest of the object, and the elements determine the object.
\<close>

locale id_set =
  fixes add :: "'a \<Rightarrow> 'm \<Rightarrow> 'm" and remove :: "'a \<Rightarrow> 'm \<Rightarrow> 'm"
    and elems :: "'m \<Rightarrow> 'a set" and inv :: "'m \<Rightarrow> bool" and frame :: "'m \<Rightarrow> 'f"
  assumes inv_add: "inv m \<Longrightarrow> inv (add a m)"
    and elems_add: "inv m \<Longrightarrow> elems (add a m) = insert a (elems m)"
    and frame_add: "inv m \<Longrightarrow> frame (add a m) = frame m"
    and inv_remove: "inv m \<Longrightarrow> inv (remove a m)"
    and elems_remove: "inv m \<Longrightarrow> elems (remove a m) = elems m - {a}"
    and frame_remove: "inv m \<Longrightarrow> frame (remove a m) = frame m"
    and canonical: "inv m \<Longrightarrow> inv n \<Longrightarrow> elems m = elems n \<Longrightarrow> frame m = frame n \<Longrightarrow> m = n"
begin

lemma fold_add:
  "inv m \<Longrightarrow> inv (fold add xs m) \<and> elems (fold add xs m) = set xs \<union> elems m \<and> frame (fold add xs m) = frame m"
  by (induction xs arbitrary: m) (auto simp: inv_add elems_add frame_add)

lemma fold_add_set:
  assumes "inv m" "set xs = set ys"
  shows "fold add xs m = fold add ys m"
  using fold_add [OF assms(1), of xs] fold_add [OF assms(1), of ys] assms(2) by (intro canonical) auto

lemma remove_add:
  assumes "inv m" "a \<notin> elems m"
  shows "remove a (add a m) = m"
  using assms by (intro canonical) (auto simp: inv_add elems_add frame_add inv_remove elems_remove frame_remove)

lemma add_present:
  assumes "inv m" "a \<in> elems m"
  shows "add a m = m"
  using assms by (intro canonical) (auto simp: inv_add elems_add frame_add)

end

definition metadata_inv :: "Metadata \<Rightarrow> bool" where
  "metadata_inv m \<longleftrightarrow> sorted_wrt (<) (wallets m)"

definition wallet_set :: "Metadata \<Rightarrow> u64 set" where
  "wallet_set m = set (wallets m)"

lemma AddWallet_spec:
  assumes "metadata_inv m"
  shows "metadata_inv (AddWallet wid m)" "wallet_set (AddWallet wid m) = insert wid (wallet_set m)"
    "mdName (AddWallet wid m) = mdName m"
proof -
  let ?ws = "wallets m"
  define k where "k = search_loop ?ws wid 0 (length ?ws)"
  have s: "sorted_wrt (<) ?ws" using assms by (simp add: metadata_inv_def)
  note split = search_split [OF s, of wid, folded k_def]
  have add: "AddWallet wid m = (if wid \<in> set ?ws then m else m\<lparr>wallets := take k ?ws @ wid # drop k ?ws\<rparr>)"
    by (simp add: AddWallet_def Let_def sortInsertPos_def split(4) flip: k_def)
  have "sorted_wrt (<) (take k ?ws @ wid # drop k ?ws)" if "wid \<notin> set ?ws"
  proof -
    have "sorted_wrt (<) (take k ?ws @ drop k ?ws)" using s by simp
    moreover have "x \<noteq> wid" if "x \<in> set (drop k ?ws)" for x
      using that \<open>wid \<notin> set ?ws\<close> by (metis in_set_dropD)
    ultimately show ?thesis using split(2,3)
      by (fastforce simp del: append_take_drop_id simp: sorted_wrt_append)
  qed
  then show "metadata_inv (AddWallet wid m)" using add s by (simp add: metadata_inv_def)
  have "set ?ws = set (take k ?ws) \<union> set (drop k ?ws)" by (metis append_take_drop_id set_append)
  then show "wallet_set (AddWallet wid m) = insert wid (wallet_set m)"
    using add by (auto simp: wallet_set_def)
  show "mdName (AddWallet wid m) = mdName m" using add by simp
qed

lemma RemoveWallet_spec:
  assumes "metadata_inv m"
  shows "metadata_inv (RemoveWallet wid m)" "wallet_set (RemoveWallet wid m) = wallet_set m - {wid}"
    "mdName (RemoveWallet wid m) = mdName m"
proof -
  let ?ws = "wallets m"
  define k where "k = search_loop ?ws wid 0 (length ?ws)"
  have s: "sorted_wrt (<) ?ws" using assms by (simp add: metadata_inv_def)
  note split = search_split [OF s, of wid, folded k_def]
  have rem: "RemoveWallet wid m =
      (if wid \<in> set ?ws then m\<lparr>wallets := take k ?ws @ drop (k + 1) ?ws\<rparr> else m)"
    by (simp add: RemoveWallet_def Let_def sortSearchPos_def split(4) flip: k_def)
  have cut: "?ws = take k ?ws @ wid # drop (k + 1) ?ws" if "wid \<in> set ?ws"
    using that split(4) by (metis Suc_eq_plus1 id_take_nth_drop)
  have sorted': "sorted_wrt (<) (take k ?ws @ wid # drop (k + 1) ?ws)" if "wid \<in> set ?ws"
    using s cut [OF that] by simp
  show "metadata_inv (RemoveWallet wid m)"
    using rem s sorted' by (auto simp: metadata_inv_def sorted_wrt_append)
  show "wallet_set (RemoveWallet wid m) = wallet_set m - {wid}"
  proof (cases "wid \<in> set ?ws")
    case True
    have "set ?ws = set (take k ?ws @ wid # drop (k + 1) ?ws)" using cut [OF True] by simp
    moreover have "wid \<notin> set (take k ?ws) \<union> set (drop (k + 1) ?ws)"
      using sorted' [OF True] by (auto simp: sorted_wrt_append)
    ultimately show ?thesis using rem True by (auto simp: wallet_set_def)
  qed (use rem in \<open>auto simp: wallet_set_def\<close>)
  show "mdName (RemoveWallet wid m) = mdName m" using rem by simp
qed

lemma strict_sorted_unique:
  "sorted_wrt (<) xs \<Longrightarrow> sorted_wrt (<) ys \<Longrightarrow> set xs = set ys \<Longrightarrow> xs = (ys :: 'a::linorder list)"
  by (metis strict_sorted_equal)

interpretation metadata: id_set AddWallet RemoveWallet wallet_set metadata_inv mdName
proof unfold_locales
  fix m n :: Metadata
  assume "metadata_inv m" "metadata_inv n" "wallet_set m = wallet_set n" "mdName m = mdName n"
  then show "m = n"
    using strict_sorted_unique [of "wallets m" "wallets n"]
    by (cases m; cases n) (simp add: metadata_inv_def wallet_set_def)
qed (simp_all add: AddWallet_spec RemoveWallet_spec)

lemma EmptyMetadata_inv [simp]: "metadata_inv (EmptyMetadata\<lparr>mdName := nm\<rparr>)" "wallet_set (EmptyMetadata\<lparr>mdName := nm\<rparr>) = {}"
  by (simp_all add: metadata_inv_def wallet_set_def EmptyMetadata_def)

text \<open>C38. \<open>NewMetadata\<close> keeps exactly the given ids, each once and in ascending order, so the
  order and the repetitions of its argument do not matter; it fails exactly on a name longer
  than 20 bytes.\<close>

theorem NewMetadata_set:
  "if length nm \<le> 20
   then \<exists>m. NewMetadata nm paths = Inr m \<and> mdName m = nm \<and> sorted_wrt (<) (wallets m)
          \<and> set (wallets m) = ucast ` set paths
          \<and> NewMetadata nm (rev paths @ paths) = Inr m
   else \<exists>e. NewMetadata nm paths = Inl e"
proof (cases "length nm \<le> 20")
  case True
  let ?e = "EmptyMetadata\<lparr>mdName := nm\<rparr>"
  have new: "NewMetadata nm ps = Inr (fold AddWallet (map ucast ps) ?e)" for ps :: "u32 list"
    using True by (simp add: NewMetadata_def SetName_def fold_map comp_def)
  have "fold AddWallet (map ucast (rev paths @ paths)) ?e = fold AddWallet (map ucast paths) ?e"
    by (rule metadata.fold_add_set) auto
  moreover have "metadata_inv (fold AddWallet (map ucast paths) ?e)
      \<and> wallet_set (fold AddWallet (map ucast paths) ?e) = ucast ` set paths
      \<and> mdName (fold AddWallet (map ucast paths) ?e) = nm"
    using metadata.fold_add [of ?e "map ucast paths"] by simp
  ultimately show ?thesis using True new by (auto simp: metadata_inv_def wallet_set_def)
qed (simp add: NewMetadata_def SetName_def)

section \<open>Serialization\<close>

definition expand_range :: "u64 \<times> u64 \<Rightarrow> u64 list" where
  "expand_range = (\<lambda>(start, count). map (\<lambda>i. start + of_nat i) [0..<unat count + 1])"

definition range_bytes :: "u64 \<times> u64 \<Rightarrow> bytes" where
  "range_bytes = (\<lambda>(start, count). encode_ber_length (ucast start) @ encode_ber_length (ucast count))"

text \<open>The ranges are the ids again, and none is longer than the number of ids.\<close>

lemma unat_add_1: "unat (c :: u64) < N \<Longrightarrow> N < 2 ^ 64 \<Longrightarrow> unat (c + 1) = unat c + 1"
  by (simp add: unat_word_ariths)

lemma ranges_from_expand:
  "unat count + length ws < N \<Longrightarrow> N < 2 ^ 64 \<Longrightarrow>
   concat (map expand_range (ranges_from start count ws)) = expand_range (start, count) @ ws
   \<and> (\<forall>(s, c) \<in> set (ranges_from start count ws). s \<in> insert start (set ws) \<and> unat c < N)
   \<and> (\<Sum>(s, c) \<leftarrow> ranges_from start count ws. unat c + 1) = unat count + 1 + length ws"
proof (induction start count ws rule: ranges_from.induct)
  case (1 start count)
  then show ?case by simp
next
  case (2 start count w ws)
  show ?case
  proof (cases "w = start + count + 1")
    case True
    have c: "unat (count + 1) = unat count + 1" using 2(3,4) by (intro unat_add_1) auto
    have "expand_range (start, count + 1) = expand_range (start, count) @ [w]"
      using True c by (simp add: expand_range_def add.assoc)
    with 2(1) [OF True] 2(3,4) c show ?thesis using True by auto
  next
    case False
    have "expand_range (w, 0) = [w]" by (simp add: expand_range_def)
    with 2(2) [OF False] 2(3,4) show ?thesis using False by auto
  qed
qed

lemma decode_range:
  "decode_ber_length (us @ encode_ber_length w @ vs) (length us) = Inr (w, length (us @ encode_ber_length w))"
  using decode_ber_length_at [OF ber_length_encode, of us w vs] by simp

lemma parse_ranges_bytes:
  assumes "\<forall>(s, c) \<in> set rs. unat s < 2 ^ 32" "t + (\<Sum>(s, c) \<leftarrow> rs. unat c + 1) \<le> 100000"
  shows "parse_ranges (us @ concat (map range_bytes rs)) (length us) acc t = Inr (acc @ concat (map expand_range rs))"
  using assms
proof (induction rs arbitrary: us acc t)
  case Nil
  then show ?case by (subst parse_ranges.simps) simp
next
  case (Cons r rs)
  obtain s c where r: "r = (s, c)" by (cases r)
  let ?s = "ucast s :: u32" and ?c = "ucast c :: u32" and ?rest = "concat (map range_bytes rs)"
  have s: "(ucast ?s :: u64) = s"
  proof (rule word_unat_eq_iff [THEN iffD2])
    have "unat ?s = unat s" using Cons.prems(1) r by (simp add: unsigned_ucast_eq take_bit_eq_mod)
    moreover have "unat (ucast ?s :: u64) = take_bit 64 (unat ?s)" by (simp only: unsigned_ucast_eq unsigned_take_bit_eq) simp
    moreover have "take_bit 64 (unat ?s) = unat ?s"
      using unat_u32_lt [of ?s] by (intro take_bit_nat_eq_self) simp
    ultimately show "unat (ucast ?s :: u64) = unat s" by simp
  qed
  have cl: "unat c < 100000" using Cons.prems(2) r by simp
  then have c: "unat ?c = unat c" by (simp add: unsigned_ucast_eq take_bit_eq_mod)
  define data where "data = us @ concat (map range_bytes (r # rs))"
  let ?us1 = "us @ encode_ber_length ?s" and ?us2 = "us @ range_bytes r"
  have d: "data = us @ encode_ber_length ?s @ encode_ber_length ?c @ ?rest"
    by (simp add: data_def r range_bytes_def)
  have "encode_ber_length ?s \<noteq> []" by (simp add: encode_ber_length_def)
  then have lt: "length us < length data" by (simp add: d)
  have d1: "decode_ber_length data (length us) = Inr (?s, length ?us1)"
    unfolding d by (rule decode_range)
  have d2: "decode_ber_length data (length ?us1) = Inr (?c, length ?us2)"
    using decode_range [of ?us1 ?c ?rest] by (simp add: d r range_bytes_def)
  have acc: "map (\<lambda>i. s + of_nat i) [0..<unat c + 1] = expand_range r" by (simp add: expand_range_def r)
  have "parse_ranges data (length us) acc t =
      parse_ranges data (length ?us2) (acc @ expand_range r) (t + (unat c + 1))"
    using Cons.prems(2) cl r
    by (subst parse_ranges.simps)
      (simp only: lt d1 d2 s c acc sum.case prod.case if_True, simp add: MaxWalletRangeCount_def MaxTotalWallets_def)
  also have "data = ?us2 @ ?rest" by (simp add: data_def)
  also have "parse_ranges (?us2 @ ?rest) (length ?us2) (acc @ expand_range r) (t + (unat c + 1)) =
      Inr ((acc @ expand_range r) @ concat (map expand_range rs))"
    using Cons.prems r by (intro Cons.IH) simp_all
  finally show ?case by (simp add: data_def)
qed

text \<open>C37. Metadata survives its serialization: an ascending list of at most 100000 ids of 32 bits
  under a name of at most 20 bytes is parsed back unchanged.\<close>

theorem ParseMetadata_Serialize:
  assumes "length (mdName m) \<le> 20" "metadata_inv m" "\<forall>w \<in> wallet_set m. unat w < 2 ^ 32"
    and "length (wallets m) \<le> 100000"
  shows "ParseMetadata (Serialize_metadata m) = Inr m"
proof -
  obtain n where n: "n = length (mdName m)" "n \<le> 20" using assms(1) by simp
  have hdr: "drop_bit 5 (0x20 OR of_nat n :: byte) = 1 \<and> unat ((0x20 OR of_nat n :: byte) AND 0x1F) = n" if "n \<le> 20" for n
  proof -
    have "\<forall>n \<in> set [0..<21]. drop_bit 5 (0x20 OR of_nat n :: byte) = 1 \<and> unat ((0x20 OR of_nat n :: byte) AND 0x1F) = n"
      by code_simp
    then show ?thesis using that by simp
  qed
  define body where "body = (case wallets m of [] \<Rightarrow> [] | w # ws \<Rightarrow> concat (map range_bytes (ranges_from w 0 ws)))"
  have data: "Serialize_metadata m = (0x20 OR of_nat n) # mdName m @ body"
    by (simp add: Serialize_metadata_def body_def n range_bytes_def split: list.split)
  have "parse_ranges (((0x20 OR of_nat n) # mdName m) @ body) (length ((0x20 OR of_nat n) # mdName m)) [] 0 = Inr (wallets m)"
  proof (cases "wallets m")
    case Nil
    then show ?thesis by (subst parse_ranges.simps) (simp add: body_def)
  next
    case (Cons w ws)
    have r: "concat (map expand_range (ranges_from w 0 ws)) = wallets m"
      "\<forall>(s, c) \<in> set (ranges_from w 0 ws). s \<in> set (wallets m)"
      "(\<Sum>(s, c) \<leftarrow> ranges_from w 0 ws. unat c + 1) \<le> 100000"
      using ranges_from_expand [of 0 ws 100000 w] Cons assms(4) by (auto simp: expand_range_def)
    then have "\<forall>(s, c) \<in> set (ranges_from w 0 ws). unat s < 2 ^ 32"
      using assms(3) by (auto simp: wallet_set_def)
    then show ?thesis
      using parse_ranges_bytes [of "ranges_from w 0 ws" 0 "(0x20 OR of_nat n) # mdName m" "[]"] r Cons
      by (simp add: body_def)
  qed
  then show ?thesis using hdr [OF n(2)] n
    by (simp add: ParseMetadata_def data Let_def gslice_def)
qed

theorem ParseMetadata_Serialize_witness:
  "ParseMetadata (Serialize_metadata \<lparr>mdName = [65], wallets = [1, 2, 3, 9]\<rparr>) = Inr \<lparr>mdName = [65], wallets = [1, 2, 3, 9]\<rparr>"
  by (rule ParseMetadata_Serialize) (simp_all add: metadata_inv_def wallet_set_def)

lemma parse_ranges_bounded:
  "parse_ranges data off ws t = Inr ws' \<Longrightarrow> length ws = t \<Longrightarrow> t \<le> 100000 \<Longrightarrow> length ws' \<le> 100000"
proof (induction data off ws t rule: parse_ranges.induct)
  case (1 data off ws t)
  show ?case
  proof (cases "off < length data")
    case True
    then obtain start off1 count off2 where d: "decode_ber_length data off = Inr (start, off1)"
      "decode_ber_length data off1 = Inr (count, off2)"
      "\<not> MaxWalletRangeCount < unat count" "\<not> MaxTotalWallets < t + (unat count + 1)"
      and rest: "parse_ranges data off2 (ws @ map (\<lambda>i. ucast start + of_nat i) [0..<unat count + 1])
          (t + (unat count + 1)) = Inr ws'"
      using 1(2) by (subst (asm) parse_ranges.simps) (auto split: sum.splits prod.splits if_splits)
    from 1(1) [OF True d(1) refl d(2) refl d(3,4) rest] 1(3) d(4) show ?thesis
      by (simp add: MaxTotalWallets_def)
  next
    case False
    then show ?thesis using 1(2-4) by (subst (asm) parse_ranges.simps) simp
  qed
qed

text \<open>Whatever bytes the card returns, a successful \<open>ParseMetadata\<close> holds at most 100000
  wallet ids and a name of at most 31 bytes: a few bytes cannot make it allocate more.\<close>

theorem ParseMetadata_bounded:
  "case ParseMetadata data of
     Inl _ \<Rightarrow> True
   | Inr m \<Rightarrow> length (wallets m) \<le> 100000 \<and> length (mdName m) \<le> 31"
proof (cases "ParseMetadata data")
  case (Inr m)
  have nl: "unat (h AND 0x1F :: byte) \<le> 31" for h
    using word_and_le1 [of h "0x1F"] by (simp add: word_le_nat_alt)
  from Inr obtain ws where "parse_ranges data (1 + unat (data ! 0 AND 0x1F)) [] 0 = Inr ws" "wallets m = ws"
      "mdName m = gslice 1 (1 + unat (data ! 0 AND 0x1F)) data"
    by (auto simp: ParseMetadata_def Let_def returns_iff split: if_splits)
  then show ?thesis using Inr parse_ranges_bounded [of data _ "[]" 0 ws] nl [of "data ! 0"] by auto
qed (auto simp: ParseMetadata_def)

text \<open>An id of more than 32 bits, which \<open>AddWallet\<close> takes, is cut to its low half.\<close>

lemma Serialize_cuts_wide_ids:
  "ParseMetadata (Serialize_metadata (AddWallet 0x100000005 EmptyMetadata)) = Inr \<lparr>mdName = [], wallets = [5]\<rparr>"
proof -
  have "Serialize_metadata (AddWallet 0x100000005 EmptyMetadata) = [0x20, 5, 0]"
    by (simp add: AddWallet_def EmptyMetadata_def sortInsertPos_def search_loop.simps Serialize_metadata_def
        encode_ber_length_def)
  moreover have "parse_ranges [0x20, 5, 0] 1 [] 0 = Inr [5]"
    by (simp add: parse_ranges.simps decode_ber_length_def Let_def MaxWalletRangeCount_def MaxTotalWallets_def)
  ultimately show ?thesis by (simp add: ParseMetadata_def Let_def gslice_def)
qed

end
