(* ===== verification/Primitives.thy ===== *)
theory Primitives
  imports Codec
begin

text \<open>
  The cryptographic primitives the repository calls and does not implement, as the fields of
  one record that the model's definitions take as an argument: block ciphers, hashes and key
  derivation of Go's standard library and \<open>golang.org/x/crypto\<close>, and the secp256k1
  operations of go-ethereum and decred. Nothing is assumed of them except through the named
  predicates below, each a documented fact of the library. The modes of \<open>crypto/cipher\<close>
  (CBC, CTR) are defined on top of a block function.
\<close>

section \<open>The primitives\<close>

record ('sk, 'pk) prims =
  aesE :: "bytes \<Rightarrow> bytes \<Rightarrow> bytes"       \<comment> \<open>key, 16-byte block\<close>
  aesD :: "bytes \<Rightarrow> bytes \<Rightarrow> bytes"
  desE :: "bytes \<Rightarrow> bytes \<Rightarrow> bytes"       \<comment> \<open>8-byte key, 8-byte block\<close>
  des3E :: "bytes \<Rightarrow> bytes \<Rightarrow> bytes"      \<comment> \<open>24-byte key, 8-byte block\<close>
  sha256 :: "bytes \<Rightarrow> bytes"
  sha512 :: "bytes \<Rightarrow> bytes"
  keccak256 :: "bytes \<Rightarrow> bytes"
  hmac_sha512 :: "bytes \<Rightarrow> bytes \<Rightarrow> bytes"              \<comment> \<open>key, message\<close>
  pbkdf2_sha256 :: "bytes \<Rightarrow> bytes \<Rightarrow> nat \<Rightarrow> nat \<Rightarrow> bytes"  \<comment> \<open>password, salt, iterations, length\<close>
  pbkdf2_sha512 :: "bytes \<Rightarrow> bytes \<Rightarrow> nat \<Rightarrow> nat \<Rightarrow> bytes"
  hkdf_sha256 :: "bytes \<Rightarrow> bytes \<Rightarrow> bytes \<Rightarrow> nat \<Rightarrow> bytes res"  \<comment> \<open>secret, salt, info, length\<close>
  nfkd :: "bytes \<Rightarrow> bytes"
  ec_unmarshal :: "bytes \<Rightarrow> 'pk res"        \<comment> \<open>UnmarshalPubkey\<close>
  ec_marshal :: "'pk \<Rightarrow> bytes"              \<comment> \<open>FromECDSAPub, 65 bytes\<close>
  ec_decompress :: "bytes \<Rightarrow> 'pk res"       \<comment> \<open>DecompressPubkey\<close>
  ec_compress :: "'pk \<Rightarrow> bytes"             \<comment> \<open>CompressPubkey, SerializeCompressed, 33 bytes\<close>
  ec_parse :: "bytes \<Rightarrow> 'pk res"            \<comment> \<open>secp256k1.ParsePubKey, 33 or 65 bytes\<close>
  ec_public :: "'sk \<Rightarrow> 'pk"
  ec_private :: "bytes \<Rightarrow> 'sk"              \<comment> \<open>PrivKeyFromBytes\<close>
  ec_serialize :: "'sk \<Rightarrow> bytes"            \<comment> \<open>32 bytes\<close>
  ec_to_ecdsa :: "bytes \<Rightarrow> 'sk res"         \<comment> \<open>HexToECDSA of the hex digits\<close>
  ec_mult_x :: "'sk \<Rightarrow> 'pk \<Rightarrow> nat"          \<comment> \<open>x-coordinate of the product\<close>
  ecrecover :: "bytes \<Rightarrow> bytes \<Rightarrow> bytes res"   \<comment> \<open>hash, r || s || v\<close>
  recover_compact :: "bytes \<Rightarrow> bytes \<Rightarrow> 'pk res" \<comment> \<open>compact signature, hash\<close>
  ec_sign_der :: "'sk \<Rightarrow> bytes \<Rightarrow> bytes"
  ec_verify :: "bytes \<Rightarrow> bytes \<Rightarrow> bytes \<Rightarrow> 'pk \<Rightarrow> bool"  \<comment> \<open>r, s, hash, key\<close>
  ec_verify_der :: "bytes \<Rightarrow> (bytes \<Rightarrow> 'pk \<Rightarrow> bool) res"

text \<open>AES maps 16-byte blocks to 16-byte blocks and decryption inverts encryption.\<close>

definition aes_ok :: "('sk, 'pk) prims \<Rightarrow> bool" where
  "aes_ok P \<longleftrightarrow> (\<forall>k b. length b = 16 \<longrightarrow>
     length (aesE P k b) = 16 \<and> length (aesD P k b) = 16 \<and> aesD P k (aesE P k b) = b)"

text \<open>The digest sizes.\<close>

definition hashes_ok :: "('sk, 'pk) prims \<Rightarrow> bool" where
  "hashes_ok P \<longleftrightarrow> (\<forall>m. length (sha256 P m) = 32) \<and> (\<forall>m. length (sha512 P m) = 64)"

lemma aes_okD:
  "aes_ok P \<Longrightarrow> length b = 16 \<Longrightarrow> length (aesE P k b) = 16"
  "aes_ok P \<Longrightarrow> length b = 16 \<Longrightarrow> length (aesD P k b) = 16"
  "aes_ok P \<Longrightarrow> length b = 16 \<Longrightarrow> aesD P k (aesE P k b) = b"
  by (auto simp: aes_ok_def)

text \<open>A concrete instance, for witnesses: ciphers that add the key's first byte, digests that
  pad with zeros, a one-element key space.\<close>

definition toy_prims :: "(unit, unit) prims" where
  "toy_prims =
     \<lparr>aesE = (\<lambda>k b. map (\<lambda>x. x + (case k of [] \<Rightarrow> 1 | c # _ \<Rightarrow> c + 1)) b),
      aesD = (\<lambda>k b. map (\<lambda>x. x - (case k of [] \<Rightarrow> 1 | c # _ \<Rightarrow> c + 1)) b),
      desE = (\<lambda>k b. map (\<lambda>x. x + 1) b), des3E = (\<lambda>k b. map (\<lambda>x. x + 3) b),
      sha256 = (\<lambda>m. take 32 (m @ replicate 32 0)), sha512 = (\<lambda>m. take 64 (m @ replicate 64 0)),
      keccak256 = (\<lambda>m. take 32 (m @ replicate 32 0)),
      hmac_sha512 = (\<lambda>k m. take 64 (m @ replicate 64 0)),
      pbkdf2_sha256 = (\<lambda>p s i n. take n (p @ replicate n 0)),
      pbkdf2_sha512 = (\<lambda>p s i n. take n (p @ replicate n 0)),
      hkdf_sha256 = (\<lambda>ikm s info n. Inr (take n (ikm @ replicate n 0))),
      nfkd = (\<lambda>m. m),
      ec_unmarshal = (\<lambda>b. if length b = 65 then Inr () else Inl (External ''invalid public key'')),
      ec_marshal = (\<lambda>_. replicate 65 4),
      ec_decompress = (\<lambda>b. if length b = 33 then Inr () else Inl (External ''invalid public key'')),
      ec_compress = (\<lambda>_. replicate 33 2),
      ec_parse = (\<lambda>b. if length b \<in> {33, 65} then Inr () else Inl (External ''invalid public key'')),
      ec_public = (\<lambda>_. ()), ec_private = (\<lambda>_. ()),
      ec_serialize = (\<lambda>_. replicate 32 5),
      ec_to_ecdsa = (\<lambda>b. if length b = 32 then Inr () else Inl (External ''invalid length'')),
      ec_mult_x = (\<lambda>_ _. 9),
      ecrecover = (\<lambda>h sig. if length h = 32 \<and> length sig = 65 then Inr (replicate 65 4)
                           else Inl (External ''invalid signature'')),
      recover_compact = (\<lambda>sig h. Inr ()),
      ec_sign_der = (\<lambda>_ _. [0x30, 6, 2, 1, 1, 2, 1, 1]),
      ec_verify = (\<lambda>_ _ _ _. True), ec_verify_der = (\<lambda>_. Inr (\<lambda>_ _. True))\<rparr>"

lemma toy_prims_ok [simp]: "aes_ok toy_prims" "hashes_ok toy_prims"
  by (auto simp: aes_ok_def hashes_ok_def toy_prims_def comp_def)

section \<open>Modes of operation\<close>

definition xor_bytes :: "bytes \<Rightarrow> bytes \<Rightarrow> bytes" where
  "xor_bytes as bs = map2 (XOR) as bs"

lemma length_xor_bytes [simp]: "length (xor_bytes as bs) = min (length as) (length bs)"
  by (simp add: xor_bytes_def)

lemma xor_bytes_self: "length as \<le> length bs \<Longrightarrow> xor_bytes (xor_bytes as bs) bs = as"
  by (auto simp: xor_bytes_def list_eq_iff_nth_eq xor.assoc)

lemma xor_bytes_self2: "length bs \<le> length as \<Longrightarrow> xor_bytes as (xor_bytes as bs) = bs"
  by (auto simp: xor_bytes_def list_eq_iff_nth_eq simp flip: xor.assoc)

lemma xor_bytes_Nil [simp]: "xor_bytes [] bs = []" "xor_bytes as [] = []"
  by (simp_all add: xor_bytes_def)

lemma xor_bytes_commute: "xor_bytes as bs = xor_bytes bs as"
  by (auto simp: xor_bytes_def list_eq_iff_nth_eq xor.commute)

text \<open>
  \<open>CryptBlocks\<close> of \<open>NewCBCEncrypter\<close> and \<open>NewCBCDecrypter\<close> for a block size \<open>n\<close>. Go panics
  on a length that is no multiple of it; every call in the repository pads or checks first.
\<close>

function cbc_encrypt :: "(bytes \<Rightarrow> bytes) \<Rightarrow> nat \<Rightarrow> bytes \<Rightarrow> bytes \<Rightarrow> bytes" where
  "cbc_encrypt E n iv data =
     (if n = 0 \<or> length data < n then []
      else let c = E (xor_bytes iv (take n data)) in c @ cbc_encrypt E n c (drop n data))"
  by pat_completeness auto
termination
  by (relation "measure (\<lambda>(E, n, iv, data). length data)") auto

function cbc_decrypt :: "(bytes \<Rightarrow> bytes) \<Rightarrow> nat \<Rightarrow> bytes \<Rightarrow> bytes \<Rightarrow> bytes" where
  "cbc_decrypt D n iv data =
     (if n = 0 \<or> length data < n then []
      else xor_bytes (D (take n data)) iv @ cbc_decrypt D n (take n data) (drop n data))"
  by pat_completeness auto
termination
  by (relation "measure (\<lambda>(D, n, iv, data). length data)") auto

declare cbc_encrypt.simps [simp del] cbc_decrypt.simps [simp del]

text \<open>\<open>NewCTR\<close>: the counter block is a 128-bit big-endian number, incremented per block.\<close>

definition inc_block :: "bytes \<Rightarrow> bytes" where
  "inc_block b = be_bytes (length b) (be_nat b + 1)"

function ctr_xor :: "(bytes \<Rightarrow> bytes) \<Rightarrow> nat \<Rightarrow> bytes \<Rightarrow> bytes \<Rightarrow> bytes" where
  "ctr_xor E n ctr data =
     (if n = 0 \<or> data = [] then []
      else xor_bytes (take n data) (E ctr) @ ctr_xor E n (inc_block ctr) (drop n data))"
  by pat_completeness auto
termination
  by (relation "measure (\<lambda>(E, n, ctr, data). length data)") auto

declare ctr_xor.simps [simp del]

lemma modes_Nil [simp]:
  "cbc_encrypt E n iv [] = []" "cbc_decrypt D n iv [] = []" "ctr_xor E n ctr [] = []"
  by (subst cbc_encrypt.simps cbc_decrypt.simps ctr_xor.simps; cases "n = 0"; simp)+

lemma length_inc_block [simp]: "length (inc_block b) = length b"
  by (simp add: inc_block_def)

lemma cbc_block_induct [case_names short block]:
  assumes "\<And>iv data. length data < n \<Longrightarrow> Q iv data"
    and "\<And>iv data. n \<le> length data \<Longrightarrow> (\<And>iv'. Q iv' (drop n data)) \<Longrightarrow> Q iv data"
    and "0 < n"
  shows "Q iv data"
proof (induction "length data" arbitrary: iv data rule: less_induct)
  case less
  show ?case
  proof (cases "length data < n")
    case True
    then show ?thesis by (rule assms(1))
  next
    case False
    then have "length (drop n data) < length data" using assms(3) by simp
    then have "\<And>iv'. Q iv' (drop n data)" using less.hyps by blast
    moreover have "n \<le> length data" using False by simp
    ultimately show ?thesis using assms(2) by blast
  qed
qed

lemma length_cbc_encrypt:
  assumes "0 < n" and E: "\<And>b. length b = n \<Longrightarrow> length (E b) = n"
  shows "length iv = n \<Longrightarrow> n dvd length data \<Longrightarrow> length (cbc_encrypt E n iv data) = length data"
proof (induction iv data rule: cbc_block_induct [of n])
  case (short iv data)
  then show ?case using \<open>0 < n\<close> by (auto simp: cbc_encrypt.simps [of E n iv data])
next
  case (block iv data)
  let ?c = "E (xor_bytes iv (take n data))"
  from block have c: "length ?c = n" by (intro E) simp
  from block have "n dvd length (drop n data)" by (simp add: dvd_minus_self)
  with block c have "length (cbc_encrypt E n ?c (drop n data)) = length data - n" by simp
  then show ?case using block c \<open>0 < n\<close>
    by (simp add: cbc_encrypt.simps [of E n iv data] Let_def)
qed (rule assms)

text \<open>CBC decryption inverts encryption whenever the block functions do.\<close>

lemma cbc_decrypt_encrypt:
  assumes "0 < n" and E: "\<And>b. length b = n \<Longrightarrow> length (E b) = n"
    and D: "\<And>b. length b = n \<Longrightarrow> D (E b) = b"
  shows "length iv = n \<Longrightarrow> n dvd length data \<Longrightarrow> cbc_decrypt D n iv (cbc_encrypt E n iv data) = data"
proof (induction iv data rule: cbc_block_induct [of n])
  case (short iv data)
  then have "data = []" using dvd_imp_le [of n "length data"] by auto
  then show ?case by simp
next
  case (block iv data)
  let ?x = "xor_bytes iv (take n data)"
  from block have x: "length ?x = n" by simp
  then have c: "length (E ?x) = n" by (rule E)
  from block have "n dvd length (drop n data)" by (simp add: dvd_minus_self)
  with block c have IH: "cbc_decrypt D n (E ?x) (cbc_encrypt E n (E ?x) (drop n data)) = drop n data"
    by simp
  have "xor_bytes ?x iv = take n data"
    using block xor_bytes_self [of "take n data" iv] by (simp add: xor_bytes_commute)
  then show ?case using block c x \<open>0 < n\<close> IH D [OF x]
    by (simp add: cbc_encrypt.simps [of E n iv data] Let_def
        cbc_decrypt.simps [of D n iv "E ?x @ cbc_encrypt E n (E ?x) (drop n data)"])
qed (rule assms)

lemma length_ctr_xor:
  assumes "0 < n" and E: "\<And>b. length b = n \<Longrightarrow> length (E b) = n"
  shows "length ctr = n \<Longrightarrow> length (ctr_xor E n ctr data) = length data"
proof (induction "length data" arbitrary: ctr data rule: less_induct)
  case less
  show ?case
  proof (cases "data = []")
    case False
    then have "length (ctr_xor E n (inc_block ctr) (drop n data)) = length data - n"
      using less \<open>0 < n\<close> by (subst less(1)) auto
    then show ?thesis using False \<open>0 < n\<close> E [OF less(2)]
      by (simp add: ctr_xor.simps [of E n ctr data] min_def)
  qed simp
qed

text \<open>The CTR stream does not depend on the data: applying it twice cancels.\<close>

lemma ctr_xor_twice:
  assumes "0 < n" and E: "\<And>b. length b = n \<Longrightarrow> length (E b) = n"
  shows "length ctr = n \<Longrightarrow> ctr_xor E n ctr (ctr_xor E n ctr data) = data"
proof (induction "length data" arbitrary: ctr data rule: less_induct)
  case less
  show ?case
  proof (cases "data = []")
    case False
    let ?h = "xor_bytes (take n data) (E ctr)" and ?t = "ctr_xor E n (inc_block ctr) (drop n data)"
    have "length (drop n data) < length data" using False \<open>0 < n\<close> by simp
    then have IH: "ctr_xor E n (inc_block ctr) ?t = drop n data" using less by simp
    have eq: "ctr_xor E n ctr data = ?h @ ?t" using False \<open>0 < n\<close> by (simp add: ctr_xor.simps [of E n ctr data])
    have lh: "length ?h = min n (length data)" using E [OF less(2)] by simp
    have tnil: "?t = []" if "length data \<le> n" using that by simp
    have split: "take n (?h @ ?t) = ?h \<and> drop n (?h @ ?t) = ?t"
    proof (cases "length data \<le> n")
      case True
      then show ?thesis using lh tnil by (simp del: length_xor_bytes)
    next
      case False
      then have "length ?h = n" using lh by (simp del: length_xor_bytes)
      then show ?thesis by (simp del: length_xor_bytes)
    qed
    have "?h @ ?t \<noteq> []" using False \<open>0 < n\<close> lh by (metis Nil_is_append_conv length_0_conv length_greater_0_conv min_def not_gr_zero)
    then have "ctr_xor E n ctr (?h @ ?t) = xor_bytes ?h (E ctr) @ ctr_xor E n (inc_block ctr) ?t"
      using \<open>0 < n\<close> split by (simp only: ctr_xor.simps [of E n ctr "?h @ ?t"]) simp
    then show ?thesis using E [OF less(2)] by (simp add: eq IH xor_bytes_self)
  qed simp
qed

end
