(* ===== verification/Signature.thy ===== *)
theory Signature
  imports Tlv Primitives
begin

text \<open>
  \<open>types/signature.go\<close> and \<open>types/ethereum.go\<close>: the signature formats the card answers with,
  the search for the recovery id, public key recovery and the Ethereum address.
\<close>

section \<open>Data\<close>

definition TagRawSignature :: byte where [simp]: "TagRawSignature = 0x80"

definition TagSchnorrSignature :: byte where [simp]: "TagSchnorrSignature = 0x88"

record Signature =
  sigPubKey :: bytes
  sigR :: bytes
  sigS :: bytes
  sigV :: byte

text \<open>A parser that creates a reader on \<open>data\<close> and returns.\<close>

definition run_reader :: "'a reader \<Rightarrow> bytes \<Rightarrow> 'a res" where
  "run_reader m data = fst (m (NewBerTlvReader data))"

definition opt_bytes :: "bytes option \<Rightarrow> bytes" where
  "opt_bytes v = (case v of None \<Rightarrow> [] | Some bs \<Rightarrow> bs)"

lemma opt_bytes_simps [simp]: "opt_bytes None = []" "opt_bytes (Some bs) = bs"
  by (simp_all add: opt_bytes_def)

section \<open>Parsing\<close>

definition ParseRecoverableSignature :: "('sk, 'pk) prims \<Rightarrow> bytes \<Rightarrow> bytes \<Rightarrow> Signature res" where
  "ParseRecoverableSignature P message sig =
     (if length sig \<noteq> 65 then Inl (Msg ''invalid signature'')
      else bindE (ecrecover P message sig) (\<lambda>pubKey.
        Inr \<lparr>sigPubKey = pubKey, sigR = gslice 0 32 sig, sigS = gslice 32 64 sig, sigV = sig ! 64\<rparr>))"

definition last32 :: "bytes \<Rightarrow> bytes" where
  "last32 v = (if 32 < length v then drop (length v - 32) v else v)"

definition DERSignatureToRS :: "bytes \<Rightarrow> (bytes \<times> bytes) res" where
  "DERSignatureToRS tlvData = run_reader (readS (\<lambda>r.
     if NextTagIs TLV_ECDSA_TEMPLATE r then
       bindS (ReadPrimitive TLV_ECDSA_TEMPLATE) (\<lambda>seqData.
       liftS (run_reader
         (bindS (ReadPrimitive TLV_INT) (\<lambda>rVal.
          bindS (ReadPrimitive TLV_INT) (\<lambda>sVal.
          returnS (last32 rVal, last32 sVal)))) seqData))
     else
       bindS (ReadPrimitiveIfPresent TagSchnorrSignature) (\<lambda>schnorr.
         let schnorr = opt_bytes schnorr in
         if length schnorr = 0 then failS (Msg ''no ECDSA or Schnorr signature found'')
         else if length schnorr \<noteq> 64 then failS (Msg ''schnorr signature must be 64 bytes'')
         else returnS (gslice 0 32 schnorr, gslice 32 64 schnorr)))) tlvData"

definition compressPublicKey :: "bytes \<Rightarrow> bytes res" where
  "compressPublicKey pubKey =
     (if length pubKey = 33 then Inr pubKey
      else if length pubKey \<le> 64 then Inl (Panic ''index out of range'')
      else Inr (take 33 (pubKey[0 := if pubKey ! 64 AND 1 = 1 then 3 else 2])))"

text \<open>One recovery in the form the card gave its key in.\<close>

definition recovered_key :: "('sk, 'pk) prims \<Rightarrow> bytes \<Rightarrow> bytes \<Rightarrow> bytes \<Rightarrow> nat \<Rightarrow> bytes res" where
  "recovered_key P message pubKey rs i =
     bindE (ecrecover P message (rs @ [of_nat i]))
       (\<lambda>rec. if length pubKey = 33 then compressPublicKey rec else Inr rec)"

text \<open>The loop over the recovery ids \<open>i .. 3\<close>; behind it \<open>v\<close> is 3 and the outer \<open>err\<close> nil.\<close>

function calculateV_from :: "('sk, 'pk) prims \<Rightarrow> bytes \<Rightarrow> bytes \<Rightarrow> bytes \<Rightarrow> nat \<Rightarrow> byte res" where
  "calculateV_from P message pubKey rs i =
     (if i < 4 then
        bindE (recovered_key P message pubKey rs i) (\<lambda>rec.
        if pubKey = rec then Inr (of_nat i) else calculateV_from P message pubKey rs (i + 1))
      else Inr 3)"
  by pat_completeness auto
termination
  by (relation "measure (\<lambda>(P, m, pk, rs, i). 4 - i)") auto

declare calculateV_from.simps [simp del]

definition calculateV :: "('sk, 'pk) prims \<Rightarrow> bytes \<Rightarrow> bytes \<Rightarrow> bytes \<Rightarrow> bytes \<Rightarrow> byte res" where
  "calculateV P message pubKey r s = calculateV_from P message pubKey (r @ s) 0"

definition parseLegacySignature :: "('sk, 'pk) prims \<Rightarrow> bytes \<Rightarrow> bytes \<Rightarrow> Signature res" where
  "parseLegacySignature P message template = run_reader
     (bindS (ReadPrimitive TLV_PUB_KEY) (\<lambda>pubKey. readS (\<lambda>r.
      bindS (liftS (DERSignatureToRS (PeekUnread r))) (\<lambda>(rVal, sVal).
      let isSchnorr = NextTagIs TagSchnorrSignature r in
      bindS (liftS (if \<not> isSchnorr then calculateV P message pubKey rVal sVal else Inr 0)) (\<lambda>v.
      returnS \<lparr>sigPubKey = pubKey, sigR = rVal, sigS = sVal, sigV = v\<rparr>))))) template"

definition ParseSignature :: "('sk, 'pk) prims \<Rightarrow> bytes \<Rightarrow> bytes \<Rightarrow> Signature res" where
  "ParseSignature P message resp = run_reader (readS (\<lambda>r.
     if NextTagIs TLV_SIGNATURE_TEMPLATE r then
       bindS (ReadPrimitive TLV_SIGNATURE_TEMPLATE) (\<lambda>template.
       liftS (parseLegacySignature P message template))
     else
       bindS (ReadPrimitiveIfPresent TagRawSignature) (\<lambda>sig.
       if 0 < length (opt_bytes sig) then liftS (ParseRecoverableSignature P message (opt_bytes sig))
       else failS (Msg ''no signature found in response'')))) resp"

definition RecoverPublicKey ::
  "('sk, 'pk) prims \<Rightarrow> int \<Rightarrow> bytes \<Rightarrow> bytes \<Rightarrow> bytes \<Rightarrow> bool \<Rightarrow> bytes res" where
  "RecoverPublicKey P recID hash r s compressed =
     (if recID < 0 \<or> 3 < recID then Inl (Msg ''recID must be 0..=3'')
      else if length hash \<noteq> 32 \<or> length r \<noteq> 32 \<or> length s \<noteq> 32
        then Inl (Msg ''hash, r, and s must each be 32 bytes'')
      else
        let recoveryCode = (of_int (27 + recID) :: byte);
            recoveryCode = (if compressed then recoveryCode + 4 else recoveryCode);
            compactSig = recoveryCode # r @ s
        in bindE (recover_compact P compactSig hash) (\<lambda>pubKey.
             Inr (if compressed then ec_compress P pubKey else ec_marshal P pubKey)))"

definition ToEthereumAddress :: "('sk, 'pk) prims \<Rightarrow> bytes \<Rightarrow> bytes" where
  "ToEthereumAddress P publicKey =
     (if length publicKey < 2 then replicate 20 0
      else gcopy 20 (drop 12 (keccak256 P (drop 1 publicKey))))"

definition EthereumAddress :: "('sk, 'pk) prims \<Rightarrow> Signature \<Rightarrow> bytes" where
  "EthereumAddress P s = ToEthereumAddress P (sigPubKey s)"

section \<open>The recovery id\<close>

text \<open>What a recovery id is for a public key: recovery gives the key, compressed like it.\<close>

definition recovers :: "('sk, 'pk) prims \<Rightarrow> bytes \<Rightarrow> bytes \<Rightarrow> bytes \<Rightarrow> nat \<Rightarrow> bool" where
  "recovers P message pubKey rs i \<longleftrightarrow> recovered_key P message pubKey rs i = Inr pubKey"

lemma calculateV_from_Inr:
  "calculateV_from P m pk rs i = Inr v \<Longrightarrow> i \<le> 4 \<Longrightarrow>
   (\<exists>k. i \<le> k \<and> k < 4 \<and> v = of_nat k \<and> recovers P m pk rs k \<and> (\<forall>j. i \<le> j \<and> j < k \<longrightarrow> \<not> recovers P m pk rs j))
   \<or> (v = 3 \<and> (\<forall>j. i \<le> j \<and> j < 4 \<longrightarrow> \<not> recovers P m pk rs j))"
proof (induction P m pk rs i rule: calculateV_from.induct)
  case (1 P m pk rs i)
  show ?case
  proof (cases "i < 4 \<and> \<not> recovers P m pk rs i")
    case True
    then obtain rec where r: "recovered_key P m pk rs i = Inr rec" "pk \<noteq> rec"
        and rest: "calculateV_from P m pk rs (i + 1) = Inr v"
      using 1(2) by (subst (asm) calculateV_from.simps)
        (auto simp: returns_iff recovers_def split: if_splits)
    have step: "i \<le> j \<longleftrightarrow> j = i \<or> i + 1 \<le> j" for j by auto
    from 1(1) [OF _ r(2) rest] True show ?thesis unfolding step by fastforce
  next
    case False
    show ?thesis
    proof (cases "i < 4")
      case True
      with False have "calculateV_from P m pk rs i = Inr (of_nat i)"
        by (subst calculateV_from.simps) (auto simp: returns_iff recovers_def)
      with 1(2) True False show ?thesis by auto
    next
      case False
      with 1(2) have "v = 3" by (subst (asm) calculateV_from.simps) simp
      then show ?thesis using False by auto
    qed
  qed
qed

text \<open>When \<open>calculateV\<close> returns, the recovery id is the least one that recovers the card's
  public key; or none of the four does, and then it still returns 3 and no error.\<close>

theorem calculateV_least_or_three:
  assumes "calculateV P message pubKey r s = Inr v"
  shows "(\<exists>k < 4. v = of_nat k \<and> recovers P message pubKey (r @ s) k
            \<and> (\<forall>j < k. \<not> recovers P message pubKey (r @ s) j))
       \<or> (v = 3 \<and> (\<forall>j < 4. \<not> recovers P message pubKey (r @ s) j))"
  using calculateV_from_Inr [of P message pubKey "r @ s" 0 v] assms by (auto simp: calculateV_def)

theorem calculateV_least_or_three_witness:
  "(\<exists>k < 4. (0 :: byte) = of_nat k \<and> recovers toy_prims (replicate 32 0) (replicate 65 4) (replicate 32 1 @ replicate 32 2) k
      \<and> (\<forall>j < k. \<not> recovers toy_prims (replicate 32 0) (replicate 65 4) (replicate 32 1 @ replicate 32 2) j))
   \<or> ((0 :: byte) = 3 \<and> (\<forall>j < 4. \<not> recovers toy_prims (replicate 32 0) (replicate 65 4) (replicate 32 1 @ replicate 32 2) j))"
proof (rule calculateV_least_or_three)
  show "calculateV toy_prims (replicate 32 0) (replicate 65 4) (replicate 32 1) (replicate 32 2) = Inr 0"
    unfolding calculateV_def by (subst calculateV_from.simps) (simp add: recovered_key_def toy_prims_def)
qed

end
