(* ===== verification/Go_Strings.thy ===== *)
theory Go_Strings
  imports Codec
begin

text \<open>
  What the repository uses of Go's \<open>strings\<close> and \<open>strconv\<close>, on byte strings: decimal
  formatting and parsing, splitting, joining and trimming. A Go string is its bytes, so a
  \<open>char\<close> here is one byte.
\<close>

section \<open>Decimal numbers\<close>

text \<open>\<open>strconv.FormatUint(n, 10)\<close> and the verb \<open>%d\<close>.\<close>

fun format_uint :: "nat \<Rightarrow> string" where
  "format_uint n =
     (if n < 10 then [char_of (48 + n)] else format_uint (n div 10) @ [char_of (48 + n mod 10)])"

declare format_uint.simps [simp del]

definition digit_value :: "char \<Rightarrow> nat option" where
  "digit_value c =
     (let n = of_char c in if 48 \<le> n \<and> n \<le> (57 :: nat) then Some (n - 48) else None)"

text \<open>\<open>strconv.ParseUint(s, 10, bits)\<close>; the first offending byte decides the error.\<close>

fun parse_uint_loop :: "nat \<Rightarrow> nat \<Rightarrow> string \<Rightarrow> nat res" where
  "parse_uint_loop maxVal n [] = Inr n"
| "parse_uint_loop maxVal n (c # cs) =
     (case digit_value c of
        None \<Rightarrow> Inl (Msg ''invalid syntax'')
      | Some d \<Rightarrow>
          if maxVal < n * 10 + d then Inl (Msg ''value out of range'')
          else parse_uint_loop maxVal (n * 10 + d) cs)"

definition parse_uint :: "nat \<Rightarrow> string \<Rightarrow> nat res" where
  "parse_uint bits s =
     (if s = [] then Inl (Msg ''invalid syntax'') else parse_uint_loop (2 ^ bits - 1) 0 s)"

definition digits :: "string \<Rightarrow> bool" where
  "digits s \<longleftrightarrow> (\<forall>c \<in> set s. digit_value c \<noteq> None)"

lemma digits_simps [simp]:
  "digits []" "digits (c # cs) \<longleftrightarrow> digit_value c \<noteq> None \<and> digits cs"
  "digits (s @ t) \<longleftrightarrow> digits s \<and> digits t"
  by (auto simp: digits_def)

lemma digit_value_char_of [simp]: "d < 10 \<Longrightarrow> digit_value (char_of (48 + d)) = Some d"
  by (simp add: digit_value_def Let_def)

lemma digits_format_uint [simp]: "digits (format_uint n)"
  by (induction n rule: format_uint.induct) (subst format_uint.simps, simp)

lemma format_uint_nonempty [simp]: "format_uint n \<noteq> []"
  by (subst format_uint.simps) simp

lemma digit_chars:
  "digit_value c = Some d \<Longrightarrow> c \<noteq> CHR ''/'' \<and> c \<noteq> CHR 0x27 \<and> c \<noteq> CHR ''.'' \<and> c \<noteq> CHR ''m'' \<and> c \<noteq> CHR ''+'' \<and> c \<noteq> CHR ''-''"
  by (auto simp: digit_value_def Let_def split: if_splits)

lemma digits_not_in [simp]:
  "digits s \<Longrightarrow> CHR ''/'' \<notin> set s" "digits s \<Longrightarrow> CHR 0x27 \<notin> set s"
  by (auto simp: digits_def digit_value_def Let_def dest!: bspec)

lemma parse_uint_loop_append:
  "parse_uint_loop m n (s @ t) = bindE (parse_uint_loop m n s) (\<lambda>k. parse_uint_loop m k t)"
  by (induction m n s rule: parse_uint_loop.induct) (auto split: option.splits)

lemma parse_uint_loop_format:
  "k \<le> m \<Longrightarrow> parse_uint_loop m 0 (format_uint k) = Inr k"
proof (induction k rule: format_uint.induct)
  case (1 k)
  show ?case
  proof (cases "k < 10")
    case True
    with 1 show ?thesis by (subst format_uint.simps) simp
  next
    case False
    moreover from False 1 have "parse_uint_loop m 0 (format_uint (k div 10)) = Inr (k div 10)"
      by simp
    ultimately show ?thesis using 1(2)
      by (subst format_uint.simps) (simp add: parse_uint_loop_append)
  qed
qed

lemma parse_uint_format: "n < 2 ^ bits \<Longrightarrow> parse_uint bits (format_uint n) = Inr n"
  by (simp add: parse_uint_def parse_uint_loop_format)

lemma parse_uint_loop_le: "n \<le> m \<Longrightarrow> parse_uint_loop m n s = Inr k \<Longrightarrow> k \<le> m"
  by (induction m n s rule: parse_uint_loop.induct) (auto split: option.splits if_splits)

lemma parse_uint_lt: "parse_uint bits s = Inr k \<Longrightarrow> k < 2 ^ bits"
proof -
  assume "parse_uint bits s = Inr k"
  then have "k \<le> 2 ^ bits - 1"
    by (auto simp: parse_uint_def split: if_splits dest: parse_uint_loop_le [rotated])
  moreover have "(0 :: nat) < 2 ^ bits" by simp
  ultimately show ?thesis by linarith
qed

section \<open>Splitting, joining, trimming\<close>

text \<open>\<open>strings.Split(s, c)\<close> for a one-byte separator.\<close>

fun go_split :: "char \<Rightarrow> string \<Rightarrow> string list" where
  "go_split c [] = [[]]"
| "go_split c (x # xs) =
     (if x = c then [] # go_split c xs
      else case go_split c xs of [] \<Rightarrow> [[x]] | y # ys \<Rightarrow> (x # y) # ys)"

text \<open>\<open>strings.Join\<close>.\<close>

fun go_join :: "string \<Rightarrow> string list \<Rightarrow> string" where
  "go_join sep [] = []"
| "go_join sep [x] = x"
| "go_join sep (x # y # ys) = x @ sep @ go_join sep (y # ys)"

lemma go_split_nonempty [simp]: "go_split c s \<noteq> []"
  by (cases s) (auto split: list.splits)

lemma go_split_no_sep: "c \<notin> set s \<Longrightarrow> go_split c s = [s]"
  by (induction s) auto

lemma go_split_append: "c \<notin> set s \<Longrightarrow> go_split c (s @ c # t) = s # go_split c t"
  by (induction s) auto

lemma go_split_join:
  "xs \<noteq> [] \<Longrightarrow> \<forall>x \<in> set xs. c \<notin> set x \<Longrightarrow> go_split c (go_join [c] xs) = xs"
  by (induction "[c]" xs rule: go_join.induct) (auto simp: go_split_no_sep go_split_append)

lemma go_join_Cons: "xs \<noteq> [] \<Longrightarrow> go_join sep (x # xs) = x @ sep @ go_join sep xs"
  by (cases xs) auto

text \<open>\<open>strings.TrimSpace\<close>: the UTF-8 encodings of the code points of \<open>unicode.IsSpace\<close>.\<close>

definition go_spaces :: "string list" where
  "go_spaces =
     [[CHR 0x09], [CHR 0x0A], [CHR 0x0B], [CHR 0x0C], [CHR 0x0D], [CHR 0x20],
      [CHR 0xC2, CHR 0x85], [CHR 0xC2, CHR 0xA0], [CHR 0xE1, CHR 0x9A, CHR 0x80],
      [CHR 0xE2, CHR 0x80, CHR 0x80], [CHR 0xE2, CHR 0x80, CHR 0x81], [CHR 0xE2, CHR 0x80, CHR 0x82],
      [CHR 0xE2, CHR 0x80, CHR 0x83], [CHR 0xE2, CHR 0x80, CHR 0x84], [CHR 0xE2, CHR 0x80, CHR 0x85],
      [CHR 0xE2, CHR 0x80, CHR 0x86], [CHR 0xE2, CHR 0x80, CHR 0x87], [CHR 0xE2, CHR 0x80, CHR 0x88],
      [CHR 0xE2, CHR 0x80, CHR 0x89], [CHR 0xE2, CHR 0x80, CHR 0x8A], [CHR 0xE2, CHR 0x80, CHR 0xA8],
      [CHR 0xE2, CHR 0x80, CHR 0xA9], [CHR 0xE2, CHR 0x80, CHR 0xAF], [CHR 0xE2, CHR 0x81, CHR 0x9F],
      [CHR 0xE3, CHR 0x80, CHR 0x80]]"

function trim_prefixes :: "string list \<Rightarrow> string \<Rightarrow> string" where
  "trim_prefixes ps s =
     (case find (\<lambda>p. p \<noteq> [] \<and> take (length p) s = p) ps of
        None \<Rightarrow> s
      | Some p \<Rightarrow> trim_prefixes ps (drop (length p) s))"
  by pat_completeness auto
termination
proof (relation "measure (\<lambda>(ps, s). length s)")
  fix ps :: "string list" and s p
  assume "find (\<lambda>p. p \<noteq> [] \<and> take (length p) s = p) ps = Some p"
  then have "p \<noteq> []" "take (length p) s = p" by (auto simp: find_Some_iff)
  then have "s \<noteq> []" "0 < length p" by auto
  then show "((ps, drop (length p) s), ps, s) \<in> measure (\<lambda>(ps, s). length s)"
    by (cases s) auto
qed simp

declare trim_prefixes.simps [simp del]

definition trim_space :: "string \<Rightarrow> string" where
  "trim_space s = rev (trim_prefixes (map rev go_spaces) (rev (trim_prefixes go_spaces s)))"

text \<open>A string whose first and last bytes are printable ASCII is left alone.\<close>

definition graphic :: "char \<Rightarrow> bool" where
  "graphic c \<longleftrightarrow> (of_char c :: nat) \<in> {33..126}"

lemma space_ends:
  "p \<in> set go_spaces \<Longrightarrow> \<not> graphic (hd p)"
  "p \<in> set (map rev go_spaces) \<Longrightarrow> \<not> graphic (hd p)"
  by (auto simp: go_spaces_def graphic_def)

lemma trim_prefixes_id:
  assumes "\<And>p. p \<in> set ps \<Longrightarrow> \<not> graphic (hd p)" and "graphic c"
  shows "trim_prefixes ps (c # cs) = c # cs"
proof -
  have "find (\<lambda>p. p \<noteq> [] \<and> take (length p) (c # cs) = p) ps = None"
  proof (subst find_None_iff, rule notI)
    assume "\<exists>p. p \<in> set ps \<and> p \<noteq> [] \<and> take (length p) (c # cs) = p"
    then obtain p where p: "p \<in> set ps" "p \<noteq> []" "take (length p) (c # cs) = p" by blast
    from p(2,3) have "hd p = c" by (metis hd_take length_greater_0_conv list.sel(1))
    with p assms show False by blast
  qed
  then show ?thesis using trim_prefixes.simps [of ps "c # cs"] by simp
qed

lemmas trim_prefixes_graphic =
  trim_prefixes_id [OF space_ends(1)] trim_prefixes_id [OF space_ends(2)]

lemma trim_space_graphic:
  assumes "s \<noteq> []" "graphic (hd s)" "graphic (last s)"
  shows "trim_space s = s"
proof -
  obtain c cs where s: "s = c # cs" using assms by (cases s) auto
  then obtain d ds where r: "rev s = d # ds" by (cases "rev s") auto
  have "last s = d" using r by (metis hd_rev list.sel(1))
  have c: "graphic c" using assms(2) s by simp
  have d: "graphic d" using assms(3) \<open>last s = d\<close> by simp
  have "trim_prefixes go_spaces s = s"
    unfolding s by (rule trim_prefixes_graphic(1) [OF _ c])
  moreover have "trim_prefixes (map rev go_spaces) (rev s) = rev s"
    unfolding r by (rule trim_prefixes_graphic(2) [OF _ d])
  ultimately show ?thesis by (simp add: trim_space_def)
qed

lemma graphic_digit: "digit_value c \<noteq> None \<Longrightarrow> graphic c"
  by (auto simp: digit_value_def graphic_def Let_def split: if_splits)

section \<open>Fields\<close>

text \<open>
  The length of the white space that the string starts with, 0 when it starts with none. The
  first byte of these sequences is never inside a rune, so a scan agrees with the decoding of runes.
\<close>

definition space_length :: "string \<Rightarrow> nat" where
  "space_length s = (case find (\<lambda>p. take (length p) s = p) go_spaces of None \<Rightarrow> 0 | Some p \<Rightarrow> length p)"

text \<open>\<open>strings.Fields\<close>: the maximal runs without white space; \<open>cur\<close> is the run being read.\<close>

definition flush_field :: "string \<Rightarrow> string list" where
  "flush_field cur = (if cur = [] then [] else [cur])"

function fields_loop :: "string \<Rightarrow> string \<Rightarrow> string list" where
  "fields_loop cur s =
     (case s of
        [] \<Rightarrow> flush_field cur
      | c # rest \<Rightarrow>
          if 0 < space_length s then flush_field cur @ fields_loop [] (drop (space_length s) s)
          else fields_loop (cur @ [c]) rest)"
  by pat_completeness auto
termination
  by (relation "measure (\<lambda>(cur, s). length s)") auto

declare fields_loop.simps [simp del]

definition go_fields :: "string \<Rightarrow> string list" where
  "go_fields s = fields_loop [] s"

lemma space_length_graphic: "graphic c \<Longrightarrow> space_length (c # s) = 0"
proof -
  assume c: "graphic c"
  have "take (length p) (c # s) \<noteq> p" if p: "p \<in> set go_spaces" for p
  proof
    assume t: "take (length p) (c # s) = p"
    have "p \<noteq> []" using p by (auto simp: go_spaces_def)
    then have "hd p = c" using t by (metis hd_take length_greater_0_conv list.sel(1))
    then show False using space_ends(1) [OF p] c by simp
  qed
  then have "find (\<lambda>p. take (length p) (c # s) = p) go_spaces = None" by (simp add: find_None_iff)
  then show ?thesis by (simp add: space_length_def)
qed

lemma fields_loop_graphic:
  "list_all graphic w \<Longrightarrow> fields_loop cur (w @ s) = fields_loop (cur @ w) s"
proof (induction w arbitrary: cur)
  case (Cons c w)
  then have "space_length (c # w @ s) = 0" by (intro space_length_graphic) simp
  then show ?case using Cons by (subst fields_loop.simps) simp
qed simp

lemma fields_loop_space: "fields_loop cur ('' '' @ s) = flush_field cur @ fields_loop [] s"
proof -
  have "space_length ('' '' @ s) = 1" by (simp add: space_length_def go_spaces_def)
  then show ?thesis by (subst fields_loop.simps) simp
qed

lemma fields_loop_Nil: "fields_loop cur [] = flush_field cur"
  by (simp add: fields_loop.simps)

lemma fields_joined:
  "list_all (\<lambda>w. list_all graphic w \<and> w \<noteq> []) ws \<Longrightarrow> list_all graphic cur \<Longrightarrow> cur \<noteq> [] \<Longrightarrow>
   fields_loop cur (concat (map (\<lambda>w. '' '' @ w) ws)) = cur # ws"
proof (induction ws arbitrary: cur)
  case Nil
  then show ?case by (simp add: fields_loop_Nil flush_field_def)
next
  case (Cons w ws)
  have "fields_loop cur (concat (map (\<lambda>w. '' '' @ w) (w # ws)))
      = flush_field cur @ fields_loop [] (w @ concat (map (\<lambda>w. '' '' @ w) ws))"
    using fields_loop_space [of cur "w @ concat (map (\<lambda>w. '' '' @ w) ws)"] by simp
  also have "\<dots> = cur # w # ws" using Cons by (simp add: fields_loop_graphic flush_field_def)
  finally show ?case .
qed

end
