(* ===== verification/Derivation_Path.thy ===== *)
theory Derivation_Path
  imports Go_Strings
begin

text \<open>
  Package \<open>derivationpath\<close>: \<open>Encode\<close>, \<open>EncodeFromBytes\<close> (\<open>encoder.go\<close>) and the state
  machine behind \<open>Decode\<close> (\<open>decoder.go\<close>). The decoder's fields are the record \<open>decoder\<close>;
  the function value it keeps in the field \<open>f\<close> is one of three states. The reader
  \<open>strings.Reader\<close> is the input and the offset.
\<close>

section \<open>Encoding\<close>

definition hardenedStart :: nat where [simp]: "hardenedStart = 0x80000000"

definition encode_segment :: "u32 \<Rightarrow> string" where
  "encode_segment i =
     (if hardenedStart \<le> unat i then format_uint (unat i - hardenedStart) @ [CHR 0x27]
      else format_uint (unat i))"

definition Encode :: "u32 list \<Rightarrow> string" where
  "Encode rawPath = go_join ''/'' (''m'' # map encode_segment rawPath)"

text \<open>\<open>binary.Read\<close> of \<open>len/4\<close> big-endian words; trailing bytes are not read.\<close>

fun read_u32s :: "bytes \<Rightarrow> u32 list" where
  "read_u32s (a # b # c # d # rest) = shift_in [a, b, c, d] # read_u32s rest"
| "read_u32s _ = []"

definition EncodeFromBytes :: "bytes \<Rightarrow> string res" where
  "EncodeFromBytes data = Inr (Encode (read_u32s data))"

section \<open>The decoder\<close>

datatype StartingPoint = StartingPointMaster | StartingPointCurrent | StartingPointParent

datatype parseFunc = ParseStart | ParseSeparator | ParseSegment

record decoder =
  dInput :: string
  dOff :: nat
  dFunc :: parseFunc
  dPos :: int
  dPath :: "u32 list"
  dStart :: StartingPoint
  currentToken :: string
  currentTokenHardened :: bool

definition newDecoder :: "string \<Rightarrow> decoder" where
  "newDecoder path =
     \<lparr>dInput = path, dOff = 0, dFunc = ParseStart, dPos = 0, dPath = [],
      dStart = StartingPointCurrent, currentToken = [], currentTokenHardened = False\<rparr>"

definition readByte :: "(decoder, char) st" where
  "readByte = (\<lambda>d.
     if length (dInput d) \<le> dOff d then (Inl EOF, d)
     else (Inr (dInput d ! dOff d), d\<lparr>dOff := dOff d + 1, dPos := dPos d + 1\<rparr>))"

definition unreadByte :: "(decoder, unit) st" where
  "unreadByte = (\<lambda>d.
     if dOff d \<le> 0 then (Inl (External ''strings.Reader.UnreadByte: at beginning of string''), d)
     else (Inr (), d\<lparr>dOff := dOff d - 1, dPos := dPos d - 1\<rparr>))"

definition parseStart :: "(decoder, unit) st" where
  "parseStart =
     bindS readByte (\<lambda>b.
       if b = CHR ''m'' then
         modifyS (\<lambda>d. d\<lparr>dStart := StartingPointMaster, dFunc := ParseSeparator\<rparr>)
       else if b = CHR ''.'' then
         bindS readByte (\<lambda>b2.
           if b2 = CHR ''.'' then
             modifyS (\<lambda>d. d\<lparr>dFunc := ParseSeparator, dStart := StartingPointParent\<rparr>)
           else
             bindS (modifyS (\<lambda>d. d\<lparr>dFunc := ParseSeparator, dStart := StartingPointCurrent\<rparr>))
               (\<lambda>_. unreadByte))
       else bindS (modifyS (\<lambda>d. d\<lparr>dFunc := ParseSegment\<rparr>)) (\<lambda>_. unreadByte))"

definition resetCurrentToken :: "decoder \<Rightarrow> decoder" where
  "resetCurrentToken d = d\<lparr>currentToken := [], currentTokenHardened := False\<rparr>"

definition saveSegment :: "(decoder, unit) st" where
  "saveSegment = (\<lambda>d.
     let finish = (\<lambda>d. (Inr (), resetCurrentToken (d\<lparr>dFunc := ParseSegment\<rparr>))) in
     if 0 < length (currentToken d) then
       (case parse_uint 32 (currentToken d) of
          Inl e \<Rightarrow> (Inl e, d)
        | Inr i \<Rightarrow>
            if hardenedStart \<le> i then
              (Inl (Msg ''index must be lower than 2^31''),
               d\<lparr>dPos := dPos d - (int (length (currentToken d)) - 1)\<rparr>)
            else
              let i = (if currentTokenHardened d then i + hardenedStart else i)
              in finish (d\<lparr>dPath := dPath d @ [of_nat i]\<rparr>))
     else finish d)"

definition parseSeparator :: "(decoder, unit) st" where
  "parseSeparator =
     bindS readByte (\<lambda>b. if b = CHR ''/'' then saveSegment else failS (Msg ''expected /''))"

definition parseSegment :: "(decoder, unit) st" where
  "parseSegment = (\<lambda>d.
     case readByte d of
       (Inl e, d) \<Rightarrow>
         if e = EOF then
           if length (currentToken d) = 0 then (Inl (Msg ''expected number, got EOF''), d)
           else (case saveSegment d of
                   (Inl newErr, d) \<Rightarrow> (Inl newErr, d)
                 | (Inr _, d) \<Rightarrow> (Inl EOF, d))
         else (Inl e, d)
     | (Inr b, d) \<Rightarrow>
         if 0 < length (currentToken d) \<and> b = CHR ''/'' then saveSegment d
         else if 0 < length (currentToken d) \<and> b = CHR 0x27 then
           (Inr (), d\<lparr>currentTokenHardened := True, dFunc := ParseSeparator\<rparr>)
         else if (of_char b :: nat) < 0x30 \<or> 0x39 < (of_char b :: nat) then (Inl (Msg ''expected number''), d)
         else (Inr (), d\<lparr>currentToken := currentToken d @ [b]\<rparr>))"

definition decoder_step :: "(decoder, unit) st" where
  "decoder_step = (\<lambda>d.
     case dFunc d of
       ParseStart \<Rightarrow> parseStart d
     | ParseSeparator \<Rightarrow> parseSeparator d
     | ParseSegment \<Rightarrow> parseSegment d)"

text \<open>Each call of a parse function uses up input, or leaves the start state.\<close>

definition decoder_measure :: "decoder \<Rightarrow> nat" where
  "decoder_measure d =
     2 * (length (dInput d) - dOff d) + (if dFunc d = ParseStart then 1 else 0)"

lemma saveSegment_frame:
  "saveSegment d = (r, d') \<Longrightarrow> dInput d' = dInput d \<and> dOff d' = dOff d \<and> (r = Inr () \<longrightarrow> dFunc d' = ParseSegment)"
  by (auto simp: saveSegment_def resetCurrentToken_def Let_def split: if_splits sum.splits)

lemma decoder_step_decreases:
  "decoder_step d = (Inr (), d') \<Longrightarrow> decoder_measure d' < decoder_measure d"
  by (cases "dFunc d")
     (auto simp: decoder_step_def parseStart_def parseSeparator_def parseSegment_def readByte_def
       unreadByte_def decoder_measure_def bindS_def
       dest!: saveSegment_frame split: if_splits sum.splits prod.splits)

text \<open>The loop of \<open>parse\<close>: \<open>io.EOF\<close> ends it without an error.\<close>

function parse :: "decoder \<Rightarrow> StartingPoint \<times> u32 list \<times> go_error option" where
  "parse d =
     (case decoder_step d of
        (Inl e, d') \<Rightarrow>
          (dStart d', dPath d', if e = EOF then None else Some (AtPosition (dPos d') e))
      | (Inr _, d') \<Rightarrow> parse d')"
  by pat_completeness auto
termination
  by (relation "measure decoder_measure") (auto intro: decoder_step_decreases)

declare parse.simps [simp del]

definition Decode :: "string \<Rightarrow> StartingPoint \<times> u32 list \<times> go_error option" where
  "Decode str = parse (newDecoder str)"

section \<open>Running the decoder\<close>

definition dec_at :: "string \<Rightarrow> string \<Rightarrow> parseFunc \<Rightarrow> StartingPoint \<Rightarrow> u32 list \<Rightarrow> string \<Rightarrow> bool \<Rightarrow> decoder" where
  "dec_at us vs f start path tok hard =
     \<lparr>dInput = us @ vs, dOff = length us, dFunc = f, dPos = int (length us), dPath = path,
      dStart = start, currentToken = tok, currentTokenHardened = hard\<rparr>"

lemmas decoder_defs = decoder_step_def parseStart_def parseSeparator_def parseSegment_def
  readByte_def unreadByte_def saveSegment_def resetCurrentToken_def dec_at_def

lemma parse_step: "decoder_step d = (Inr u, d') \<Longrightarrow> parse d = parse d'"
  by (subst parse.simps) simp

lemma parse_stop: "decoder_step d = (Inl EOF, d') \<Longrightarrow> parse d = (dStart d', dPath d', None)"
  by (subst parse.simps) simp

lemma parse_digit:
  assumes "digit_value c \<noteq> None"
  shows "parse (dec_at us (c # vs) ParseSegment start path tok hard)
    = parse (dec_at (us @ [c]) vs ParseSegment start path (tok @ [c]) hard)"
proof (rule parse_step)
  have "\<not> (of_char c :: nat) < 48" "\<not> (57 :: nat) < of_char c" "c \<noteq> CHR ''/''" "c \<noteq> CHR 0x27"
    using assms by (auto simp: digit_value_def Let_def split: if_splits)
  then show "decoder_step (dec_at us (c # vs) ParseSegment start path tok hard)
      = (Inr (), dec_at (us @ [c]) vs ParseSegment start path (tok @ [c]) hard)"
    by (simp add: decoder_defs)
qed

lemma parse_digits:
  "digits ds \<Longrightarrow>
   parse (dec_at us (ds @ vs) ParseSegment start path tok hard)
    = parse (dec_at (us @ ds) vs ParseSegment start path (tok @ ds) hard)"
  by (induction ds arbitrary: us tok) (simp_all add: parse_digit)

lemma parse_token_slash:
  assumes "tok \<noteq> []" and "parse_uint 32 tok = Inr i" and "i < hardenedStart"
  shows "parse (dec_at us (CHR ''/'' # vs) ParseSegment start path tok False)
      = parse (dec_at (us @ ''/'') vs ParseSegment start (path @ [of_nat i]) [] False)"
    and "parse (dec_at us (CHR ''/'' # vs) ParseSeparator start path tok True)
      = parse (dec_at (us @ ''/'') vs ParseSegment start (path @ [of_nat (i + hardenedStart)]) [] False)"
  using assms by (auto intro!: parse_step simp: decoder_defs Let_def)

lemma parse_quote:
  "tok \<noteq> [] \<Longrightarrow> parse (dec_at us (CHR 0x27 # vs) ParseSegment start path tok hard)
    = parse (dec_at (us @ [CHR 0x27]) vs ParseSeparator start path tok True)"
  by (auto intro!: parse_step simp: decoder_defs)

lemma parse_token_end:
  assumes "tok \<noteq> []" and "parse_uint 32 tok = Inr i" and "i < hardenedStart"
  shows "parse (dec_at us [] ParseSegment start path tok False) = (start, path @ [of_nat i], None)"
  using assms by (subst parse.simps) (auto simp: decoder_defs Let_def)

lemma parse_separator_end:
  "parse (dec_at us [] ParseSeparator start path tok hard) = (start, path, None)"
  by (subst parse.simps) (simp add: decoder_defs)

lemma parse_start_master:
  "parse (dec_at [] (CHR ''m'' # vs) ParseStart StartingPointCurrent [] [] False)
    = parse (dec_at ''m'' vs ParseSeparator StartingPointMaster [] [] False)"
  by (rule parse_step) (simp add: decoder_defs)

lemma parse_separator_slash:
  "parse (dec_at us (CHR ''/'' # vs) ParseSeparator start path [] False)
    = parse (dec_at (us @ ''/'') vs ParseSegment start path [] False)"
  by (rule parse_step) (simp add: decoder_defs)

definition is_hardened :: "u32 \<Rightarrow> bool" where
  "is_hardened i \<longleftrightarrow> hardenedStart \<le> unat i"

lemma parse_index: "n < hardenedStart \<Longrightarrow> parse_uint 32 (format_uint n) = Inr n"
  by (intro parse_uint_format) simp

text \<open>A segment followed by a separator is read back.\<close>

lemma parse_segment_slash:
  "parse (dec_at us (encode_segment i @ CHR ''/'' # vs) ParseSegment start path [] False)
    = parse (dec_at (us @ encode_segment i @ ''/'') vs ParseSegment start (path @ [i]) [] False)"
proof (cases "is_hardened i")
  case True
  define n where "n = unat i - hardenedStart"
  have n: "n < hardenedStart" "of_nat (n + hardenedStart) = i"
    using True unat_u32_lt [of i] by (auto simp: n_def is_hardened_def)
  have "encode_segment i = format_uint n @ [CHR 0x27]"
    using True by (simp add: encode_segment_def is_hardened_def n_def)
  then show ?thesis
    using parse_token_slash(2) [OF format_uint_nonempty parse_index [OF n(1)] n(1)] n(2)
    by (simp add: parse_digits parse_quote del: of_nat_add)
next
  case False
  then have "unat i < hardenedStart" by (simp add: is_hardened_def)
  with False show ?thesis
    using parse_token_slash(1) [OF format_uint_nonempty parse_index]
    by (simp add: parse_digits encode_segment_def is_hardened_def)
qed

text \<open>The last segment: a hardened one is dropped.\<close>

lemma parse_segment_end:
  "parse (dec_at us (encode_segment i) ParseSegment start path [] False)
    = (start, if is_hardened i then path else path @ [i], None)"
proof (cases "is_hardened i")
  case True
  then have "encode_segment i = format_uint (unat i - hardenedStart) @ [CHR 0x27]"
    by (simp add: encode_segment_def is_hardened_def)
  with True show ?thesis by (simp add: parse_digits parse_quote parse_separator_end)
next
  case False
  then have i: "unat i < hardenedStart" "encode_segment i = format_uint (unat i) @ []"
    by (simp_all add: is_hardened_def encode_segment_def)
  show ?thesis
    unfolding i(2) using False parse_token_end [OF format_uint_nonempty parse_index [OF i(1)] i(1)]
    by (simp only: parse_digits digits_format_uint) simp
qed

lemma parse_segments:
  "path \<noteq> [] \<Longrightarrow>
   parse (dec_at us (go_join ''/'' (map encode_segment path)) ParseSegment start done [] False)
    = (start, done @ (if is_hardened (last path) then butlast path else path), None)"
proof (induction path arbitrary: us "done")
  case (Cons i path)
  show ?case
  proof (cases path)
    case Nil
    then show ?thesis by (simp add: parse_segment_end)
  next
    case (Cons j js)
    with Cons.IH [of "us @ encode_segment i @ ''/''" "done @ [i]"] show ?thesis
      by (simp add: go_join_Cons parse_segment_slash)
  qed
qed simp

lemma newDecoder_at: "newDecoder s = dec_at [] s ParseStart StartingPointCurrent [] [] False"
  by (simp add: newDecoder_def dec_at_def)

lemma Decode_Encode_lost:
  "Decode (Encode path) =
     (StartingPointMaster,
      if path \<noteq> [] \<and> hardenedStart \<le> unat (last path) then butlast path else path, None)"
proof (cases path)
  case Nil
  then show ?thesis
    by (simp add: Decode_def Encode_def newDecoder_at parse_start_master parse_separator_end)
next
  case (Cons i js)
  then have "Encode path = CHR ''m'' # CHR ''/'' # go_join ''/'' (map encode_segment path)"
    by (simp add: Encode_def)
  with Cons parse_segments [of path] show ?thesis
    by (simp add: Decode_def newDecoder_at parse_start_master parse_separator_slash
        is_hardened_def del: map_eq_Cons_conv list.map)
qed

text \<open>
  What \<open>Decode\<close> reads from an encoded path: the path itself, unless its last segment is
  hardened. Then that segment is lost, and no error is reported.
\<close>

theorem Decode_Encode:
  "Decode (Encode path) =
     (StartingPointMaster,
      if path \<noteq> [] \<and> hardenedStart \<le> unat (last path) then butlast path else path, None)"
  by (rule Decode_Encode_lost)

section \<open>Path segments as bytes\<close>

text \<open>\<open>binary.Write(buf, BigEndian, segment)\<close>, as the command builders write a path.\<close>

definition be_u32 :: "u32 \<Rightarrow> bytes" where
  "be_u32 w = [ucast (drop_bit 24 w), ucast (drop_bit 16 w), ucast (drop_bit 8 w), ucast w]"

lemma be_u32_bytes: "be_u32 w = be_bytes 4 (unat w)"
proof -
  have div2: "n div 256 div 256 = n div 65536" "n div 65536 div 256 = n div 16777216" for n :: nat
    by (simp_all flip: div_mult2_eq)
  obtain n where n: "unat w = n" by simp
  show ?thesis
    unfolding be_u32_def be_bytes_numerals ucast_drop_bit_of_nat
    unfolding ucast_byte_of_nat n by (simp only: div2) simp
qed

lemma length_be_u32 [simp]: "length (be_u32 w) = 4"
  by (simp add: be_u32_def)

lemma shift_in_be_u32 [simp]: "shift_in (be_u32 w) = w"
proof -
  have "be_nat (be_u32 w) = unat w"
    using unat_u32_lt [of w] by (simp add: be_u32_bytes be_nat_be_bytes)
  then show ?thesis
    using unat_u32_lt [of w] shift_in_of_nat [of "be_u32 w", where 'a = 32] by simp
qed

fun take_u32 :: "bytes \<Rightarrow> (u32 \<times> bytes) option" where
  "take_u32 (a # b # c # d # rest) = Some (shift_in [a, b, c, d], rest)"
| "take_u32 _ = None"

lemma take_u32_be [simp]: "take_u32 (be_u32 w @ rest) = Some (w, rest)"
  using shift_in_be_u32 [of w] by (simp add: be_u32_def)

interpretation segment: prefix_codec be_u32 take_u32 "\<lambda>_. True"
proof
  show "take_u32 (be_u32 x @ rest) = Some (x, rest)" for x rest by simp
  show "take_u32 bs = Some (x, rest) \<Longrightarrow> length rest < length bs" for bs x rest
    by (cases bs rule: take_u32.cases) auto
qed

lemma read_u32s_append: "read_u32s (be_u32 w @ rest) = w # read_u32s rest"
  using shift_in_be_u32 [of w] by (simp add: be_u32_def)

lemma read_u32s_concat: "read_u32s (concat (map be_u32 path)) = path"
  by (induction path) (simp_all add: read_u32s_append)

lemma length_concat_be_u32: "length (concat (map be_u32 path)) = 4 * length path"
  by (induction path) auto

lemma be_u32_read: "length bs = 4 \<Longrightarrow> be_u32 (shift_in bs) = bs"
proof -
  assume len: "length bs = 4"
  then have "be_nat bs < 256 ^ 4" by (intro be_nat_lt_pow) simp
  then have "unat (shift_in bs :: u32) = be_nat bs" by (simp add: unat_shift_in)
  then show ?thesis using be_bytes_be_nat [of bs] len by (simp add: be_u32_bytes)
qed

lemma concat_read_u32s: "length bs = 4 * k \<Longrightarrow> concat (map be_u32 (read_u32s bs)) = bs"
proof (induction bs arbitrary: k rule: read_u32s.induct)
  case (1 a b c d rest)
  then obtain k' where "k = Suc k'" by (cases k) auto
  with 1 show ?case using be_u32_read [of "[a, b, c, d]"] by simp
qed (auto dest: arg_cong [where f = "\<lambda>n. n mod 4"])

end
