(* ===== verification/Types_Info.thy ===== *)
theory Types_Info
  imports Signature Derivation_Path
begin

text \<open>
  The status messages of package \<open>types\<close>: \<open>application_info.go\<close>, \<open>application_status.go\<close>,
  \<open>card_status.go\<close> and \<open>cash_application_info.go\<close>. Each parser is proved against an encoder
  that writes the documented message; a nil slice is the empty list.
\<close>

section \<open>Optional fields\<close>

text \<open>\<open>if reader.NextTagIs(tag) { ... }\<close>, and a read whose error is dropped.\<close>

definition read_if :: "byte \<Rightarrow> 'a reader \<Rightarrow> 'a \<Rightarrow> 'a reader" where
  "read_if tag m d = readS (\<lambda>r. if NextTagIs tag r then m else returnS d)"

definition try_read :: "'a reader \<Rightarrow> 'a \<Rightarrow> 'a reader" where
  "try_read m d = (\<lambda>r. case m r of (Inl _, r') \<Rightarrow> (Inr d, r') | (Inr x, r') \<Rightarrow> (Inr x, r'))"

definition first_byte :: "string \<Rightarrow> bytes reader \<Rightarrow> byte reader" where
  "first_byte msg m = bindS m (\<lambda>bs. if length bs = 0 then failS (Msg msg) else returnS (bs ! 0))"

section \<open>Application info\<close>

definition CapabilitySecureChannel :: byte where [simp]: "CapabilitySecureChannel = 0x01"
definition CapabilityKeyManagement :: byte where [simp]: "CapabilityKeyManagement = 0x02"
definition CapabilityCredentialsManagement :: byte where [simp]: "CapabilityCredentialsManagement = 0x04"
definition CapabilityNDEF :: byte where [simp]: "CapabilityNDEF = 0x08"
definition CapabilityFactoryReset :: byte where [simp]: "CapabilityFactoryReset = 0x10"

definition CapabilityAll :: byte where
  "CapabilityAll = CapabilitySecureChannel OR CapabilityKeyManagement
     OR CapabilityCredentialsManagement OR CapabilityNDEF OR CapabilityFactoryReset"

definition AppStatusInitialized :: byte where [simp]: "AppStatusInitialized = 0x10"

definition AppStatusLEEMode :: byte where [simp]: "AppStatusLEEMode = 0x20"

record ApplicationInfo =
  Installed :: bool
  Initialized :: bool
  InstanceUID :: bytes
  SecureChannelPublicKey :: bytes
  Version :: bytes
  AvailableSlots :: bytes
  KeyUID :: bytes
  Capabilities :: byte
  CertData :: bytes
  AppStatus :: byte

definition HasCapability :: "byte \<Rightarrow> ApplicationInfo \<Rightarrow> bool" where
  "HasCapability c a \<longleftrightarrow> Capabilities a AND c = c"

definition HasSecureChannelCapability :: "ApplicationInfo \<Rightarrow> bool" where
  "HasSecureChannelCapability a = HasCapability CapabilitySecureChannel a"

definition HasKeyManagementCapability :: "ApplicationInfo \<Rightarrow> bool" where
  "HasKeyManagementCapability a = HasCapability CapabilityKeyManagement a"

definition HasCredentialsManagementCapability :: "ApplicationInfo \<Rightarrow> bool" where
  "HasCredentialsManagementCapability a = HasCapability CapabilityCredentialsManagement a"

definition HasNDEFCapability :: "ApplicationInfo \<Rightarrow> bool" where
  "HasNDEFCapability a = HasCapability CapabilityNDEF a"

definition HasFactoryResetCapability :: "ApplicationInfo \<Rightarrow> bool" where
  "HasFactoryResetCapability a = HasCapability CapabilityFactoryReset a"

definition HasSecureChannel :: "ApplicationInfo \<Rightarrow> bool" where
  "HasSecureChannel a = HasSecureChannelCapability a"

definition IsLEEMode :: "ApplicationInfo \<Rightarrow> bool" where
  "IsLEEMode a \<longleftrightarrow> AppStatus a AND AppStatusLEEMode \<noteq> 0"

definition AppVersion :: "ApplicationInfo \<Rightarrow> u16" where
  "AppVersion a =
     (if length (Version a) < 2 then 0
      else push_bit 8 (ucast (Version a ! 0)) OR ucast (Version a ! 1))"

definition PINRetries :: "ApplicationInfo \<Rightarrow> byte \<times> bool" where
  "PINRetries a = (if AppVersion a < 0x0400 then (0, False) else (AppStatus a AND 0x0F, True))"

definition AppVersionString :: "ApplicationInfo \<Rightarrow> string" where
  "AppVersionString a =
     (let v = AppVersion a
      in format_uint (unat (drop_bit 8 v AND 0xFF)) @ ''.'' @ format_uint (unat (v AND 0xFF)))"

definition Cert :: "ApplicationInfo \<Rightarrow> bytes" where "Cert a = CertData a"

definition empty_info :: ApplicationInfo where
  "empty_info = \<lparr>Installed = True, Initialized = False, InstanceUID = [], SecureChannelPublicKey = [],
     Version = [], AvailableSlots = [], KeyUID = [], Capabilities = 0, CertData = [], AppStatus = 0\<rparr>"

definition ParseApplicationInfo :: "bytes \<Rightarrow> ApplicationInfo res" where
  "ParseApplicationInfo data = run_reader (readS (\<lambda>reader.
     if NextTagIs TLV_PUB_KEY reader then
       bindS (wrapS ''failed to read public key from SELECT response'' (ReadPrimitive TLV_PUB_KEY)) (\<lambda>pubKey.
         let caps = CapabilityCredentialsManagement;
             caps = (if 0 < length pubKey then caps OR CapabilitySecureChannel else caps)
         in returnS (empty_info\<lparr>SecureChannelPublicKey := pubKey, Capabilities := caps\<rparr>))
     else
       bindS (\<lambda>r. case EnterConstructed TLV_APPLICATION_INFO_TEMPLATE r of
           (Inl _, r') \<Rightarrow> (Inl WrongApplicationInfoTemplate, r') | (Inr n, r') \<Rightarrow> (Inr n, r')) (\<lambda>_.
       bindS (read_if TLV_UID (wrapS ''failed to read instance UID'' (ReadPrimitive TLV_UID)) []) (\<lambda>instanceUID.
       bindS (read_if TLV_PUB_KEY (wrapS ''failed to read secure channel public key'' (ReadPrimitive TLV_PUB_KEY)) []) (\<lambda>pubKey.
       bindS (wrapS ''failed to read app version'' ReadInteger) (\<lambda>appVersionInt.
       bindS (read_if TLV_STATUS (first_byte ''app status TLV has empty value''
           (wrapS ''failed to read app status'' (ReadPrimitive TLV_STATUS))) AppStatusInitialized) (\<lambda>appStatus.
       bindS (read_if TLV_INT (bindS (wrapS ''failed to read free pairing slots'' ReadInteger)
           (\<lambda>slotsInt. returnS [ucast slotsInt])) []) (\<lambda>availableSlots.
       bindS (wrapS ''failed to read key UID'' (ReadPrimitive TLV_KEY_UID)) (\<lambda>keyUID.
       bindS (read_if TLV_CAPABILITIES (first_byte ''capabilities TLV has empty value''
           (wrapS ''failed to read capabilities'' (ReadPrimitive TLV_CAPABILITIES))) CapabilityAll) (\<lambda>capabilities.
       bindS (read_if TLV_CERT (wrapS ''failed to read certificate data'' (ReadPrimitive TLV_CERT)) []) (\<lambda>certData.
       returnS \<lparr>Installed = True,
         Initialized = (appStatus AND AppStatusInitialized = AppStatusInitialized),
         InstanceUID = instanceUID, SecureChannelPublicKey = pubKey,
         Version = [ucast (drop_bit 8 appVersionInt), ucast appVersionInt],
         AvailableSlots = availableSlots, KeyUID = keyUID, Capabilities = capabilities,
         CertData = certData, AppStatus = appStatus\<rparr>))))))))))) data"

section \<open>Application status\<close>

record ApplicationStatus =
  PinRetryCount :: int
  PUKRetryCount :: int
  KeyInitialized :: bool
  Path :: string

definition empty_status :: ApplicationStatus where
  "empty_status = \<lparr>PinRetryCount = 0, PUKRetryCount = 0, KeyInitialized = False, Path = []\<rparr>"

definition parseKeyPathStatus :: "bytes \<Rightarrow> ApplicationStatus res" where
  "parseKeyPathStatus data =
     bindE (EncodeFromBytes data) (\<lambda>path. Inr (empty_status\<lparr>Path := path\<rparr>))"

definition ParseApplicationStatus :: "bytes \<Rightarrow> ApplicationStatus res" where
  "ParseApplicationStatus data =
     (case EnterConstructed TLV_APPLICATION_STATUS_TEMPLATE (NewBerTlvReader data) of
        (Inl _, _) \<Rightarrow> parseKeyPathStatus data
      | (Inr _, reader) \<Rightarrow> fst (
          bindS (try_read (bindS ReadInteger (\<lambda>i. returnS (sint i))) 0) (\<lambda>pin.
          bindS (try_read (bindS ReadInteger (\<lambda>i. returnS (sint i))) 0) (\<lambda>puk.
          bindS (try_read ReadBoolean False) (\<lambda>key.
          returnS \<lparr>PinRetryCount = pin, PUKRetryCount = puk, KeyInitialized = key, Path = []\<rparr>))) reader))"

section \<open>Card status\<close>

definition TagGetStatusTemplate :: byte where [simp]: "TagGetStatusTemplate = 0xE3"

definition lifeCycle_String :: "byte \<Rightarrow> string" where
  "lifeCycle_String lc =
     (if lc = 0x01 then ''OP_READY'' else if lc = 0x07 then ''INITIALIZED''
      else if lc = 0x0F then ''SECURED'' else if lc = 0x7F then ''CARD_LOCKED''
      else if lc = 0xFF then ''TERMINATED'' else ''UNKNOWN'')"

record CardStatus =
  csLc :: byte

definition LifeCycle :: "CardStatus \<Rightarrow> string" where
  "LifeCycle cs = lifeCycle_String (csLc cs)"

definition ParseCardStatus :: "bytes \<Rightarrow> CardStatus res" where
  "ParseCardStatus data = run_reader
     (bindS (ReadPrimitive TagGetStatusTemplate) (\<lambda>tpl.
      liftS (run_reader
        (bindS SkipPrimitive (\<lambda>_.
         bindS ReadTag (\<lambda>_.
         bindS (ReadPrimitive 0x70) (\<lambda>lc.
         if length lc \<noteq> 1 then failS (InvalidLifeCycleValue lc)
         else returnS \<lparr>csLc = lc ! 0\<rparr>)))) tpl))) data"

section \<open>Cash application info\<close>

record CashApplicationInfo =
  CashInstalled :: bool
  CashPublicKey :: bytes
  CashPublicData :: bytes
  CashVersion :: bytes

definition ParseCashApplicationInfo :: "bytes \<Rightarrow> CashApplicationInfo res" where
  "ParseCashApplicationInfo data =
     (if data = [] then Inl (Panic ''index out of range'')
      else if data ! 0 \<noteq> TLV_APPLICATION_INFO_TEMPLATE then Inl WrongApplicationInfoTemplate
      else run_reader
        (bindS (EnterConstructed TLV_APPLICATION_INFO_TEMPLATE) (\<lambda>_.
         bindS (ReadPrimitive TLV_PUB_KEY) (\<lambda>pubKey.
         bindS (ReadPrimitive TLV_INT) (\<lambda>appVersion.
         bindS (ReadPrimitive TLV_PUB_DATA) (\<lambda>pubData.
         readS (\<lambda>r.
           if rd_pos r \<noteq> length data then failS (Msg ''unexpected trailing data in application info'')
           else returnS \<lparr>CashInstalled = True, CashPublicKey = pubKey, CashPublicData = pubData,
                         CashVersion = appVersion\<rparr>)))))) data)"

section \<open>The messages, and what the parsers make of them\<close>

text \<open>The first byte of what is left decides an optional field.\<close>

definition starts_with :: "byte \<Rightarrow> bytes \<Rightarrow> bool" where
  "starts_with tag bs \<longleftrightarrow> (case bs of [] \<Rightarrow> False | b # _ \<Rightarrow> b = tag)"

definition opt_item :: "byte \<Rightarrow> bytes option \<Rightarrow> bytes" where
  "opt_item tag v = (case v of None \<Rightarrow> [] | Some bs \<Rightarrow> tlv_enc (tag, bs))"

definition opt_integer :: "u32 option \<Rightarrow> bytes" where
  "opt_integer i = (case i of None \<Rightarrow> [] | Some n \<Rightarrow> WriteInteger TLV_INT n [])"

definition short :: "bytes option \<Rightarrow> bool" where
  "short v \<longleftrightarrow> length (opt_bytes v) < 2 ^ 16"

lemma starts_with_simps [simp]:
  "\<not> starts_with tag []"
  "starts_with tag (tlv_enc (t, v) @ rest) \<longleftrightarrow> t = tag"
  "starts_with tag (tlv_enc (t, v)) \<longleftrightarrow> t = tag"
  "starts_with tag (opt_item t ov @ rest) \<longleftrightarrow> ov \<noteq> None \<and> t = tag \<or> ov = None \<and> starts_with tag rest"
  "starts_with tag (opt_item t ov) \<longleftrightarrow> ov \<noteq> None \<and> t = tag"
  by (simp_all add: starts_with_def tlv_enc_def opt_item_def split: option.split)

lemma starts_with_integer [unfolded TLV_INT_def, simp]:
  "starts_with tag (WriteInteger TLV_INT n [] @ rest) \<longleftrightarrow> TLV_INT = tag"
  "starts_with tag (opt_integer oi @ rest) \<longleftrightarrow> oi \<noteq> None \<and> TLV_INT = tag \<or> oi = None \<and> starts_with tag rest"
proof -
  obtain bs where "WriteInteger TLV_INT n [] = tlv_enc (TLV_INT, bs)"
    using WriteInteger_enc [of TLV_INT n "[]"] by auto
  then show "starts_with tag (WriteInteger TLV_INT n [] @ rest) \<longleftrightarrow> TLV_INT = tag"
    by (simp del: TLV_INT_def)
next
  show "starts_with tag (opt_integer oi @ rest) \<longleftrightarrow> oi \<noteq> None \<and> TLV_INT = tag \<or> oi = None \<and> starts_with tag rest"
  proof (cases oi)
    case (Some n)
    obtain bs where "WriteInteger TLV_INT n [] = tlv_enc (TLV_INT, bs)"
      using WriteInteger_enc [of TLV_INT n "[]"] by auto
    then show ?thesis using Some by (simp add: opt_integer_def del: TLV_INT_def)
  qed (simp add: opt_integer_def)
qed

lemma NextTagIs_starts_with: "NextTagIs tag (reader_at us vs) = starts_with tag vs"
  by (simp add: starts_with_def)

lemma read_if_item:
  assumes "short v" "v = None \<Longrightarrow> \<not> starts_with tag rest"
  shows "read_if tag (wrapS m (ReadPrimitive tag)) [] (reader_at us (opt_item tag v @ rest))
      = (Inr (opt_bytes v), reader_at (us @ opt_item tag v) rest)"
  using assms
  by (cases v) (simp_all add: read_if_def NextTagIs_starts_with opt_item_def ReadPrimitive_enc short_def
      del: NextTagIs_at)

lemma read_if_byte:
  assumes "v = None \<Longrightarrow> \<not> starts_with tag rest"
  shows "read_if tag (first_byte e (wrapS m (ReadPrimitive tag))) d
      (reader_at us (opt_item tag (map_option (\<lambda>b. [b]) v) @ rest))
      = (Inr (case v of None \<Rightarrow> d | Some b \<Rightarrow> b), reader_at (us @ opt_item tag (map_option (\<lambda>b. [b]) v)) rest)"
  using assms
  by (cases v) (simp_all add: read_if_def first_byte_def NextTagIs_starts_with opt_item_def ReadPrimitive_enc
      del: NextTagIs_at)

lemma read_if_integer:
  assumes "v = None \<Longrightarrow> \<not> starts_with TLV_INT rest"
  shows "read_if TLV_INT (bindS (wrapS m ReadInteger) (\<lambda>i. returnS [ucast i])) []
      (reader_at us (opt_integer v @ rest))
      = (Inr (case v of None \<Rightarrow> [] | Some i \<Rightarrow> [ucast i]), reader_at (us @ opt_integer v) rest)"
  using assms
  by (cases v) (simp_all add: read_if_def NextTagIs_starts_with opt_integer_def
      ReadInteger_WriteInteger [unfolded TLV_INT_def] del: NextTagIs_at)

text \<open>The SELECT response of an initialized card, for any choice of the optional fields.\<close>

definition app_info_items ::
  "bytes option \<Rightarrow> bytes option \<Rightarrow> u32 \<Rightarrow> byte option \<Rightarrow> u32 option \<Rightarrow> bytes \<Rightarrow> byte option \<Rightarrow> bytes option \<Rightarrow> bytes" where
  "app_info_items uid pub version status slots key caps cert =
     opt_item TLV_UID uid @ opt_item TLV_PUB_KEY pub @ WriteInteger TLV_INT version []
     @ opt_item TLV_STATUS (map_option (\<lambda>b. [b]) status) @ opt_integer slots
     @ tlv_enc (TLV_KEY_UID, key) @ opt_item TLV_CAPABILITIES (map_option (\<lambda>b. [b]) caps)
     @ opt_item TLV_CERT cert"

lemma length_opt_item: "short v \<Longrightarrow> length (opt_item tag v) < 2 ^ 17"
  using length_tlv_enc_le [of tag "opt_bytes v"]
  by (cases v) (auto simp: opt_item_def short_def)

lemma length_WriteInteger: "length (WriteInteger tag n []) \<le> 10"
proof -
  obtain bs where "WriteInteger tag n [] = tlv_enc (tag, bs)" "length bs \<le> 4"
    using WriteInteger_enc [of tag n "[]"] by auto
  then show ?thesis using length_tlv_enc_le [of tag bs] by simp
qed

lemma length_app_info_items:
  assumes "short uid" "short pub" "short (Some key)" "short cert"
  shows "length (app_info_items uid pub version status slots key caps cert) < 2 ^ 32"
proof -
  have "short (map_option (\<lambda>b. [b]) status)" "short (map_option (\<lambda>b. [b]) caps)"
    by (cases status; simp add: short_def) (cases caps; simp add: short_def)
  note l = length_opt_item [OF this(1), of TLV_STATUS] length_opt_item [OF this(2), of TLV_CAPABILITIES]
    length_opt_item [OF assms(1), of TLV_UID] length_opt_item [OF assms(2), of TLV_PUB_KEY]
    length_opt_item [OF assms(3), of TLV_KEY_UID] length_opt_item [OF assms(4), of TLV_CERT]
    length_WriteInteger [of TLV_INT version]
  moreover have "length (opt_integer slots) \<le> 10"
    using length_WriteInteger by (cases slots) (simp_all add: opt_integer_def)
  ultimately show ?thesis unfolding app_info_items_def opt_item_def [of _ "Some key"] by simp
qed

text \<open>C34. \<open>ParseApplicationInfo\<close> recovers every field of a SELECT response, whichever of the
  optional fields of the applet versions are present, and fills in the documented defaults
  for the absent ones.\<close>

theorem ParseApplicationInfo_of_message:
  assumes "short uid" "short pub" "short (Some key)" "short cert"
  shows "ParseApplicationInfo (tlv_enc (TLV_APPLICATION_INFO_TEMPLATE,
            app_info_items uid pub version status slots key caps cert)) =
    (let st = (case status of None \<Rightarrow> 0x10 | Some b \<Rightarrow> b)
     in Inr \<lparr>Installed = True, Initialized = (st AND 0x10 = 0x10), InstanceUID = opt_bytes uid,
         SecureChannelPublicKey = opt_bytes pub,
         Version = [of_nat (unat version div 256), of_nat (unat version)],
         AvailableSlots = (case slots of None \<Rightarrow> [] | Some n \<Rightarrow> [ucast n]), KeyUID = key,
         Capabilities = (case caps of None \<Rightarrow> 0x1F | Some b \<Rightarrow> b), CertData = opt_bytes cert, AppStatus = st\<rparr>)"
proof -
  let ?items = "app_info_items uid pub version status slots key caps cert"
  have enter: "EnterConstructed 0xA4 (reader_at [] (tlv_enc (0xA4, ?items))) =
      (Inr (of_nat (length ?items)), reader_at ([] @ 0xA4 # ber_enc (length ?items)) ?items)"
    using EnterConstructed_enc [OF length_app_info_items [OF assms], where us = "[]" and rest = "[]"] by simp
  have cert: "read_if 0x8A (wrapS m (ReadPrimitive 0x8A)) [] (reader_at us (opt_item 0x8A cert))
      = (Inr (opt_bytes cert), reader_at (us @ opt_item 0x8A cert) [])" for m us
    using read_if_item [OF assms(4), where tag = "0x8A" and rest = "[]" and m = m and us = us] by simp
  have key: "ReadPrimitive 0x8E (reader_at us (tlv_enc (0x8E, key) @ rest))
      = (Inr key, reader_at (us @ tlv_enc (0x8E, key)) rest)" for us rest
    using assms(3) by (intro ReadPrimitive_enc) (simp add: short_def)
  note items = read_if_item [OF assms(1)] read_if_item [OF assms(2)] read_if_byte cert key
    read_if_integer [unfolded TLV_INT_def] ReadInteger_WriteInteger [unfolded TLV_INT_def]
  have all: "CapabilityAll = 0x1F" by (simp add: CapabilityAll_def)
  have v: "(ucast (drop_bit 8 version) :: byte) = of_nat (unat version div 256)"
      "(ucast version :: byte) = of_nat (unat version)"
    using ucast_drop_bit_of_nat [of 8 version] ucast_byte_of_nat [of version] by simp_all
  show ?thesis
    unfolding ParseApplicationInfo_def run_reader_def NewBerTlvReader_at readS_apply
    by (simp only: NextTagIs_starts_with starts_with_simps all)
       (simp add: enter, simp add: app_info_items_def items Let_def v(1))
qed

theorem ParseApplicationInfo_of_message_witness:
  "ParseApplicationInfo (tlv_enc (TLV_APPLICATION_INFO_TEMPLATE,
      app_info_items None None 0x0401 (Some 0x13) None [7, 8] None (Some [1, 2, 3]))) =
    (let st = (case Some (0x13 :: byte) of None \<Rightarrow> 0x10 | Some b \<Rightarrow> b)
     in Inr \<lparr>Installed = True, Initialized = (st AND 0x10 = 0x10), InstanceUID = opt_bytes None,
         SecureChannelPublicKey = opt_bytes None,
         Version = [of_nat (unat (0x0401 :: u32) div 256), of_nat (unat (0x0401 :: u32))],
         AvailableSlots = (case None of None \<Rightarrow> [] | Some n \<Rightarrow> [ucast (n :: u32)]), KeyUID = [7, 8],
         Capabilities = (case None of None \<Rightarrow> 0x1F | Some b \<Rightarrow> b), CertData = opt_bytes (Some [1, 2, 3]), AppStatus = st\<rparr>)"
  by (rule ParseApplicationInfo_of_message) (simp_all add: short_def)

text \<open>An uninitialized card answers with its public key alone.\<close>

lemma ParseApplicationInfo_uninitialized:
  assumes "short (Some pub)"
  shows "ParseApplicationInfo (tlv_enc (TLV_PUB_KEY, pub)) =
     Inr (empty_info\<lparr>SecureChannelPublicKey := pub, Capabilities := (if pub = [] then 0x04 else 0x05)\<rparr>)"
proof -
  have "ReadPrimitive 0x80 (reader_at [] (tlv_enc (0x80, pub))) = (Inr pub, reader_at (tlv_enc (0x80, pub)) [])"
    using assms ReadPrimitive_enc [of pub "0x80" "[]" "[]"] by (simp add: short_def)
  then show ?thesis
    unfolding ParseApplicationInfo_def run_reader_def NewBerTlvReader_at readS_apply NextTagIs_starts_with
    by (simp add: Let_def)
qed

section \<open>GET STATUS\<close>

lemma try_read_total: "\<exists>x r'. try_read m d r = (Inr x, r')"
  by (cases "m r"; cases "fst (m r)") (auto simp: try_read_def)

lemma ReadBoolean_WriteBoolean:
  "ReadBoolean (reader_at us (WriteBoolean TLV_BOOL b [])) = (Inr b, reader_at (us @ WriteBoolean TLV_BOOL b []) [])"
proof -
  have "ReadPrimitive 0x01 (reader_at us (tlv_enc (0x01, v))) = (Inr v, reader_at (us @ tlv_enc (0x01, v)) [])"
    if "length v = 1" for v
    using that ReadPrimitive_enc [of v "0x01" us "[]"] by simp
  then show ?thesis by (simp add: ReadBoolean_def WriteBoolean_def WritePrimitive_enc)
qed

definition status_msg :: "u32 \<Rightarrow> u32 \<Rightarrow> bool \<Rightarrow> bytes" where
  "status_msg pin puk key = tlv_enc (TLV_APPLICATION_STATUS_TEMPLATE,
     WriteInteger TLV_INT pin [] @ WriteInteger TLV_INT puk [] @ WriteBoolean TLV_BOOL key [])"

lemma ParseApplicationStatus_msg:
  "ParseApplicationStatus (status_msg pin puk key) =
     Inr \<lparr>PinRetryCount = sint pin, PUKRetryCount = sint puk, KeyInitialized = key, Path = []\<rparr>"
proof -
  let ?items = "WriteInteger TLV_INT pin [] @ WriteInteger TLV_INT puk [] @ WriteBoolean TLV_BOOL key []"
  have "length (WriteBoolean TLV_BOOL key []) \<le> 7"
    using length_tlv_enc_le [of TLV_BOOL "[0]"] length_tlv_enc_le [of TLV_BOOL "[0xFF]"]
    by (simp add: WriteBoolean_def WritePrimitive_enc)
  then have len: "length ?items < 2 ^ 32"
    using length_WriteInteger [of TLV_INT pin] length_WriteInteger [of TLV_INT puk] by simp
  have "EnterConstructed TLV_APPLICATION_STATUS_TEMPLATE (NewBerTlvReader (status_msg pin puk key)) =
      (Inr (of_nat (length ?items)), reader_at ([] @ 0xA3 # ber_enc (length ?items)) ?items)"
    using EnterConstructed_enc [OF len, where us = "[]" and rest = "[]" and tag = "0xA3"]
    by (simp add: status_msg_def NewBerTlvReader_at)
  then show ?thesis
    unfolding ParseApplicationStatus_def
    by (simp add: bindS_def try_read_def ReadInteger_WriteInteger ReadBoolean_WriteBoolean
        del: TLV_INT_def TLV_BOOL_def TLV_APPLICATION_STATUS_TEMPLATE_def)
qed

lemma ParseApplicationStatus_path:
  assumes "\<not> starts_with 0xA3 data"
  shows "ParseApplicationStatus data = Inr (empty_status\<lparr>Path := Encode (read_u32s data)\<rparr>)"
proof -
  have "\<exists>e r'. EnterConstructed 0xA3 (reader_at [] data) = (Inl e, r')"
    using assms by (cases data) (simp_all add: EnterConstructed_def ReadTag_at starts_with_def)
  then show ?thesis
    by (auto simp: ParseApplicationStatus_def NewBerTlvReader_at parseKeyPathStatus_def EncodeFromBytes_def)
qed

lemma bindS_try_read:
  assumes "\<And>x r. \<exists>y r'. f x r = (Inr y, r')"
  shows "\<exists>y r'. bindS (try_read m d) f r = (Inr y, r')"
proof -
  obtain x s where "try_read m d r = (Inr x, s)" using try_read_total [of m d r] by auto
  then show ?thesis using assms by simp
qed

lemma ParseApplicationStatus_Inr: "\<exists>st. ParseApplicationStatus data = Inr st"
proof (cases "EnterConstructed TLV_APPLICATION_STATUS_TEMPLATE (NewBerTlvReader data)")
  case (Pair a r)
  show ?thesis
  proof (cases a)
    case (Inr n)
    have "\<exists>y r'. bindS (try_read (bindS ReadInteger (\<lambda>i. returnS (sint i))) 0) (\<lambda>pin.
        bindS (try_read (bindS ReadInteger (\<lambda>i. returnS (sint i))) 0) (\<lambda>puk.
        bindS (try_read ReadBoolean False) (\<lambda>key.
        returnS \<lparr>PinRetryCount = pin, PUKRetryCount = puk, KeyInitialized = key, Path = []\<rparr>))) r = (Inr y, r')"
      by (intro bindS_try_read) simp
    then show ?thesis using Pair Inr by (auto simp: ParseApplicationStatus_def)
  qed (use Pair in \<open>simp add: ParseApplicationStatus_def parseKeyPathStatus_def EncodeFromBytes_def\<close>)
qed

text \<open>GET STATUS parsing never fails, whatever the card sends. On the documented message it
  returns the two retry counters and the key flag; on a raw key path it returns the path's
  textual form, unless the path's first byte is the 0xA3 of the status template: such a path
  can be taken for an empty status.\<close>

theorem ParseApplicationStatus_total:
  "(\<exists>st. ParseApplicationStatus data = Inr st)
   \<and> ParseApplicationStatus (status_msg pin puk key) =
       Inr \<lparr>PinRetryCount = sint pin, PUKRetryCount = sint puk, KeyInitialized = key, Path = []\<rparr>
   \<and> (path \<noteq> [] \<and> hd (be_u32 (hd path)) = 0xA3
      \<or> ParseApplicationStatus (concat (map be_u32 path)) = Inr (empty_status\<lparr>Path := Encode path\<rparr>))
   \<and> ParseApplicationStatus (concat (map be_u32 [0xA3000000])) = Inr empty_status"
proof (intro conjI)
  have "starts_with 0xA3 (concat (map be_u32 path)) \<longleftrightarrow> path \<noteq> [] \<and> hd (be_u32 (hd path)) = 0xA3"
    by (cases path) (simp_all add: starts_with_def be_u32_def)
  then show "path \<noteq> [] \<and> hd (be_u32 (hd path)) = 0xA3
      \<or> ParseApplicationStatus (concat (map be_u32 path)) = Inr (empty_status\<lparr>Path := Encode path\<rparr>)"
    using ParseApplicationStatus_path [of "concat (map be_u32 path)"] by (auto simp: read_u32s_concat)
  show "ParseApplicationStatus (concat (map be_u32 [0xA3000000])) = Inr empty_status" by code_simp
qed (rule ParseApplicationStatus_Inr ParseApplicationStatus_msg)+

text \<open>The card status message, whose life cycle state has the two-byte tag 0x9F70.\<close>

definition card_status_msg :: "bytes \<Rightarrow> bytes \<Rightarrow> bytes" where
  "card_status_msg aid lc = tlv_enc (TagGetStatusTemplate, tlv_enc (0x4F, aid) @ 0x9F # tlv_enc (0x70, lc))"

lemma SkipPrimitive_enc:
  assumes "length v < 2 ^ 32"
  shows "SkipPrimitive (reader_at us (tlv_enc (t, v) @ rest)) = (Inr (), reader_at (us @ tlv_enc (t, v)) rest)"
proof -
  have "ber_length (ber_enc (length v) @ v @ rest) = Some (length v, v @ rest)"
    using assms by (simp add: ber_length_enc)
  then have "ReadLength (reader_at (us @ [t]) (ber_enc (length v) @ v @ rest)) =
      (Inr (of_nat (length v)), reader_at ((us @ [t]) @ ber_enc (length v)) (v @ rest))"
    using ReadLength_at [of "us @ [t]" "ber_enc (length v) @ v @ rest"] by auto
  moreover have "unat (of_nat (length v) :: u32) = length v"
    using assms by (simp add: unat_of_nat)
  moreover have "Skip (of_nat (length v)) (reader_at ((us @ [t]) @ ber_enc (length v)) (v @ rest)) =
      (Inr (), reader_at (us @ tlv_enc (t, v)) rest)"
    using calculation(2) by (simp add: Skip_def has_def reader_at_def tlv_enc_def)
  ultimately show ?thesis
    by (simp add: SkipPrimitive_def ReadTag_at tlv_enc_def)
qed

text \<open>\<open>ParseCardStatus\<close> reads the life cycle byte out of the documented message whatever the
  AID before it, and rejects a life cycle value that is not one byte.\<close>

theorem ParseCardStatus_msg:
  assumes "short (Some aid)" "short (Some lc)"
  shows "ParseCardStatus (card_status_msg aid lc) =
     (if length lc = 1 then Inr \<lparr>csLc = hd lc\<rparr> else Inl (InvalidLifeCycleValue lc))"
proof -
  let ?tpl = "tlv_enc (0x4F, aid) @ 0x9F # tlv_enc (0x70, lc)"
  have l: "length aid < 2 ^ 32" "length lc < 2 ^ 32" and tl: "length ?tpl < 2 ^ 32"
    using assms length_tlv_enc_le [of "0x4F" aid] length_tlv_enc_le [of "0x70" lc] by (simp_all add: short_def)
  have tpl: "ReadPrimitive 0xE3 (reader_at [] (tlv_enc (0xE3, ?tpl))) =
      (Inr ?tpl, reader_at (tlv_enc (0xE3, ?tpl)) [])"
    using ReadPrimitive_enc [OF tl, of "0xE3" "[]" "[]"] by simp
  have lc: "ReadPrimitive 0x70 (reader_at us (tlv_enc (0x70, lc))) =
      (Inr lc, reader_at (us @ tlv_enc (0x70, lc)) [])" for us
    using ReadPrimitive_enc [OF l(2), of "0x70" us "[]"] by simp
  have "lc ! 0 = hd lc" if "length lc = 1" using that by (cases lc) auto
  then show ?thesis
    unfolding ParseCardStatus_def card_status_msg_def run_reader_def NewBerTlvReader_at TagGetStatusTemplate_def
    by (simp add: tpl SkipPrimitive_enc [OF l(1)] ReadTag_at lc)
qed

theorem ParseCardStatus_msg_witness:
  "ParseCardStatus (card_status_msg [0xA0, 0, 0] [0x0F]) =
     (if length [0x0F :: byte] = 1 then Inr \<lparr>csLc = hd [0x0F]\<rparr> else Inl (InvalidLifeCycleValue [0x0F]))"
  by (rule ParseCardStatus_msg) (simp_all add: short_def)

end
