(* ===== verification/Apdu.thy ===== *)
theory Apdu
  imports Codec
begin

text \<open>
  Package \<open>apdu\<close> (\<open>apdu/command.go\<close>, \<open>apdu/response.go\<close>, \<open>apdu/utils.go\<close>): command and
  response APDUs, their wire format and the status-word checks. Writing to a
  \<open>bytes.Buffer\<close> never fails, so \<open>Serialize\<close> returns its bytes; the reads of
  \<open>deserialize\<close> from a \<open>bytes.Reader\<close> fail exactly when too few bytes are left.
\<close>

section \<open>Commands\<close>

record command =
  Cla :: byte
  Ins :: byte
  P1 :: byte
  P2 :: byte
  CData :: bytes
  CLe :: byte
  requiresLe :: bool

definition NewCommand :: "byte \<Rightarrow> byte \<Rightarrow> byte \<Rightarrow> byte \<Rightarrow> bytes \<Rightarrow> command" where
  "NewCommand cla ins p1 p2 data =
     \<lparr>Cla = cla, Ins = ins, P1 = p1, P2 = p2, CData = data, CLe = 0, requiresLe = False\<rparr>"

definition SetLe :: "byte \<Rightarrow> command \<Rightarrow> command" where
  "SetLe le c = c\<lparr>requiresLe := True, CLe := le\<rparr>"

definition Le :: "command \<Rightarrow> bool \<times> byte" where
  "Le c = (requiresLe c, CLe c)"

definition Serialize :: "command \<Rightarrow> bytes" where
  "Serialize c =
     [Cla c, Ins c, P1 c, P2 c]
     @ (if 0 < length (CData c) then of_nat (length (CData c)) # CData c else [])
     @ (if requiresLe c then [CLe c] else [])"

definition command_deserialize :: "bytes \<Rightarrow> command \<Rightarrow> command res" where
  "command_deserialize data c =
     (if length data < 4 then Inl BadRawCommand
      else
        let c = c\<lparr>Cla := data ! 0, Ins := data ! 1, P1 := data ! 2, P2 := data ! 3\<rparr>;
            rest = drop 4 data
        in case rest of
             [] \<Rightarrow> Inr c
           | lc # rest \<Rightarrow>
               if length rest < unat lc then Inr c
               else
                 let c = c\<lparr>CData := take (unat lc) rest\<rparr>
                 in case drop (unat lc) rest of
                      [] \<Rightarrow> Inr c
                    | le # _ \<Rightarrow> Inr (SetLe le c))"

definition ParseCommand :: "bytes \<Rightarrow> command res" where
  "ParseCommand raw = command_deserialize raw (NewCommand 0 0 0 0 [])"

section \<open>Responses\<close>

record response =
  RData :: bytes
  Sw1 :: byte
  Sw2 :: byte
  Sw :: u16

definition SwOK :: u16 where [simp]: "SwOK = 0x9000"

definition ParseResponse :: "bytes \<Rightarrow> response res" where
  "ParseResponse data =
     (if length data < 2 then Inl BadRawResponse
      else
        let n = length data - 2; s1 = data ! n; s2 = data ! (n + 1)
        in Inr \<lparr>RData = take n data, Sw1 = s1, Sw2 = s2, Sw = push_bit 8 (ucast s1) OR ucast s2\<rparr>)"

definition IsOK :: "response \<Rightarrow> bool" where
  "IsOK r \<longleftrightarrow> Sw r = SwOK"

definition Response_CheckOK :: "response \<Rightarrow> unit res" where
  "Response_CheckOK r = (if Sw r = SwOK then Inr () else Inl (BadResponse (Sw r)))"

definition CheckSW :: "u16 list \<Rightarrow> response \<Rightarrow> unit res" where
  "CheckSW codes r = (if \<exists>code \<in> set codes. Sw r = code then Inr () else Inl (BadResponse (Sw r)))"

text \<open>\<open>apdu.CheckOK(resp, err, allowed...)\<close>: the response and the error of a call as one
  result.\<close>

definition CheckOK :: "response res \<Rightarrow> u16 list \<Rightarrow> unit res" where
  "CheckOK r allowed =
     (case r of
        Inl e \<Rightarrow> Inl e
      | Inr resp \<Rightarrow>
          let allowed = (if length allowed = 0 then [SwOK] else allowed)
          in if \<exists>code \<in> set allowed. code = Sw resp then Inr () else Inl (BadResponse (Sw resp)))"

lemma CheckOK_Inl [simp]: "CheckOK (Inl e) allowed = Inl e"
  by (simp add: CheckOK_def)

lemma CheckOK_Inr_iff [returns_iff]:
  "CheckOK r [] = Inr u \<longleftrightarrow> (\<exists>resp. r = Inr resp \<and> Sw resp = SwOK)"
  by (cases r) (auto simp: CheckOK_def)

lemma CheckOK_default: "CheckOK (Inr resp) [] = Response_CheckOK resp"
  by (auto simp: CheckOK_def Response_CheckOK_def)

section \<open>Wire format\<close>

lemma unat_of_nat_small [simp]: "n < 256 \<Longrightarrow> unat (of_nat n :: byte) = n"
  by (simp add: unat_of_nat)

text \<open>A command without Le does not carry one in the struct either.\<close>

definition command_wf :: "command \<Rightarrow> bool" where
  "command_wf c \<longleftrightarrow> length (CData c) < 256 \<and> (\<not> requiresLe c \<longrightarrow> CLe c = 0)"

lemma command_wf_NewCommand [simp]: "length data < 256 \<Longrightarrow> command_wf (NewCommand cla ins p1 p2 data)"
  by (simp add: command_wf_def NewCommand_def)

lemma command_wf_SetLe [simp]: "command_wf c \<Longrightarrow> command_wf (SetLe le c)"
  by (simp add: command_wf_def SetLe_def)

lemma ParseCommand_header:
  "ParseCommand (a # b # c # d # rest) = command_deserialize (a # b # c # d # rest) (NewCommand a b c d [])"
  by (simp add: ParseCommand_def command_deserialize_def NewCommand_def Let_def)

lemma length_Serialize:
  "length (Serialize c) = 4 + (if CData c = [] then 0 else 1 + length (CData c)) + of_bool (requiresLe c)"
  by (simp add: Serialize_def)

lemma ParseCommand_Serialize_wf:
  "command_wf c \<Longrightarrow> CData c \<noteq> [] \<or> \<not> requiresLe c \<Longrightarrow> ParseCommand (Serialize c) = Inr c"
  by (cases c) (auto simp: Serialize_def ParseCommand_def command_deserialize_def NewCommand_def
      SetLe_def command_wf_def Let_def)

text \<open>
  C31. Parsing a serialised command gives the command back, for every command whose data fits
  one length byte and that is not an ISO case-2 command (no data, but an expected length).
\<close>

theorem ParseCommand_Serialize:
  assumes "command_wf c" and "CData c \<noteq> [] \<or> \<not> requiresLe c"
  shows "ParseCommand (Serialize c) = Inr c"
  using assms by (rule ParseCommand_Serialize_wf)

theorem ParseCommand_Serialize_witness:
  "ParseCommand (Serialize (SetLe 0x77 (NewCommand 0x80 0x50 1 2 [0x84, 0x76])))
    = Inr (SetLe 0x77 (NewCommand 0x80 0x50 1 2 [0x84, 0x76]))"
  by (rule ParseCommand_Serialize) (simp_all add: command_wf_def NewCommand_def SetLe_def)

text \<open>
  The excluded case: of a case-2 command (no data, Le set, as SELECT without AID or GET
  RESPONSE) the parser reads Le as a data length and returns the command without its Le,
  and no error.
\<close>

theorem ParseCommand_case2:
  assumes "CData c = []" and "requiresLe c"
  shows "ParseCommand (Serialize c) = Inr (c\<lparr>requiresLe := False, CLe := 0\<rparr>)"
  using assms
  by (cases c) (auto simp: Serialize_def ParseCommand_def command_deserialize_def NewCommand_def
      SetLe_def Let_def)

theorem ParseCommand_case2_witness:
  "ParseCommand (Serialize (SetLe 5 (NewCommand 0 0xC0 0 0 []))) = Inr (NewCommand 0 0xC0 0 0 [])"
  using ParseCommand_case2 [of "SetLe 5 (NewCommand 0 0xC0 0 0 [])"]
  by (simp add: NewCommand_def SetLe_def)

text \<open>A truncated command is accepted too: its data field is dropped without an error.\<close>

lemma ParseCommand_truncated:
  "length data < unat lc \<Longrightarrow> ParseCommand (a # b # c # d # lc # data) = Inr (NewCommand a b c d [])"
  by (simp add: ParseCommand_header command_deserialize_def NewCommand_def Let_def)

text \<open>Only inputs shorter than a header are refused.\<close>

lemma ParseCommand_error_iff: "(\<exists>e. ParseCommand raw = Inl e) \<longleftrightarrow> length raw < 4"
  by (auto simp: ParseCommand_def command_deserialize_def Let_def split: list.splits)

text \<open>
  Serialisation does not check that the data fits: with 256 bytes or more the length byte
  wraps, and what a receiver parses is cut to the length modulo 256, the next data byte being
  taken for Le.
\<close>

theorem Serialize_overlong_data:
  assumes "256 \<le> length (CData c)"
  shows "\<exists>c'. ParseCommand (Serialize c) = Inr c' \<and>
    CData c' = take (length (CData c) mod 256) (CData c) \<and>
    requiresLe c' \<and> CLe c' = CData c ! (length (CData c) mod 256)"
proof -
  let ?d = "CData c" let ?n = "length (CData c) mod 256"
  have n: "?n < length ?d" "unat (of_nat (length ?d) :: byte) = ?n"
    using assms less_le_trans [OF mod_less_divisor assms] by simp_all
  have nonempty: "?d \<noteq> []" using assms by auto
  obtain rest where rest: "drop ?n (?d @ (if requiresLe c then [CLe c] else [])) = ?d ! ?n # rest"
    using n(1) by (simp add: drop_nth_Cons)
  show ?thesis
    using n rest nonempty
    by (simp add: Serialize_def ParseCommand_header command_deserialize_def Let_def SetLe_def)
qed

theorem Serialize_overlong_data_witness:
  "\<exists>c'. ParseCommand (Serialize (NewCommand 0x80 0xE2 0 0 (replicate 300 7))) = Inr c' \<and> length (CData c') = 44"
  using Serialize_overlong_data [of "NewCommand 0x80 0xE2 0 0 (replicate 300 7)"]
  by (auto simp: NewCommand_def)

text \<open>
  A response is split into its data and its status word, for every input of two bytes or
  more, and shorter inputs are the only ones refused.
\<close>

theorem ParseResponse_spec:
  "ParseResponse (d @ [s1, s2]) = Inr \<lparr>RData = d, Sw1 = s1, Sw2 = s2, Sw = word_cat s1 s2\<rparr>
   \<and> ((\<exists>e. ParseResponse raw = Inl e) = (length raw < 2))"
  by (simp add: ParseResponse_def Let_def nth_append word_cat_eq_push_bit_or)

lemma ParseResponse_snoc [simp]:
  "ParseResponse (d @ [s1, s2]) = Inr \<lparr>RData = d, Sw1 = s1, Sw2 = s2, Sw = push_bit 8 (ucast s1) OR ucast s2\<rparr>"
  by (simp add: ParseResponse_def Let_def nth_append)

text \<open>The bytes a response was parsed from.\<close>

definition response_bytes :: "response \<Rightarrow> bytes" where
  "response_bytes r = RData r @ [Sw1 r, Sw2 r]"

definition response_wf :: "response \<Rightarrow> bool" where
  "response_wf r \<longleftrightarrow> Sw r = push_bit 8 (ucast (Sw1 r)) OR ucast (Sw2 r)"

lemma ParseResponse_bytes: "response_wf r \<Longrightarrow> ParseResponse (response_bytes r) = Inr r"
  by (cases r) (simp add: response_wf_def response_bytes_def)

lemma ParseResponse_Inr:
  "ParseResponse raw = Inr r \<Longrightarrow> response_wf r \<and> response_bytes r = raw"
proof -
  assume r: "ParseResponse raw = Inr r"
  then have len: "2 \<le> length raw" by (simp add: ParseResponse_def split: if_splits)
  from snoc2_exhaust [OF this] obtain d s1 s2 where "raw = d @ [s1, s2]" by blast
  with r show ?thesis by (auto simp: response_wf_def response_bytes_def)
qed

section \<open>Transport\<close>

text \<open>A response with its status word, as a card builds it.\<close>

definition with_status :: "bytes \<Rightarrow> byte \<Rightarrow> byte \<Rightarrow> response" where
  "with_status data s1 s2 = \<lparr>RData = data, Sw1 = s1, Sw2 = s2, Sw = push_bit 8 (ucast s1) OR ucast s2\<rparr>"

lemma with_status_OK [simp]: "Sw (with_status data 0x90 0) = 0x9000" "RData (with_status data s1 s2) = data"
  by (simp_all add: with_status_def)

text \<open>A command travels over the wire: it is serialised and parsed. With data of at most 255 bytes it
  arrives as it was.\<close>

definition over_wire :: "command \<Rightarrow> command option" where
  "over_wire cmd = (case ParseCommand (Serialize cmd) of Inl _ \<Rightarrow> None | Inr c \<Rightarrow> Some c)"

lemma over_wire_wf: "command_wf c \<Longrightarrow> CData c \<noteq> [] \<Longrightarrow> over_wire c = Some c"
  using ParseCommand_Serialize_wf [of c] by (simp add: over_wire_def)

lemma over_wire_NewCommand:
  "data \<noteq> [] \<Longrightarrow> length data < 256 \<Longrightarrow> over_wire (NewCommand cla ins p1 p2 data) = Some (NewCommand cla ins p1 p2 data)"
  by (rule over_wire_wf) (simp_all add: NewCommand_def command_wf_def)

end
