(* ===== verification/Constants.thy ===== *)
theory Constants
  imports Apdu
begin

text \<open>
  \<open>constants.go\<close> and the class bytes of \<open>globalplatform/commands.go\<close>: instruction codes,
  parameter values, sizes, AIDs and path prefixes. Numeric constants are unfolded by the simplifier.
\<close>

definition ClaISO7816 :: byte where [simp]: "ClaISO7816 = 0x00"
definition ClaGp :: byte where [simp]: "ClaGp = 0x80"
definition ClaMac :: byte where [simp]: "ClaMac = 0x84"

section \<open>Instructions\<close>

definition InsInit :: byte where [simp]: "InsInit = 0xFE"
definition InsFactoryReset :: byte where [simp]: "InsFactoryReset = 0xFD"
definition InsGetStatus :: byte where [simp]: "InsGetStatus = 0xF2"
definition InsSetNDEF :: byte where [simp]: "InsSetNDEF = 0xF3"
definition InsIdentify :: byte where [simp]: "InsIdentify = 0x14"
definition InsVerifyPIN :: byte where [simp]: "InsVerifyPIN = 0x20"
definition InsChangePIN :: byte where [simp]: "InsChangePIN = 0x21"
definition InsUnblockPIN :: byte where [simp]: "InsUnblockPIN = 0x22"
definition InsLoadKey :: byte where [simp]: "InsLoadKey = 0xD0"
definition InsDeriveKey :: byte where [simp]: "InsDeriveKey = 0xD1"
definition InsGenerateMnemonic :: byte where [simp]: "InsGenerateMnemonic = 0xD2"
definition InsRemoveKey :: byte where [simp]: "InsRemoveKey = 0xD3"
definition InsGenerateKey :: byte where [simp]: "InsGenerateKey = 0xD4"
definition InsSign :: byte where [simp]: "InsSign = 0xC0"
definition InsSetPinlessPath :: byte where [simp]: "InsSetPinlessPath = 0xC1"
definition InsExportKey :: byte where [simp]: "InsExportKey = 0xC2"
definition InsExportLEE :: byte where [simp]: "InsExportLEE = 0xC3"
definition InsExportBIP85 :: byte where [simp]: "InsExportBIP85 = 0xC4"
definition InsECDH :: byte where [simp]: "InsECDH = 0xC5"
definition InsGetData :: byte where [simp]: "InsGetData = 0xCA"
definition InsStoreData :: byte where [simp]: "InsStoreData = 0xE2"
definition InsGetChallenge :: byte where [simp]: "InsGetChallenge = 0x84"
definition InsOpenSecureChannel :: byte where [simp]: "InsOpenSecureChannel = 0x10"
definition InsMutuallyAuthenticate :: byte where [simp]: "InsMutuallyAuthenticate = 0x11"
definition InsPair :: byte where [simp]: "InsPair = 0x12"
definition InsUnpair :: byte where [simp]: "InsUnpair = 0x13"
definition InsSecuredAPDU :: byte where [simp]: "InsSecuredAPDU = 0x18"

section \<open>Parameters\<close>

definition P1ChangePinPIN :: byte where [simp]: "P1ChangePinPIN = 0x00"
definition P1ChangePinPUK :: byte where [simp]: "P1ChangePinPUK = 0x01"
definition P1ChangePinPairingSecret :: byte where [simp]: "P1ChangePinPairingSecret = 0x02"
definition P1GetStatusApplication :: byte where [simp]: "P1GetStatusApplication = 0x00"
definition P1GetStatusKeyPath :: byte where [simp]: "P1GetStatusKeyPath = 0x01"
definition P1LoadKeyEC :: byte where [simp]: "P1LoadKeyEC = 0x01"
definition P1LoadKeyECExtended :: byte where [simp]: "P1LoadKeyECExtended = 0x02"
definition P1LoadKeySeed :: byte where [simp]: "P1LoadKeySeed = 0x03"
definition P1LoadKeyLEE :: byte where [simp]: "P1LoadKeyLEE = 0x04"
definition P1DeriveKeyFromMaster :: byte where [simp]: "P1DeriveKeyFromMaster = 0x00"
definition P1DeriveKeyFromParent :: byte where [simp]: "P1DeriveKeyFromParent = 0x40"
definition P1DeriveKeyFromCurrent :: byte where [simp]: "P1DeriveKeyFromCurrent = 0x80"
definition P1SignCurrentKey :: byte where [simp]: "P1SignCurrentKey = 0x00"
definition P1SignDerive :: byte where [simp]: "P1SignDerive = 0x01"
definition P1SignDeriveAndMakeCurrent :: byte where [simp]: "P1SignDeriveAndMakeCurrent = 0x02"
definition P1SignPinless :: byte where [simp]: "P1SignPinless = 0x03"
definition P2SignECDSA :: byte where [simp]: "P2SignECDSA = 0x00"
definition P2SignEdDSAEd25519 :: byte where [simp]: "P2SignEdDSAEd25519 = 0x01"
definition P2SignBLS12_381 :: byte where [simp]: "P2SignBLS12_381 = 0x02"
definition P2SignBIP340Schnorr :: byte where [simp]: "P2SignBIP340Schnorr = 0x03"
definition P1StoreDataPublic :: byte where [simp]: "P1StoreDataPublic = 0x00"
definition P1StoreDataNDEF :: byte where [simp]: "P1StoreDataNDEF = 0x01"
definition P1StoreDataCash :: byte where [simp]: "P1StoreDataCash = 0x02"
definition P1ExportKeyCurrent :: byte where [simp]: "P1ExportKeyCurrent = 0x00"
definition P1ExportKeyDerive :: byte where [simp]: "P1ExportKeyDerive = 0x01"
definition P1ExportKeyDeriveAndMakeCurrent :: byte where [simp]: "P1ExportKeyDeriveAndMakeCurrent = 0x02"
definition P2ExportKeyPrivateAndPublic :: byte where [simp]: "P2ExportKeyPrivateAndPublic = 0x00"
definition P2ExportKeyPublicOnly :: byte where [simp]: "P2ExportKeyPublicOnly = 0x01"
definition P2ExportKeyExtendedPublic :: byte where [simp]: "P2ExportKeyExtendedPublic = 0x02"
definition P2ECDHRawSecret :: byte where [simp]: "P2ECDHRawSecret = 0x00"
definition P1PairingFirstStep :: byte where [simp]: "P1PairingFirstStep = 0x00"
definition P1PairingFinalStep :: byte where [simp]: "P1PairingFinalStep = 0x01"
definition P2PairAny :: byte where [simp]: "P2PairAny = 0x00"
definition P2PairEphemeral :: byte where [simp]: "P2PairEphemeral = 0x01"
definition P2PairPersistent :: byte where [simp]: "P2PairPersistent = 0x02"
definition P1FactoryResetMagic :: byte where [simp]: "P1FactoryResetMagic = 0xAA"
definition P2FactoryResetMagic :: byte where [simp]: "P2FactoryResetMagic = 0x55"

section \<open>Sizes and other values\<close>

definition NDEFMaxChunkSize :: nat where [simp]: "NDEFMaxChunkSize = 220"
definition PairingMaxClientCount :: nat where [simp]: "PairingMaxClientCount = 5"
definition UncompressedPointTag :: byte where [simp]: "UncompressedPointTag = 0x04"
definition Secp256k1UncompressedPubKeySize :: nat where [simp]: "Secp256k1UncompressedPubKeySize = 65"
definition MnemonicPBKDF2Iterations :: nat where [simp]: "MnemonicPBKDF2Iterations = 2048"
definition SwNoAvailablePairingSlots :: u16 where [simp]: "SwNoAvailablePairingSlots = 0x6A84"
definition SwSecurityConditionNotSatisfied :: u16 where [simp]: "SwSecurityConditionNotSatisfied = 0x6982"

definition PairingPasswordSalt :: bytes where "PairingPasswordSalt = str_bytes ''Keycard Pairing Password Salt''"
definition MnemonicSeedPrefix :: bytes where "MnemonicSeedPrefix = str_bytes ''mnemonic''"
definition BIP32HMACKey :: bytes where "BIP32HMACKey = str_bytes ''Bitcoin seed''"

definition DefaultCAPublicKey :: bytes where
  "DefaultCAPublicKey =
    [0x02, 0x9a, 0xb9, 0x9e, 0xe1, 0xe7, 0xa7, 0x1b, 0xdf, 0x45, 0xb3, 0xf9, 0xc5, 0x8c, 0x99,
     0x86, 0x6f, 0xf1, 0x29, 0x4d, 0x2c, 0x1e, 0x30, 0x4e, 0x22, 0x8a, 0x86, 0xe1, 0x0c,
     0x33, 0x43, 0x50, 0x1c]"

definition P1GenerateMnemonicWords12 :: byte where [simp]: "P1GenerateMnemonicWords12 = 4"
definition P1GenerateMnemonicWords15 :: byte where [simp]: "P1GenerateMnemonicWords15 = 5"
definition P1GenerateMnemonicWords18 :: byte where [simp]: "P1GenerateMnemonicWords18 = 6"
definition P1GenerateMnemonicWords21 :: byte where [simp]: "P1GenerateMnemonicWords21 = 7"
definition P1GenerateMnemonicWords24 :: byte where [simp]: "P1GenerateMnemonicWords24 = 8"

definition NIP44Prefix :: bytes where
  "NIP44Prefix = [0x80, 0x00, 0x00, 0x2C, 0x80, 0x00, 0x04, 0xD5]"

definition EIP1581Prefix :: bytes where
  "EIP1581Prefix = [0x80, 0x00, 0x00, 0x2B, 0x80, 0x00, 0x00, 0x3C, 0x80, 0x00, 0x06, 0x2D]"

definition PackageAID :: bytes where "PackageAID = [0xA0, 0x00, 0x00, 0x08, 0x04, 0x00, 0x01]"
definition KeycardAID :: bytes where "KeycardAID = [0xA0, 0x00, 0x00, 0x08, 0x04, 0x00, 0x01, 0x01]"
definition NDEFAID :: bytes where "NDEFAID = [0xA0, 0x00, 0x00, 0x08, 0x04, 0x00, 0x01, 0x02]"
definition NDEFInstanceAID :: bytes where "NDEFInstanceAID = [0xD2, 0x76, 0x00, 0x00, 0x85, 0x01, 0x01]"
definition KeycardDefaultInstanceIdx :: byte where [simp]: "KeycardDefaultInstanceIdx = 1"

definition KeycardInstanceAID :: "byte \<Rightarrow> bytes res" where
  "KeycardInstanceAID instanceIdx =
     (if instanceIdx = 0 then Inl (Panic ''instance index must be between 1 and 255'')
      else Inr (KeycardAID @ [instanceIdx]))"

datatype SecureChannelVersion = VersionV1 | VersionV2

end
