(* ===== verification/Secure_Channel.thy ===== *)
theory Secure_Channel
  imports Constants Primitives
begin

text \<open>
  What the code is run in, and the interface \<open>SecureChannel\<close> of \<open>secure_channel.go\<close> as its
  clients use it. The environment has the card transport (\<open>types.Channel\<close>), the random source
  and key generation as operations on a world of their own; a stateful object runs beside it,
  in the state \<open>object \<times> world\<close>.
\<close>

section \<open>The environment\<close>

record ('w, 'sk) env =
  env_send :: "command \<Rightarrow> ('w, response) st"   \<comment> \<open>\<open>types.Channel.Send\<close>\<close>
  env_rand :: "nat \<Rightarrow> ('w, bytes) st"          \<comment> \<open>\<open>rand.Read\<close> into a buffer\<close>
  env_key :: "('w, 'sk) st"                    \<comment> \<open>\<open>GenerateKey\<close>\<close>

text \<open>\<open>rand.Read\<close> fills the whole buffer unless it fails.\<close>

definition rand_ok :: "('w, 'sk) env \<Rightarrow> bool" where
  "rand_ok env \<longleftrightarrow> (\<forall>n w bs w'. env_rand env n w = (Inr bs, w') \<longrightarrow> length bs = n)"

text \<open>A concrete environment, for witnesses: a card that always answers 9000, zero bytes.\<close>

definition toy_env :: "(unit, unit) env" where
  "toy_env = \<lparr>env_send = (\<lambda>_. returnS \<lparr>RData = [], Sw1 = 0x90, Sw2 = 0, Sw = 0x9000\<rparr>),
     env_rand = (\<lambda>n. returnS (replicate n 0)), env_key = returnS ()\<rparr>"

definition localS :: "('c, 'a) st \<Rightarrow> ('c \<times> 'w, 'a) st" where
  "localS m = (\<lambda>(c, w). let (r, c') = m c in (r, c', w))"

definition worldS :: "('w, 'a) st \<Rightarrow> ('c \<times> 'w, 'a) st" where
  "worldS m = (\<lambda>(c, w). let (r, w') = m w in (r, c, w'))"

definition getS :: "('c \<Rightarrow> ('c \<times> 'w, 'a) st) \<Rightarrow> ('c \<times> 'w, 'a) st" where
  "getS f = (\<lambda>s. f (fst s) s)"

lemma localS_apply [simp]: "localS m (c, w) = (fst (m c), snd (m c), w)"
  by (simp add: localS_def split_def Let_def)

lemma worldS_apply [simp]: "worldS m (c, w) = (fst (m w), c, snd (m w))"
  by (simp add: worldS_def split_def Let_def)

lemma getS_apply [simp]: "getS f (c, w) = f c (c, w)"
  by (simp add: getS_def)

text \<open>An invariant of the object alone, kept whatever the environment does.\<close>

definition keepsL :: "('c \<Rightarrow> bool) \<Rightarrow> ('c \<times> 'w, 'a) st \<Rightarrow> bool" where
  "keepsL P m \<longleftrightarrow> keeps (\<lambda>s. P (fst s)) m"

named_theorems keepsL_intros

lemma keepsL_local [keepsL_intros]: "keeps P m \<Longrightarrow> keepsL P (localS m)"
  by (simp add: keepsL_def keeps_def)

lemma keepsL_world [keepsL_intros]: "keepsL P (worldS m)"
  by (simp add: keepsL_def keeps_def)

lemma keepsL_basic [keepsL_intros]: "keepsL P (returnS x)" "keepsL P (failS e)" "keepsL P (liftS r)"
  by (simp_all add: keepsL_def keeps_def)

lemma keepsL_bind [keepsL_intros]: "keepsL P m \<Longrightarrow> (\<And>x. keepsL P (f x)) \<Longrightarrow> keepsL P (bindS m f)"
  unfolding keepsL_def by (rule keeps_bindS)

lemma keepsL_wrap [keepsL_intros]: "keepsL P m \<Longrightarrow> keepsL P (wrapS e m)"
  by (simp add: keepsL_def keeps_def)

lemma keepsL_get [keepsL_intros]: "(\<And>c. keepsL P (f c)) \<Longrightarrow> keepsL P (getS f)"
  by (auto simp: keepsL_def keeps_def)

lemma keepsL_if [keepsL_intros]: "keepsL P m \<Longrightarrow> keepsL P n \<Longrightarrow> keepsL P (if b then m else n)"
  by simp

lemma keepsL_option [keepsL_intros]:
  "keepsL P m \<Longrightarrow> (\<And>x. keepsL P (f x)) \<Longrightarrow> keepsL P (case v of None \<Rightarrow> m | Some x \<Rightarrow> f x)"
  by (simp split: option.split)

lemma keepsL_prod [keepsL_intros]: "(\<And>x y. keepsL P (f x y)) \<Longrightarrow> keepsL P (case v of (x, y) \<Rightarrow> f x y)"
  by (simp split: prod.split)

lemma keepsL_let [keepsL_intros]: "(\<And>x. keepsL P (f x)) \<Longrightarrow> keepsL P (let x = v in f x)"
  by simp

section \<open>Calls that check their response\<close>

text \<open>\<open>resp, err := m; apdu.CheckOK(resp, err, allowed...)\<close>, keeping the response.\<close>

definition checked :: "u16 list \<Rightarrow> ('s, response) st \<Rightarrow> ('s, response) st" where
  "checked allowed m = (\<lambda>s. let (r, s') = m s in (bindE (CheckOK r allowed) (\<lambda>_. r), s'))"

definition ignore :: "('s, 'a) st \<Rightarrow> ('s, unit) st" where
  "ignore m = bindS m (\<lambda>_. returnS ())"

lemma checked_Inr_iff [returns_iff]:
  "checked [] m s = (Inr r, s') \<longleftrightarrow> m s = (Inr r, s') \<and> Sw r = SwOK"
  by (cases "m s") (auto simp: checked_def returns_iff CheckOK_def Let_def split: sum.splits)

lemma keepsL_checked [keepsL_intros]: "keepsL P m \<Longrightarrow> keepsL P (checked allowed m)"
  by (simp add: keepsL_def keeps_def checked_def split_def Let_def)

lemma keepsL_ignore [keepsL_intros]: "keepsL P m \<Longrightarrow> keepsL P (ignore m)"
  unfolding ignore_def by (intro keepsL_intros)

section \<open>Protected exchanges\<close>

text \<open>
  \<open>Transmit\<close> sends a command and hands what comes back, response or error, to the channel;
  an exchange is \<open>ProtectedCommand\<close> followed by \<open>Transmit\<close>.
\<close>

definition transmit_via ::
  "(response res \<Rightarrow> ('c, response) st) \<Rightarrow> ('w, 'sk) env \<Rightarrow> command \<Rightarrow> ('c \<times> 'w, response) st" where
  "transmit_via receive env cmd = (\<lambda>(c, w).
     let (r, w') = env_send env cmd w; (x, c') = receive r c in (x, c', w'))"

definition exchange_via ::
  "(byte \<Rightarrow> byte \<Rightarrow> byte \<Rightarrow> byte \<Rightarrow> bytes \<Rightarrow> ('c, command) st) \<Rightarrow> (response res \<Rightarrow> ('c, response) st)
    \<Rightarrow> ('w, 'sk) env \<Rightarrow> byte \<Rightarrow> byte \<Rightarrow> byte \<Rightarrow> byte \<Rightarrow> bytes \<Rightarrow> ('c \<times> 'w, response) st" where
  "exchange_via protect receive env cla ins p1 p2 data =
     bindS (localS (protect cla ins p1 p2 data)) (transmit_via receive env)"

lemma transmit_via_apply:
  "transmit_via receive env cmd (c, w) =
     (fst (receive (fst (env_send env cmd w)) c), snd (receive (fst (env_send env cmd w)) c), snd (env_send env cmd w))"
  by (simp add: transmit_via_def split_def Let_def)

lemma keepsL_transmit [keepsL_intros]: "(\<And>r. keeps P (receive r)) \<Longrightarrow> keepsL P (transmit_via receive env cmd)"
  by (auto simp: keepsL_def keeps_def transmit_via_apply)

lemma keepsL_exchange [keepsL_intros]:
  "(\<And>a b c d e. keeps P (protect a b c d e)) \<Longrightarrow> (\<And>r. keeps P (receive r)) \<Longrightarrow>
   keepsL P (exchange_via protect receive env cla ins p1 p2 data)"
  unfolding exchange_via_def by (intro keepsL_intros)

text \<open>
  What a client of a channel relies on: neither operation opens it; a transport error is
  returned and closes it; a closed channel that does not refuse a command leaves it and its
  response as they are.
\<close>

locale secure_channel =
  fixes protect :: "byte \<Rightarrow> byte \<Rightarrow> byte \<Rightarrow> byte \<Rightarrow> bytes \<Rightarrow> ('c, command) st"
    and receive :: "response res \<Rightarrow> ('c, response) st"
    and is_open :: "'c \<Rightarrow> bool"
  assumes protect_not_opens: "\<not> is_open c \<Longrightarrow> \<not> is_open (snd (protect cla ins p1 p2 data c))"
    and protect_closed: "\<not> is_open c \<Longrightarrow> protect cla ins p1 p2 data c = (Inr cmd, c') \<Longrightarrow>
           cmd = NewCommand cla ins p1 p2 data"
    and receive_error: "\<exists>c'. receive (Inl e) c = (Inl e, c') \<and> \<not> is_open c'"
    and receive_closed: "\<not> is_open c \<Longrightarrow> \<exists>c'. receive (Inr r) c = (Inr r, c') \<and> \<not> is_open c'"
begin

lemma receive_not_opens: "\<not> is_open c \<Longrightarrow> \<not> is_open (snd (receive r c))"
  using receive_error [of _ c] receive_closed [of c] by (cases r) (metis snd_conv)+

lemma keeps_closed:
  "keepsL (\<lambda>c. \<not> is_open c) (exchange_via protect receive env cla ins p1 p2 data)"
  by (intro keepsL_exchange keepsI) (simp_all add: protect_not_opens receive_not_opens)

text \<open>A transport error reaches the caller and closes the channel.\<close>

lemma exchange_send_error:
  assumes "protect cla ins p1 p2 data c = (Inr cmd, c1)" "env_send env cmd w = (Inl e, w')"
  shows "\<exists>c'. exchange_via protect receive env cla ins p1 p2 data (c, w) = (Inl e, c', w') \<and> \<not> is_open c'"
  using receive_error [of e c1] assms by (auto simp: exchange_via_def transmit_via_apply)

text \<open>On a closed channel an exchange is refused, or it is the plain exchange.\<close>

lemma exchange_closed:
  assumes "\<not> is_open c"
  shows "(\<exists>e c'. exchange_via protect receive env cla ins p1 p2 data (c, w) = (Inl e, c', w)) \<or>
    (\<exists>c'. exchange_via protect receive env cla ins p1 p2 data (c, w) =
       (fst (env_send env (NewCommand cla ins p1 p2 data) w), c',
        snd (env_send env (NewCommand cla ins p1 p2 data) w)))"
proof (cases "protect cla ins p1 p2 data c")
  case (Pair x c1)
  have "\<not> is_open c1" using protect_not_opens [OF assms, of cla ins p1 p2 data] Pair by simp
  then have same: "\<exists>c'. receive r c1 = (r, c')" for r
    using receive_closed [of c1] receive_error [of _ c1] by (cases r) blast+
  show ?thesis
  proof (cases x)
    case (Inr cmd)
    then have cmd: "cmd = NewCommand cla ins p1 p2 data" using protect_closed [OF assms] Pair by simp
    obtain c' where "receive (fst (env_send env cmd w)) c1 = (fst (env_send env cmd w), c')" using same by blast
    then show ?thesis using Pair Inr by (simp add: exchange_via_def transmit_via_apply cmd)
  qed (use Pair in \<open>simp add: exchange_via_def\<close>)
qed

end

end
