(* ===== verification/Crypto.thy ===== *)
theory Crypto
  imports Primitives
begin

text \<open>
  \<open>crypto/crypto.go\<close>: ISO 7816-4 padding, AES-CBC encryption of the version-1 secure channel,
  its CBC-MAC in the mutating and the non-mutating form, key derivation and the pairing
  cryptogram.
\<close>

section \<open>Padding\<close>

definition appendPadding :: "nat \<Rightarrow> bytes \<Rightarrow> bytes" where
  "appendPadding blockSize data =
     (let paddingSize = blockSize - length data mod blockSize
      in data @ 0x80 # replicate (paddingSize - 1) 0)"

text \<open>The scan of \<open>removePadding\<close> from index \<open>i\<close> down; the index is a Go \<open>int\<close>.\<close>

function removePadding_from :: "nat \<Rightarrow> bytes \<Rightarrow> int \<Rightarrow> bytes res" where
  "removePadding_from blockSize data i =
     (if int (length data) - int blockSize < i \<and> i < 0 then Inl (Panic ''index out of range'')
      else if int (length data) - int blockSize < i \<and> data ! nat i \<noteq> 0x80
        then removePadding_from blockSize data (i - 1)
      else if i < 0 then Inl (Panic ''slice bounds out of range'')
      else Inr (take (nat i) data))"
  by pat_completeness auto
termination
  by (relation "measure (\<lambda>(bs, data, i). nat (i - (int (length data) - int bs)))") auto

declare removePadding_from.simps [simp del]

definition removePadding :: "nat \<Rightarrow> bytes \<Rightarrow> bytes res" where
  "removePadding blockSize data = removePadding_from blockSize data (int (length data) - 1)"

lemma length_appendPadding:
  "0 < n \<Longrightarrow> length (appendPadding n data) = (length data div n + 1) * n"
proof -
  assume "0 < n"
  then have "length data mod n < n" by simp
  then have "length (appendPadding n data) = length data + (n - length data mod n)"
    by (simp add: appendPadding_def Let_def)
  also have "\<dots> = (length data - length data mod n) + n"
    using \<open>length data mod n < n\<close> mod_less_eq_dividend [of "length data" n] by linarith
  also have "\<dots> = (length data div n + 1) * n"
    by (simp add: minus_mod_eq_div_mult)
  finally show ?thesis .
qed

lemma dvd_length_appendPadding [simp]: "n dvd length (appendPadding n data)" if "0 < n"
  using that by (simp add: length_appendPadding)

lemma appendPadding_not_Nil [simp]: "appendPadding n data \<noteq> []"
  by (simp add: appendPadding_def Let_def)

lemma removePadding_from_pad:
  assumes "k < bs" "j \<le> k"
  shows "removePadding_from bs (xs @ 0x80 # replicate k 0) (int (length xs + j)) = Inr xs"
  using assms
proof (induction j)
  case 0
  then show ?case by (subst removePadding_from.simps) simp
next
  case (Suc j)
  let ?d = "xs @ 0x80 # replicate k 0"
  have nth: "?d ! (length xs + Suc j) = 0" using Suc by (simp add: nth_append)
  have nat1: "nat (int (length xs + Suc j)) = length xs + Suc j" by (rule nat_int)
  have "removePadding_from bs ?d (int (length xs + Suc j)) = removePadding_from bs ?d (int (length xs + Suc j) - 1)"
    using Suc nth by (subst removePadding_from.simps, simp only: nat1) simp
  also have "int (length xs + Suc j) - 1 = int (length xs + j)" by simp
  finally show ?case using Suc by simp
qed

lemma removePadding_appendPadding:
  assumes "0 < n"
  shows "removePadding n (appendPadding n data) = Inr data"
proof -
  define k where "k = n - length data mod n - 1"
  have "k < n" using assms unfolding k_def by linarith
  moreover have "appendPadding n data = data @ 0x80 # replicate k 0"
    by (simp add: appendPadding_def k_def Let_def)
  ultimately show ?thesis
    using removePadding_from_pad [of k n k data] by (simp add: removePadding_def)
qed

text \<open>On a non-empty whole number of blocks the scan stays inside the last block.\<close>

lemma removePadding_from_total:
  "int n \<le> int (length data) \<Longrightarrow> int (length data) - int n \<le> i \<Longrightarrow> i < int (length data) \<Longrightarrow>
   \<exists>k. removePadding_from n data i = Inr (take k data) \<and> length data - n \<le> k \<and> k < length data"
proof (induction n data i rule: removePadding_from.induct)
  case (1 n data i)
  show ?case
  proof (cases "int (length data) - int n < i \<and> data ! nat i \<noteq> 0x80")
    case True
    with 1 have "removePadding_from n data i = removePadding_from n data (i - 1)"
      by (subst removePadding_from.simps) auto
    moreover have "\<exists>k. removePadding_from n data (i - 1) = Inr (take k data)
        \<and> length data - n \<le> k \<and> k < length data"
      using True 1 by (intro "1.IH") auto
    ultimately show ?thesis by simp
  next
    case False
    with 1 have "removePadding_from n data i = Inr (take (nat i) data)"
      by (subst removePadding_from.simps) auto
    then show ?thesis using 1 by (intro exI [of _ "nat i"]) auto
  qed
qed

lemma removePadding_total:
  assumes "0 < n" "n \<le> length data"
  obtains k where "removePadding n data = Inr (take k data)" "length data - n \<le> k" "k < length data"
  using removePadding_from_total [of n data "int (length data) - 1"] assms
  by (fastforce simp: removePadding_def)

section \<open>AES-CBC\<close>

definition aes_new_cipher :: "bytes \<Rightarrow> unit res" where
  "aes_new_cipher key = guardE (length key \<in> {16, 24, 32}) (External ''crypto/aes: invalid key size'')"

definition EncryptData :: "('sk, 'pk) prims \<Rightarrow> bytes \<Rightarrow> bytes \<Rightarrow> bytes \<Rightarrow> bytes res" where
  "EncryptData P data encKey iv =
     bindE (aes_new_cipher encKey) (\<lambda>_.
     bindE (guardE (length iv = 16) (Msg ''IV must be 16 bytes'')) (\<lambda>_.
     Inr (cbc_encrypt (aesE P encKey) 16 iv (appendPadding 16 data))))"

definition DecryptData :: "('sk, 'pk) prims \<Rightarrow> bytes \<Rightarrow> bytes \<Rightarrow> bytes \<Rightarrow> bytes res" where
  "DecryptData P data encKey iv =
     bindE (aes_new_cipher encKey) (\<lambda>_.
     bindE (guardE (length iv = 16) (Msg ''IV must be 16 bytes'')) (\<lambda>_.
     bindE (guardE (\<not> (length data = 0 \<or> length data mod 16 \<noteq> 0))
              (Msg ''ciphertext must be a non-empty multiple of 16 bytes'')) (\<lambda>_.
     removePadding 16 (cbc_decrypt (aesD P encKey) 16 iv data))))"

text \<open>\<open>rand.Read\<close> fills a buffer of a given length, or fails.\<close>

definition OneShotEncrypt ::
  "('sk, 'pk) prims \<Rightarrow> (nat \<Rightarrow> ('w, bytes) st) \<Rightarrow> bytes \<Rightarrow> bytes \<Rightarrow> bytes \<Rightarrow> ('w, bytes) st" where
  "OneShotEncrypt P rand_read pubKeyData secret data =
     bindS (rand_read 16) (\<lambda>iv.
     liftS (bindE (aes_new_cipher secret) (\<lambda>_.
       let ciphertext = cbc_encrypt (aesE P secret) 16 iv (appendPadding 16 data)
       in Inr (of_nat (length pubKeyData) # pubKeyData @ iv @ ciphertext))))"

lemma length_EncryptData:
  assumes "aes_ok P" "EncryptData P data key iv = Inr c"
  shows "length c = (length data div 16 + 1) * 16"
proof -
  from assms(2) have iv: "length iv = 16" and c: "c = cbc_encrypt (aesE P key) 16 iv (appendPadding 16 data)"
    by (auto simp: EncryptData_def returns_iff)
  have "length c = length (appendPadding 16 data)"
    unfolding c using aes_okD [OF assms(1)] iv by (intro length_cbc_encrypt) simp_all
  then show ?thesis by (simp add: length_appendPadding)
qed

lemma EncryptData_Inr_iff:
  "(\<exists>c. EncryptData P data key iv = Inr c) \<longleftrightarrow> length key \<in> {16, 24, 32} \<and> length iv = 16"
  by (auto simp: EncryptData_def returns_iff aes_new_cipher_def)

lemma DecryptData_of_EncryptData:
  assumes "aes_ok P" "EncryptData P data key iv = Inr c"
  shows "DecryptData P c key iv = Inr data"
proof -
  have k: "length key \<in> {16, 24, 32}" "length iv = 16"
    and c: "c = cbc_encrypt (aesE P key) 16 iv (appendPadding 16 data)"
    using assms(2) by (auto simp: EncryptData_def returns_iff aes_new_cipher_def)
  have "cbc_decrypt (aesD P key) 16 iv c = appendPadding 16 data"
    unfolding c using k(2) aes_okD [OF assms(1)] by (intro cbc_decrypt_encrypt) simp_all
  then show ?thesis
    using k length_EncryptData [OF assms] removePadding_appendPadding [of 16 data]
    by (auto simp: DecryptData_def aes_new_cipher_def)
qed

text \<open>\<open>DecryptData\<close> inverts \<open>EncryptData\<close> for every plaintext, whatever its length and
  final bytes, on every key and IV of a legal size.\<close>

theorem DecryptData_EncryptData:
  assumes "aes_ok P" and "length key \<in> {16, 24, 32}" and "length iv = 16"
  shows "\<exists>c. EncryptData P data key iv = Inr c \<and> length c = (length data div 16 + 1) * 16
           \<and> DecryptData P c key iv = Inr data"
proof -
  obtain c where "EncryptData P data key iv = Inr c" using EncryptData_Inr_iff [of P data key iv] assms(2,3) by auto
  then show ?thesis using length_EncryptData [OF assms(1)] DecryptData_of_EncryptData [OF assms(1)] by blast
qed

theorem DecryptData_EncryptData_witness:
  "\<exists>c. EncryptData toy_prims [1, 0x80, 0] (replicate 16 7) (replicate 16 9) = Inr c
     \<and> length c = (length [1 :: byte, 0x80, 0] div 16 + 1) * 16
     \<and> DecryptData toy_prims c (replicate 16 7) (replicate 16 9) = Inr [1, 0x80, 0]"
  by (rule DecryptData_EncryptData) simp_all

lemma length_cbc_decrypt:
  assumes "0 < n" and D: "\<And>b. length b = n \<Longrightarrow> length (D b) = n"
  shows "length iv = n \<Longrightarrow> n dvd length data \<Longrightarrow> length (cbc_decrypt D n iv data) = length data"
proof (induction iv data rule: cbc_block_induct [of n])
  case (short iv data)
  then show ?case using dvd_imp_le [of n "length data"] by auto
next
  case (block iv data)
  from block have "n dvd length (drop n data)" by (simp add: dvd_minus_self)
  with block have "length (cbc_decrypt D n (take n data) (drop n data)) = length data - n" by simp
  then show ?case using block D [of "take n data"] \<open>0 < n\<close>
    by (simp add: cbc_decrypt.simps [of D n iv data])
qed (rule assms)

lemma DecryptData_no_panic:
  assumes "aes_ok P"
  shows "\<not> panics (DecryptData P data key iv)"
proof -
  have "\<not> panics (removePadding 16 (cbc_decrypt (aesD P key) 16 iv data))"
    if "data \<noteq> []" "length data mod 16 = 0" "length iv = 16"
  proof -
    have "length (cbc_decrypt (aesD P key) 16 iv data) = length data"
      using that aes_okD [OF assms] by (intro length_cbc_decrypt) auto
    moreover have "16 \<le> length data" using that dvd_imp_le [of 16 "length data"] by auto
    ultimately show ?thesis
      using removePadding_total [of 16 "cbc_decrypt (aesD P key) 16 iv data"] by fastforce
  qed
  then show ?thesis
    by (auto simp: DecryptData_def panics_bindE aes_new_cipher_def guardE_def)
qed

section \<open>CBC-MAC\<close>

text \<open>The state after the block loop of \<open>CalculateMAC\<close>: whole blocks only.\<close>

function mac_blocks :: "(bytes \<Rightarrow> bytes) \<Rightarrow> nat \<Rightarrow> bytes \<Rightarrow> bytes \<Rightarrow> bytes" where
  "mac_blocks E n state combined =
     (if n = 0 \<or> length combined < n then state
      else mac_blocks E n (E (xor_bytes state (take n combined))) (drop n combined))"
  by pat_completeness auto
termination
  by (relation "measure (\<lambda>(E, n, st, combined). length combined)") auto

declare mac_blocks.simps [simp del]

definition CalculateMAC :: "('sk, 'pk) prims \<Rightarrow> bytes \<Rightarrow> bytes \<Rightarrow> bytes \<Rightarrow> bytes res" where
  "CalculateMAC P meta data macKey =
     bindE (aes_new_cipher macKey) (\<lambda>_.
       let combined = meta @ data; numBlocks = length combined div 16
       in if numBlocks = 0 then Inl (Msg ''mac: input too short for CBC-MAC'')
          else Inr (mac_blocks (aesE P macKey) 16 (replicate 16 0) combined))"

text \<open>
  The legacy \<open>CalculateMac\<close>: one CBC mode object encrypts the padded copy of the data after
  the caller's \<open>meta\<close>, in place. The result carries the MAC and what \<open>meta\<close> holds afterwards.
  \<open>CryptBlocks\<close> panics on a partial block.
\<close>

definition cbc_next_iv :: "nat \<Rightarrow> bytes \<Rightarrow> bytes \<Rightarrow> bytes" where
  "cbc_next_iv n iv out = (if out = [] then iv else drop (length out - n) out)"

definition CalculateMac :: "('sk, 'pk) prims \<Rightarrow> bytes \<Rightarrow> bytes \<Rightarrow> bytes \<Rightarrow> (bytes \<times> bytes) res" where
  "CalculateMac P meta data macKey =
     (let data = appendPadding 16 data in
      bindE (aes_new_cipher macKey) (\<lambda>_.
      bindE (guardE (length meta mod 16 = 0) (Panic ''crypto/cipher: input not full blocks'')) (\<lambda>_.
        let meta' = cbc_encrypt (aesE P macKey) 16 (replicate 16 0) meta;
            data' = cbc_encrypt (aesE P macKey) 16 (cbc_next_iv 16 (replicate 16 0) meta') data
        in if length data' < 32 then Inl (Panic ''slice bounds out of range'')
           else Inr (gslice (length data' - 32) (length data' - 16) data', meta'))))"

lemma mac_blocks_append:
  assumes "0 < n" and E: "\<And>b. length b = n \<Longrightarrow> length (E b) = n"
  shows "length iv = n \<Longrightarrow> n dvd length as \<Longrightarrow>
     mac_blocks E n iv (as @ bs) = mac_blocks E n (mac_blocks E n iv as) bs
     \<and> cbc_encrypt E n iv (as @ bs) = cbc_encrypt E n iv as @ cbc_encrypt E n (mac_blocks E n iv as) bs
     \<and> length (mac_blocks E n iv as) = n"
proof (induction iv as rule: cbc_block_induct [of n])
  case (short iv as)
  then have "as = []" using dvd_imp_le [of n "length as"] by auto
  then show ?case using \<open>0 < n\<close> short by (simp add: mac_blocks.simps [of E n iv "[]"])
next
  case (block iv as)
  let ?x = "E (xor_bytes iv (take n as))"
  have "length ?x = n" using block by (intro E) simp
  moreover have "n dvd length (drop n as)" using block by (simp add: dvd_minus_self)
  ultimately show ?case using block.hyps block.IH [of ?x] \<open>0 < n\<close>
    by (simp add: mac_blocks.simps [of E n iv "as @ bs"] mac_blocks.simps [of E n iv as]
        cbc_encrypt.simps [of E n iv "as @ bs"] cbc_encrypt.simps [of E n iv as] Let_def)
qed (rule assms)

text \<open>The MAC is the last cipher block of the CBC encryption of the whole blocks.\<close>

lemma cbc_encrypt_last:
  assumes "0 < n" and E: "\<And>b. length b = n \<Longrightarrow> length (E b) = n"
  shows "length iv = n \<Longrightarrow> n dvd length data \<Longrightarrow>
    cbc_next_iv n iv (cbc_encrypt E n iv data) = mac_blocks E n iv data"
proof (induction iv data rule: cbc_block_induct [of n])
  case (short iv data)
  then have "data = []" using dvd_imp_le [of n "length data"] by auto
  then show ?case using \<open>0 < n\<close> by (simp add: cbc_next_iv_def mac_blocks.simps [of E n iv "[]"])
next
  case (block iv data)
  let ?c = "E (xor_bytes iv (take n data))" and ?r = "drop n data"
  have c: "length ?c = n" using block by (intro E) simp
  have d: "n dvd length ?r" using block by (simp add: dvd_minus_self)
  have IH: "cbc_next_iv n ?c (cbc_encrypt E n ?c ?r) = mac_blocks E n ?c ?r"
    using block.IH [of ?c] c d by simp
  have "cbc_next_iv n iv (?c @ cbc_encrypt E n ?c ?r) = cbc_next_iv n ?c (cbc_encrypt E n ?c ?r)"
  proof (cases "?r = []")
    case True
    then show ?thesis using c \<open>0 < n\<close> by (auto simp: cbc_next_iv_def)
  next
    case False
    then have "n \<le> length ?r" using d dvd_imp_le [of n "length ?r"] by auto
    moreover have "length (cbc_encrypt E n ?c ?r) = length ?r"
      using length_cbc_encrypt [OF \<open>0 < n\<close> E c d] by simp
    ultimately show ?thesis using c \<open>0 < n\<close> by (auto simp: cbc_next_iv_def simp del: length_drop)
  qed
  then show ?case using block.hyps \<open>0 < n\<close> IH
    by (simp add: cbc_encrypt.simps [of E n iv data] mac_blocks.simps [of E n iv data] Let_def)
qed (rule assms)

lemma mac_blocks_partial:
  assumes "0 < n" and E: "\<And>b. length b = n \<Longrightarrow> length (E b) = n" and "length iv = n"
    and "n dvd length as" "length bs < n"
  shows "mac_blocks E n iv (as @ bs) = mac_blocks E n iv as"
  using mac_blocks_append [OF assms(1) E assms(3,4), where bs = bs] assms(5)
  by (simp add: mac_blocks.simps [of E n "mac_blocks E n iv as" bs])

text \<open>The last block but one of the encryption of the padded data is the MAC of the data.\<close>

lemma cbc_mac_slice:
  assumes E: "\<And>b. length b = 16 \<Longrightarrow> length (E b) = 16" and iv: "length iv = 16"
    and data: "16 \<le> length data"
  shows "let c = cbc_encrypt E 16 iv (appendPadding 16 data)
         in 32 \<le> length c \<and> gslice (length c - 32) (length c - 16) c = mac_blocks E 16 iv data"
proof -
  define k where "k = length data div 16 * 16"
  let ?p = "appendPadding 16 data"
  let ?c1 = "cbc_encrypt E 16 iv (take k data)" and ?m = "mac_blocks E 16 iv (take k data)"
  let ?c = "cbc_encrypt E 16 iv ?p" and ?c2 = "cbc_encrypt E 16 ?m (drop k ?p)"
  have kl: "k \<le> length data" and k16: "16 \<le> k" and kd: "16 dvd k"
    using data unfolding k_def by auto
  have kp: "?p = take k data @ drop k ?p"
    using kl by (metis appendPadding_def append_take_drop_id take_append diff_is_0_eq take0 append_Nil2)
  have tl: "length (take k data) = k" using kl by simp
  have cl: "length ?c = k + 16"
    using length_cbc_encrypt [of 16 E iv ?p] E iv by (simp add: length_appendPadding k_def)
  have split: "?c = ?c1 @ ?c2"
    using mac_blocks_append [of 16 E iv "take k data" "drop k ?p"] E iv tl kp kd by simp
  have c1l: "length ?c1 = k" using length_cbc_encrypt [of 16 E iv "take k data"] E iv tl kd by simp
  have "cbc_next_iv 16 iv ?c1 = ?m" using E iv tl kd by (intro cbc_encrypt_last) simp_all
  moreover have "?c1 \<noteq> []" using c1l k16 by (metis list.size(3) not_numeral_le_zero)
  ultimately have last: "drop (k - 16) ?c1 = ?m" using c1l by (simp add: cbc_next_iv_def)
  have "gslice (length ?c - 32) (length ?c - 16) ?c = take 16 (drop (k - 16) (?c1 @ ?c2))"
    using k16 unfolding gslice_def cl by (subst split) simp
  also have "\<dots> = drop (k - 16) ?c1" using c1l k16 by simp
  also have "\<dots> = mac_blocks E 16 iv (take k data @ drop k data)"
  proof (subst last, rule mac_blocks_partial [symmetric])
    show "length (drop k data) < 16" using minus_div_mult_eq_mod [of "length data" 16] by (simp add: k_def)
  qed (use E iv tl kd in simp_all)
  finally show ?thesis using cl k16 by (simp add: Let_def)
qed

text \<open>The legacy MAC and its replacement agree: on a metadata of whole blocks and at least
  one block of data, \<open>CalculateMac\<close> returns the MAC of \<open>CalculateMAC\<close> (and has overwritten the
  caller's metadata with its CBC encryption); on shorter data it panics where \<open>CalculateMAC\<close>
  still returns.\<close>

theorem CalculateMac_agrees:
  assumes "aes_ok P" and "length key \<in> {16, 24, 32}" and "16 dvd length meta" "meta \<noteq> []"
  shows "if 16 \<le> length data
         then \<exists>mac. CalculateMAC P meta data key = Inr mac
           \<and> CalculateMac P meta data key = Inr (mac, cbc_encrypt (aesE P key) 16 (replicate 16 0) meta)
         else panics (CalculateMac P meta data key)
           \<and> CalculateMAC P meta data key = CalculateMAC P meta [] key"
proof -
  let ?E = "aesE P key" and ?z = "replicate 16 0 :: bytes" and ?p = "appendPadding 16 data"
  let ?iv = "mac_blocks ?E 16 ?z meta"
  let ?c = "cbc_encrypt ?E 16 ?iv ?p"
  have E: "\<And>b. length b = 16 \<Longrightarrow> length (?E b) = 16" using aes_okD [OF assms(1)] by simp
  have ml: "16 \<le> length meta" using assms(3,4) dvd_imp_le [of 16 "length meta"] by auto
  have key: "aes_new_cipher key = Inr ()" using assms(2) by (simp add: aes_new_cipher_def)
  have new: "CalculateMAC P meta d key = Inr (mac_blocks ?E 16 ?z (meta @ d))" for d
    using ml key by (simp add: CalculateMAC_def Let_def div_eq_0_iff)
  have app: "mac_blocks ?E 16 ?z (meta @ d) = mac_blocks ?E 16 ?iv d" and ivl: "length ?iv = 16" for d
    using mac_blocks_append [of 16 ?E ?z meta d] E assms(3) by simp_all
  have "cbc_next_iv 16 ?z (cbc_encrypt ?E 16 ?z meta) = ?iv"
    using E assms(3) by (intro cbc_encrypt_last) simp_all
  then have old: "CalculateMac P meta data key =
     (if length ?c < 32 then Inl (Panic ''slice bounds out of range'')
      else Inr (gslice (length ?c - 32) (length ?c - 16) ?c, cbc_encrypt ?E 16 ?z meta))"
    using key assms(3) by (simp add: CalculateMac_def Let_def dvd_eq_mod_eq_0)
  show ?thesis
  proof (cases "16 \<le> length data")
    case True
    then show ?thesis using cbc_mac_slice [of ?E ?iv data] E ivl old new app by (simp add: Let_def)
  next
    case False
    then have "length ?c < 32"
      using length_cbc_encrypt [of 16 ?E ?iv ?p] E ivl by (simp add: length_appendPadding)
    moreover have "mac_blocks ?E 16 ?z (meta @ data) = ?iv"
      using False E assms(3) by (intro mac_blocks_partial) simp_all
    ultimately show ?thesis using False new old by simp
  qed
qed

theorem CalculateMac_agrees_witness:
  "\<exists>mac. CalculateMAC toy_prims (replicate 16 2) (replicate 20 3) (replicate 32 1) = Inr mac
     \<and> CalculateMac toy_prims (replicate 16 2) (replicate 20 3) (replicate 32 1) =
       Inr (mac, cbc_encrypt (aesE toy_prims (replicate 32 1)) 16 (replicate 16 0) (replicate 16 2))"
  using CalculateMac_agrees [of toy_prims "replicate 32 1" "replicate 16 2" "replicate 20 3"] by simp

lemma length_CalculateMAC:
  assumes "aes_ok P" "CalculateMAC P meta data key = Inr mac"
  shows "length mac = 16"
proof -
  have E: "\<And>b. length b = 16 \<Longrightarrow> length (aesE P key b) = 16" using aes_okD [OF assms(1)] by simp
  have step: "length (mac_blocks (aesE P key) 16 iv xs) = 16" if "length iv = 16" for iv xs
    using that
  proof (induction iv xs rule: cbc_block_induct [of 16])
    case (short iv data)
    then show ?case by (simp add: mac_blocks.simps [of _ 16 iv data])
  next
    case (block iv data)
    then show ?case using E by (simp add: mac_blocks.simps [of _ 16 iv data])
  qed simp
  show ?thesis using assms(2) step by (auto simp: CalculateMAC_def returns_iff Let_def split: if_splits)
qed

lemma CalculateMAC_Inr_iff:
  "(\<exists>mac. CalculateMAC P meta data key = Inr mac)
     \<longleftrightarrow> length key \<in> {16, 24, 32} \<and> 16 \<le> length meta + length data"
  by (auto simp: CalculateMAC_def returns_iff Let_def aes_new_cipher_def div_eq_0_iff)

section \<open>Keys and cryptograms\<close>

definition GenerateECDHSharedSecret :: "('sk, 'pk) prims \<Rightarrow> 'sk \<Rightarrow> 'pk \<Rightarrow> bytes" where
  "GenerateECDHSharedSecret P priv pub = be_bytes 32 (ec_mult_x P priv pub)"

definition PairingTokenSalt :: bytes where
  "PairingTokenSalt = str_bytes ''Keycard Pairing Password Salt''"

definition VerifyCryptogram :: "('sk, 'pk) prims \<Rightarrow> bytes \<Rightarrow> bytes \<Rightarrow> bytes \<Rightarrow> bytes res" where
  "VerifyCryptogram P challenge pairingPass cardCryptogram =
     (let secretHash = pbkdf2_sha256 P (nfkd P pairingPass) (nfkd P PairingTokenSalt) 50000 32;
          expectedCryptogram = sha256 P (secretHash @ challenge)
      in if expectedCryptogram \<noteq> cardCryptogram then Inl InvalidCardCryptogram else Inr secretHash)"

definition sessionSaltSize :: nat where "sessionSaltSize = 32"

definition sessionDataSize :: nat where "sessionDataSize = sessionSaltSize + 16"

definition DeriveSessionKeys ::
  "('sk, 'pk) prims \<Rightarrow> bytes \<Rightarrow> bytes \<Rightarrow> bytes \<Rightarrow> (bytes \<times> bytes \<times> bytes) res" where
  "DeriveSessionKeys P secret pairingKey cardData =
     (if length cardData \<noteq> sessionDataSize then Inl (Msg ''session card data must be 48 bytes'')
      else let salt = take sessionSaltSize cardData; iv = drop sessionSaltSize cardData;
               data = sha512 P (secret @ pairingKey @ salt)
           in Inr (take 32 data, drop 32 data, iv))"

definition Zeroize :: "bytes \<Rightarrow> bytes" where
  "Zeroize data = map (\<lambda>_. 0) data"

definition ConstantTimeCompare :: "bytes \<Rightarrow> bytes \<Rightarrow> bool" where
  "ConstantTimeCompare a b \<longleftrightarrow> a = b"

declare ConstantTimeCompare_def [simp]

lemma DeriveSessionKeys_lengths:
  assumes "hashes_ok P" "DeriveSessionKeys P secret pk cardData = Inr (enc, mac, iv)"
  shows "length enc = 32" "length mac = 32" "length iv = 16"
  using assms
  by (auto simp: DeriveSessionKeys_def Let_def hashes_ok_def sessionDataSize_def sessionSaltSize_def
      split: if_splits)

end
