(* ===== verification/Types_Keys.thy ===== *)
theory Types_Keys
  imports Types_Info Crypto
begin

text \<open>
  The key material of package \<open>types\<close>: \<open>bip32.go\<close>, \<open>exported_key.go\<close>, \<open>lee.go\<close> and
  \<open>pairing.go\<close> with the standard base64 encoding. A nil slice is \<open>None\<close> where the code
  distinguishes it from an empty one.
\<close>

section \<open>BIP32 key pairs\<close>

record Bip32KeyPair =
  privateKey :: "bytes option"
  chainCode :: "bytes option"
  publicKey :: "bytes option"

definition stripLeadingZero :: "bytes \<Rightarrow> bytes" where
  "stripLeadingZero pk = (if 32 < length pk \<and> pk ! 0 = 0 then drop 1 pk else pk)"

text \<open>\<open>secp256k1.PrivKeyFromBytes\<close> never returns nil.\<close>

definition newBip32KeyPair ::
  "('sk, 'pk) prims \<Rightarrow> bytes option \<Rightarrow> bytes option \<Rightarrow> bytes option \<Rightarrow> Bip32KeyPair" where
  "newBip32KeyPair P priv cc pub =
     \<lparr>privateKey = priv, chainCode = cc,
      publicKey = (case (priv, pub) of
          (Some k, None) \<Rightarrow> Some (ec_compress P (ec_public P (ec_private P (stripLeadingZero k))))
        | (_, pub) \<Rightarrow> pub)\<rparr>"

definition Bip32KeyPairFromBinarySeed :: "('sk, 'pk) prims \<Rightarrow> bytes \<Rightarrow> Bip32KeyPair" where
  "Bip32KeyPairFromBinarySeed P seed =
     (let hash = hmac_sha512 P (str_bytes ''Bitcoin seed'') seed
      in newBip32KeyPair P (Some (gcopy 32 (take 32 hash))) (Some (gcopy 32 (drop 32 hash))) None)"

text \<open>\<open>if reader.NextTagIs(tag) { v, err = reader.ReadPrimitive(tag) }\<close>, nil when absent.\<close>

definition read_opt :: "byte \<Rightarrow> string \<Rightarrow> bytes option reader" where
  "read_opt tag m = read_if tag (bindS (wrapS m (ReadPrimitive tag)) (\<lambda>v. returnS (Some v))) None"

definition Bip32KeyPairFromTLV :: "('sk, 'pk) prims \<Rightarrow> bytes \<Rightarrow> Bip32KeyPair res" where
  "Bip32KeyPairFromTLV P tlvData = run_reader
     (bindS (wrapS ''failed to enter key template'' (EnterConstructed TLV_KEY_TEMPLATE)) (\<lambda>_.
      bindS (read_opt TLV_PUB_KEY ''failed to read public key'') (\<lambda>pubKey.
      bindS (read_opt TLV_PRIV_KEY ''failed to read private key'') (\<lambda>privKey.
      bindS (read_opt TLV_CHAIN_CODE ''failed to read chain code'') (\<lambda>chainCode.
      returnS (newBip32KeyPair P privKey chainCode pubKey)))))) tlvData"

definition Bip32_ToTLV :: "bool \<Rightarrow> Bip32KeyPair \<Rightarrow> bytes" where
  "Bip32_ToTLV includePublic k =
     ToBytes (WriteConstructed TLV_KEY_TEMPLATE (\<lambda>w.
       let w = (if includePublic \<and> 0 < length (opt_bytes (publicKey k))
                then WritePrimitive TLV_PUB_KEY (opt_bytes (publicKey k)) w else w);
           w = (case privateKey k of None \<Rightarrow> w | Some p \<Rightarrow> WritePrimitive TLV_PRIV_KEY (stripLeadingZero p) w);
           w = (case chainCode k of None \<Rightarrow> w | Some c \<Rightarrow> WritePrimitive TLV_CHAIN_CODE c w)
       in w) NewBerTlvWriter)"

definition Bip32_ToEthereumAddress :: "('sk, 'pk) prims \<Rightarrow> Bip32KeyPair \<Rightarrow> bytes" where
  "Bip32_ToEthereumAddress P k = ToEthereumAddress P (opt_bytes (publicKey k))"

definition IsPublicOnly :: "Bip32KeyPair \<Rightarrow> bool" where "IsPublicOnly k \<longleftrightarrow> privateKey k = None"

definition IsExtended :: "Bip32KeyPair \<Rightarrow> bool" where "IsExtended k \<longleftrightarrow> chainCode k \<noteq> None"

text \<open>The pair after \<open>Zeroize\<close>, and what the two buffers, which callers may share, then hold.\<close>

definition Bip32_Zeroize :: "Bip32KeyPair \<Rightarrow> Bip32KeyPair \<times> bytes option \<times> bytes option" where
  "Bip32_Zeroize k =
     (k\<lparr>privateKey := None, chainCode := None\<rparr>,
      map_option Zeroize (privateKey k), map_option Zeroize (chainCode k))"

section \<open>Exported keys\<close>

record ExportedKey =
  ekPubKey :: bytes
  ekPrivKey :: bytes
  ekChainCode :: bytes

definition ParseExportKeyResponse :: "('sk, 'pk) prims \<Rightarrow> bytes \<Rightarrow> ExportedKey res" where
  "ParseExportKeyResponse P data = run_reader
     (bindS (ReadPrimitive TLV_KEY_TEMPLATE) (\<lambda>tpl. liftS (run_reader
       (bindS (ReadPrimitiveIfPresent TLV_PUB_KEY) (\<lambda>pub.
        bindS (ReadPrimitiveIfPresent TLV_PRIV_KEY) (\<lambda>priv.
        bindS (ReadPrimitiveIfPresent TLV_CHAIN_CODE) (\<lambda>chain.
        let pub = opt_bytes pub; priv = opt_bytes priv in
        bindS (liftS (if length pub = 0 \<and> 0 < length priv
                      then bindE (ec_to_ecdsa P priv) (\<lambda>k. Inr (ec_marshal P (ec_public P k)))
                      else Inr pub)) (\<lambda>pub.
        returnS \<lparr>ekPubKey = pub, ekPrivKey = priv, ekChainCode = opt_bytes chain\<rparr>))))) tpl))) data"

section \<open>LEE keys\<close>

definition LeeSecretSize :: nat where [simp]: "LeeSecretSize = 32"

record LeeKey =
  lee_ask :: bytes
  lee_nsk :: bytes
  lee_vskD :: bytes
  lee_vskZ :: bytes

definition readLeeSecret :: "byte \<Rightarrow> bytes reader" where
  "readLeeSecret tag =
     bindS (wrapS ''failed to read LEE'' (ReadPrimitive tag)) (\<lambda>v.
       if length v \<noteq> LeeSecretSize then failS (Msg ''LEE must be exactly 32 bytes'') else returnS v)"

definition ParseLeeKey :: "bytes \<Rightarrow> LeeKey res" where
  "ParseLeeKey data = run_reader
     (bindS (wrapS ''failed to enter LEE key template'' (ReadPrimitive TLV_KEY_TEMPLATE)) (\<lambda>tpl. liftS (run_reader
       (bindS (readLeeSecret TLV_LEE_ASK) (\<lambda>ask.
        bindS (readLeeSecret TLV_LEE_NSK) (\<lambda>nsk.
        bindS (readLeeSecret TLV_LEE_VSK_D) (\<lambda>vskD.
        bindS (readLeeSecret TLV_LEE_VSK_Z) (\<lambda>vskZ.
        returnS \<lparr>lee_ask = ask, lee_nsk = nsk, lee_vskD = vskD, lee_vskZ = vskZ\<rparr>))))) tpl))) data"

section \<open>Pairing data\<close>

record Pairing =
  pairingKey :: bytes       \<comment> \<open>32 bytes\<close>
  pairingIndex :: byte

definition NewPairing :: "bytes \<Rightarrow> byte \<Rightarrow> Pairing" where
  "NewPairing key index = \<lparr>pairingKey = key, pairingIndex = index\<rparr>"

definition PairingFromBytes :: "bytes \<Rightarrow> Pairing res" where
  "PairingFromBytes data =
     (if length data < 33 then Inl (Msg ''pairing data too short'')
      else Inr \<lparr>pairingKey = gslice 1 33 data, pairingIndex = data ! 0\<rparr>)"

definition Pairing_ToBytes :: "Pairing \<Rightarrow> bytes" where
  "Pairing_ToBytes p = pairingIndex p # gcopy 32 (pairingKey p)"

definition Pairing_Zeroize :: "Pairing \<Rightarrow> Pairing" where
  "Pairing_Zeroize p = p\<lparr>pairingKey := Zeroize (pairingKey p)\<rparr>"

text \<open>\<open>base64.StdEncoding\<close>: groups of three bytes are four digits, padded with \<open>=\<close>.\<close>

definition b64_digit :: "nat \<Rightarrow> char" where
  "b64_digit n =
     (if n < 26 then char_of (65 + n) else if n < 52 then char_of (71 + n)
      else if n < 62 then char_of (n - 4) else if n = 62 then CHR ''+'' else CHR ''/'')"

fun b64_encode :: "bytes \<Rightarrow> string" where
  "b64_encode [] = []"
| "b64_encode [a] =
     [b64_digit (unat a div 4), b64_digit (unat a mod 4 * 16), CHR ''='', CHR ''='']"
| "b64_encode [a, b] =
     [b64_digit (unat a div 4), b64_digit (unat a mod 4 * 16 + unat b div 16),
      b64_digit (unat b mod 16 * 4), CHR ''='']"
| "b64_encode (a # b # c # rest) =
     b64_digit (unat a div 4) # b64_digit (unat a mod 4 * 16 + unat b div 16)
     # b64_digit (unat b mod 16 * 4 + unat c div 64) # b64_digit (unat c mod 64) # b64_encode rest"

definition b64_value :: "char \<Rightarrow> nat option" where
  "b64_value ch =
     (let c = of_char ch :: nat in
      if 65 \<le> c \<and> c \<le> 90 then Some (c - 65)
      else if 97 \<le> c \<and> c \<le> 122 then Some (c - 71)
      else if 48 \<le> c \<and> c \<le> 57 then Some (c + 4)
      else if c = 43 then Some 62 else if c = 47 then Some 63 else None)"

definition b64_corrupt :: "'a res" where
  "b64_corrupt = Inl (External ''illegal base64 data'')"

text \<open>Decoding skips line breaks; the bits behind a padded group are ignored (not strict).\<close>

fun b64_groups :: "string \<Rightarrow> bytes res" where
  "b64_groups [] = Inr []"
| "b64_groups (w # x # y # z # rest) =
     (case (b64_value w, b64_value x) of
        (Some a, Some b) \<Rightarrow>
          if y = CHR ''='' then
            (if z = CHR ''='' \<and> rest = [] then Inr [of_nat (a * 4 + b div 16)] else b64_corrupt)
          else (case b64_value y of
            None \<Rightarrow> b64_corrupt
          | Some c \<Rightarrow>
              if z = CHR ''='' then
                (if rest = [] then Inr [of_nat (a * 4 + b div 16), of_nat (b mod 16 * 16 + c div 4)]
                 else b64_corrupt)
              else (case b64_value z of
                None \<Rightarrow> b64_corrupt
              | Some d \<Rightarrow> bindE (b64_groups rest) (\<lambda>bs.
                  Inr (of_nat (a * 4 + b div 16) # of_nat (b mod 16 * 16 + c div 4)
                       # of_nat (c mod 4 * 64 + d) # bs))))
      | _ \<Rightarrow> b64_corrupt)"
| "b64_groups _ = b64_corrupt"

definition b64_decode :: "string \<Rightarrow> bytes res" where
  "b64_decode s = b64_groups (filter (\<lambda>c. c \<noteq> CHR 0x0A \<and> c \<noteq> CHR 0x0D) s)"

definition PairingFromBase64 :: "string \<Rightarrow> Pairing res" where
  "PairingFromBase64 b64 =
     bindE (wrapE ''failed to base64-decode pairing data'' (b64_decode b64)) PairingFromBytes"

definition Pairing_ToBase64 :: "Pairing \<Rightarrow> string" where
  "Pairing_ToBase64 p = b64_encode (Pairing_ToBytes p)"

section \<open>Base64 round trip\<close>

lemma b64_digit_facts:
  assumes "n < 64"
  shows "b64_value (b64_digit n) = Some n" "b64_digit n \<noteq> CHR ''=''"
    "b64_digit n \<noteq> CHR 0x0A" "b64_digit n \<noteq> CHR 0x0D"
proof -
  have neq: "char_of k \<noteq> c" if "k < 256" "of_char c \<noteq> k" for k :: nat and c
    using that by (metis mod_less of_char_of)
  consider "n < 26" | "26 \<le> n" "n < 52" | "52 \<le> n" "n < 62" | "n = 62" | "n = 63" using assms by linarith
  then show v: "b64_value (b64_digit n) = Some n"
    by cases (auto simp: b64_digit_def b64_value_def Let_def)
  show "b64_digit n \<noteq> CHR ''=''" "b64_digit n \<noteq> CHR 0x0A" "b64_digit n \<noteq> CHR 0x0D"
    using v by (auto simp: b64_value_def)
qed

lemma byte_parts: "unat (a :: byte) div 4 < 64" "unat (a :: byte) div 16 < 16" "unat (a :: byte) div 64 < 4"
  by (rule less_mult_imp_div_less; simp)+

lemma b64_bounds:
  "unat (a :: byte) div 4 < 64" "unat (a :: byte) mod 4 * 16 + unat (b :: byte) div 16 < 64"
  "unat (b :: byte) mod 16 * 4 + unat (c :: byte) div 64 < 64" "unat (a :: byte) mod 4 * 16 < 64"
  "unat (b :: byte) mod 16 * 4 < 64" "unat (c :: byte) mod 64 < 64"
proof -
  have "unat a mod 4 < 4" "unat b mod 16 < 16" by simp_all
  then show "unat a div 4 < 64" "unat a mod 4 * 16 + unat b div 16 < 64"
    "unat b mod 16 * 4 + unat c div 64 < 64" "unat a mod 4 * 16 < 64"
    "unat b mod 16 * 4 < 64" "unat c mod 64 < 64"
    using byte_parts(1) [of a] byte_parts(2) [of b] byte_parts(3) [of c] by (linarith | simp)+
qed

lemma split_digit: "y < n \<Longrightarrow> (x * n + y) div n = x" "y < n \<Longrightarrow> (x * n + y) mod n = (y :: nat)"
  by simp_all

lemma b64_bytes:
  "(of_nat (unat (a :: byte) div 4 * 4 + (unat a mod 4 * 16 + unat (b :: byte) div 16) div 16) :: byte) = a"
  "(of_nat ((unat (a :: byte) mod 4 * 16 + unat (b :: byte) div 16) mod 16 * 16
      + (unat b mod 16 * 4 + unat (c :: byte) div 64) div 4) :: byte) = b"
  "(of_nat ((unat (b :: byte) mod 16 * 4 + unat (c :: byte) div 64) mod 4 * 64 + unat c mod 64) :: byte) = c"
  "(of_nat (unat (a :: byte) div 4 * 4 + unat a mod 4 * 16 div 16) :: byte) = a"
  "(of_nat ((unat (a :: byte) mod 4 * 16 + unat (b :: byte) div 16) mod 16 * 16 + unat b mod 16 * 4 div 4) :: byte) = b"
proof -
  have id: "(of_nat (unat w) :: byte) = w" for w :: byte by simp
  have z: "x * 16 div 16 = x" "x * 4 div 4 = x" for x :: nat by simp_all
  note s = split_digit [OF byte_parts(2)] split_digit [OF byte_parts(3)] z div_mult_mod_eq id
  show "(of_nat (unat a div 4 * 4 + (unat a mod 4 * 16 + unat b div 16) div 16) :: byte) = a"
    by (simp only: s)
  show "(of_nat ((unat a mod 4 * 16 + unat b div 16) mod 16 * 16 + (unat b mod 16 * 4 + unat c div 64) div 4) :: byte) = b"
    by (simp only: s)
  show "(of_nat ((unat b mod 16 * 4 + unat c div 64) mod 4 * 64 + unat c mod 64) :: byte) = c"
    by (simp only: s)
  show "(of_nat (unat a div 4 * 4 + unat a mod 4 * 16 div 16) :: byte) = a" by (simp only: s)
  show "(of_nat ((unat a mod 4 * 16 + unat b div 16) mod 16 * 16 + unat b mod 16 * 4 div 4) :: byte) = b"
    by (simp only: s)
qed

lemma b64_groups_encode: "b64_groups (b64_encode bs) = Inr bs"
  by (induction bs rule: b64_encode.induct)
    (simp_all only: b64_encode.simps b64_groups.simps b64_digit_facts b64_bounds prod.case option.case
      if_False if_True HOL.simp_thms b64_bytes bindE_simps)

lemma b64_encode_no_breaks: "c \<in> set (b64_encode bs) \<Longrightarrow> c \<noteq> CHR 0x0A \<and> c \<noteq> CHR 0x0D"
  by (induction bs rule: b64_encode.induct) (use b64_digit_facts(3,4) [OF b64_bounds(1)]
      b64_digit_facts(3,4) [OF b64_bounds(2)] b64_digit_facts(3,4) [OF b64_bounds(3)]
      b64_digit_facts(3,4) [OF b64_bounds(4)] b64_digit_facts(3,4) [OF b64_bounds(5)]
      b64_digit_facts(3,4) [OF b64_bounds(6)] in auto)

lemma b64_decode_encode: "b64_decode (b64_encode bs) = Inr bs"
proof -
  have "filter (\<lambda>c. c \<noteq> CHR 0x0A \<and> c \<noteq> CHR 0x0D) (b64_encode bs) = b64_encode bs"
    using b64_encode_no_breaks by (simp add: filter_id_conv)
  then show ?thesis by (simp add: b64_decode_def b64_groups_encode)
qed

text \<open>Pairing data survives its binary and its base64 form.\<close>

theorem Pairing_roundtrip:
  assumes "length (pairingKey p) = 32"
  shows "PairingFromBytes (Pairing_ToBytes p) = Inr p \<and> PairingFromBase64 (Pairing_ToBase64 p) = Inr p"
proof -
  have "PairingFromBytes (Pairing_ToBytes p) = Inr p"
    using assms by (cases p) (simp add: PairingFromBytes_def Pairing_ToBytes_def gslice_def)
  then show ?thesis by (simp add: PairingFromBase64_def Pairing_ToBase64_def b64_decode_encode)
qed

theorem Pairing_roundtrip_witness:
  "PairingFromBytes (Pairing_ToBytes \<lparr>pairingKey = replicate 32 7, pairingIndex = 3\<rparr>) = Inr \<lparr>pairingKey = replicate 32 7, pairingIndex = 3\<rparr>
   \<and> PairingFromBase64 (Pairing_ToBase64 \<lparr>pairingKey = replicate 32 7, pairingIndex = 3\<rparr>) = Inr \<lparr>pairingKey = replicate 32 7, pairingIndex = 3\<rparr>"
  by (rule Pairing_roundtrip) simp

section \<open>Key templates\<close>

lemma read_opt_item:
  assumes "short v" "v = None \<Longrightarrow> \<not> starts_with tag rest"
  shows "read_opt tag m (reader_at us (opt_item tag v @ rest)) = (Inr v, reader_at (us @ opt_item tag v) rest)"
  using assms
  by (cases v) (simp_all add: read_opt_def read_if_def NextTagIs_starts_with opt_item_def ReadPrimitive_enc
      short_def del: NextTagIs_at)

text \<open>The public key that \<open>ToTLV\<close> writes.\<close>

definition written_public :: "bool \<Rightarrow> Bip32KeyPair \<Rightarrow> bytes option" where
  "written_public inc k = (if inc \<and> opt_bytes (publicKey k) \<noteq> [] then publicKey k else None)"

lemma Bip32_ToTLV_items:
  "Bip32_ToTLV inc k = tlv_enc (TLV_KEY_TEMPLATE,
     opt_item TLV_PUB_KEY (written_public inc k)
     @ opt_item TLV_PRIV_KEY (map_option stripLeadingZero (privateKey k)) @ opt_item TLV_CHAIN_CODE (chainCode k))"
  by (cases "publicKey k"; cases "privateKey k"; cases "chainCode k")
    (auto simp: Bip32_ToTLV_def ToBytes_def WriteConstructed_enc WritePrimitive_enc NewBerTlvWriter_def
      opt_item_def written_public_def Let_def)

lemma Bip32KeyPairFromTLV_items:
  assumes "short pub" "short priv" "short cc"
  shows "Bip32KeyPairFromTLV P (tlv_enc (TLV_KEY_TEMPLATE,
       opt_item TLV_PUB_KEY pub @ opt_item TLV_PRIV_KEY priv @ opt_item TLV_CHAIN_CODE cc))
     = Inr (newBip32KeyPair P priv cc pub)"
proof -
  let ?items = "opt_item 0x80 pub @ opt_item 0x81 priv @ opt_item 0x82 cc"
  have "length ?items < 2 ^ 32"
    using length_opt_item [OF assms(1), of "0x80"] length_opt_item [OF assms(2), of "0x81"]
      length_opt_item [OF assms(3), of "0x82"] by simp
  then have enter: "EnterConstructed 0xA1 (reader_at [] (tlv_enc (0xA1, ?items))) =
      (Inr (of_nat (length ?items)), reader_at ([] @ 0xA1 # ber_enc (length ?items)) ?items)"
    using EnterConstructed_enc [of ?items, where us = "[]" and rest = "[]"] by simp
  have cc: "read_opt 0x82 m (reader_at us (opt_item 0x82 cc)) = (Inr cc, reader_at (us @ opt_item 0x82 cc) [])" for m us
    using read_opt_item [OF assms(3), where tag = "0x82" and rest = "[]"] by simp
  show ?thesis
    unfolding Bip32KeyPairFromTLV_def run_reader_def NewBerTlvReader_at
    by (simp add: enter, simp add: read_opt_item [OF assms(1)] read_opt_item [OF assms(2)] cc)
qed

lemma short_strip: "short v \<Longrightarrow> short (map_option stripLeadingZero v)"
  by (cases v) (auto simp: short_def stripLeadingZero_def)

text \<open>What \<open>ToTLV\<close> writes, \<open>Bip32KeyPairFromTLV\<close> reads: the private key less a leading
  zero byte, the chain code, and the public key, which is derived again from the private key
  when it was left out; a pair with a private key of 32 bytes at most comes back unchanged
  when the public key is included.\<close>

theorem Bip32_TLV_roundtrip:
  assumes "short (publicKey k)" "short (privateKey k)" "short (chainCode k)"
  shows "Bip32KeyPairFromTLV P (Bip32_ToTLV inc k) =
           Inr (newBip32KeyPair P (map_option stripLeadingZero (privateKey k)) (chainCode k) (written_public inc k))
       \<and> (inc \<and> opt_bytes (publicKey k) \<noteq> [] \<and> length (opt_bytes (privateKey k)) \<le> 32 \<longrightarrow>
           Bip32KeyPairFromTLV P (Bip32_ToTLV inc k) = Inr k)"
proof -
  have "short (written_public inc k)" using assms(1) by (simp add: written_public_def short_def)
  then have eq: "Bip32KeyPairFromTLV P (Bip32_ToTLV inc k) =
      Inr (newBip32KeyPair P (map_option stripLeadingZero (privateKey k)) (chainCode k) (written_public inc k))"
    unfolding Bip32_ToTLV_items using assms short_strip by (intro Bip32KeyPairFromTLV_items)
  have "newBip32KeyPair P (map_option stripLeadingZero (privateKey k)) (chainCode k) (publicKey k) = k"
    if "opt_bytes (publicKey k) \<noteq> []" "length (opt_bytes (privateKey k)) \<le> 32"
    using that by (cases k; cases "publicKey k"; cases "privateKey k")
      (simp_all add: newBip32KeyPair_def stripLeadingZero_def)
  with eq show ?thesis by (auto simp: written_public_def)
qed

theorem Bip32_TLV_roundtrip_witness:
  "Bip32KeyPairFromTLV toy_prims (Bip32_ToTLV True \<lparr>privateKey = Some [1, 2], chainCode = None, publicKey = Some [3]\<rparr>)
     = Inr \<lparr>privateKey = Some [1, 2], chainCode = None, publicKey = Some [3]\<rparr>"
proof -
  let ?k = "\<lparr>privateKey = Some [1, 2], chainCode = None, publicKey = Some [3]\<rparr>"
  have "short (publicKey ?k)" "short (privateKey ?k)" "short (chainCode ?k)" by (simp_all add: short_def)
  from conjunct2 [OF Bip32_TLV_roundtrip [OF this, of toy_prims True]] show ?thesis by simp
qed

end
