(* ===== verification/Secure_Channel_V1.thy ===== *)
theory Secure_Channel_V1
  imports Secure_Channel Types_Keys
begin

text \<open>
  \<open>secure_channel.go\<close>: the version-1 channel. Every command is encrypted under the session key
  with the last MAC as IV; the MAC of the encrypted command becomes the next IV. The channel's
  state is the record \<open>sc1\<close>, a nil slice or pointer being \<open>None\<close>; \<open>Transmit\<close> is split into the
  send and \<open>V1_receive\<close>, which is what it does with the response.
\<close>

section \<open>State and construction\<close>

record 'pk sc1 =
  open1 :: bool
  established1 :: bool
  secret1 :: "bytes option"
  publicKey1 :: "'pk option"
  encKey1 :: "bytes option"
  macKey1 :: "bytes option"
  iv1 :: bytes
  pairing1 :: "Pairing option"

definition NewSecureChannel :: "'pk sc1" where
  "NewSecureChannel = \<lparr>open1 = False, established1 = False, secret1 = None, publicKey1 = None,
     encKey1 = None, macKey1 = None, iv1 = [], pairing1 = None\<rparr>"

definition GenerateSecret ::
  "('sk, 'pk) prims \<Rightarrow> ('w, 'sk) env \<Rightarrow> bytes \<Rightarrow> ('pk sc1 \<times> 'w, unit) st" where
  "GenerateSecret P env cardPubKeyData =
     bindS (worldS (env_key env)) (\<lambda>key.
     bindS (liftS (ec_unmarshal P cardPubKeyData)) (\<lambda>cardPubKey.
     localS (modifyS (\<lambda>sc. sc\<lparr>publicKey1 := Some (ec_public P key),
       secret1 := Some (GenerateECDHSharedSecret P key cardPubKey)\<rparr>))))"

text \<open>\<open>FromECDSAPub\<close> of a nil key is nil.\<close>

definition RawPublicKey :: "('sk, 'pk) prims \<Rightarrow> 'pk sc1 \<Rightarrow> bytes" where
  "RawPublicKey P sc = (case publicKey1 sc of None \<Rightarrow> [] | Some pk \<Rightarrow> ec_marshal P pk)"

definition V1_Init :: "bytes \<Rightarrow> bytes \<Rightarrow> bytes \<Rightarrow> 'pk sc1 \<Rightarrow> 'pk sc1" where
  "V1_Init iv enc mac sc =
     sc\<lparr>iv1 := iv, encKey1 := Some enc, macKey1 := Some mac, open1 := True, established1 := True\<rparr>"

definition V1_Reset :: "'pk sc1 \<Rightarrow> 'pk sc1" where
  "V1_Reset sc = sc\<lparr>open1 := False, established1 := False, encKey1 := None, macKey1 := None, iv1 := []\<rparr>"

definition V1_SetPairing :: "Pairing option \<Rightarrow> 'pk sc1 \<Rightarrow> 'pk sc1" where
  "V1_SetPairing p sc = sc\<lparr>pairing1 := p\<rparr>"

text \<open>The payload of INIT, encrypted under the ECDH secret.\<close>

definition encryptedInitPayload ::
  "('sk, 'pk) prims \<Rightarrow> ('w, 'sk) env \<Rightarrow> bytes \<Rightarrow> ('pk sc1 \<times> 'w, bytes) st" where
  "encryptedInitPayload P env data =
     getS (\<lambda>sc. worldS (OneShotEncrypt P (env_rand env) (RawPublicKey P sc) (opt_bytes (secret1 sc)) data))"

section \<open>Protected commands\<close>

definition V1_updateIV :: "('sk, 'pk) prims \<Rightarrow> bytes \<Rightarrow> bytes \<Rightarrow> 'pk sc1 \<Rightarrow> 'pk sc1" where
  "V1_updateIV P meta data sc =
     (case CalculateMAC P meta data (opt_bytes (macKey1 sc)) of
        Inl _ \<Rightarrow> sc\<lparr>open1 := False\<rparr>
      | Inr mac \<Rightarrow> sc\<lparr>iv1 := mac\<rparr>)"

definition V1_ProtectedCommand ::
  "('sk, 'pk) prims \<Rightarrow> byte \<Rightarrow> byte \<Rightarrow> byte \<Rightarrow> byte \<Rightarrow> bytes \<Rightarrow> ('pk sc1, command) st" where
  "V1_ProtectedCommand P cla ins p1 p2 data = (\<lambda>sc.
     if \<not> open1 sc then
       (if established1 sc then (Inl (Msg ''secure channel was closed after an error''), sc)
        else (Inr (NewCommand cla ins p1 p2 data), sc))
     else case encKey1 sc of
       None \<Rightarrow> (Inl (Msg ''session encryption key not set''), sc)
     | Some encKey \<Rightarrow>
         (case EncryptData P data encKey (iv1 sc) of
            Inl e \<Rightarrow> (Inl e, sc)
          | Inr encrypted \<Rightarrow>
              if 255 < length encrypted + 16 then (Inl (Msg ''protected command payload too large''), sc)
              else
                let meta = [cla, ins, p1, p2, of_nat (length encrypted + 16)] @ replicate 11 0;
                    sc = V1_updateIV P meta encrypted sc
                in (Inr (NewCommand cla ins p1 p2 (iv1 sc @ encrypted)), sc)))"

definition V1_receive :: "('sk, 'pk) prims \<Rightarrow> response res \<Rightarrow> ('pk sc1, response) st" where
  "V1_receive P r = (\<lambda>sc.
     case r of
       Inl e \<Rightarrow> (Inl e, sc\<lparr>open1 := False\<rparr>)
     | Inr resp \<Rightarrow>
         let sc = (if Sw resp = SwSecurityConditionNotSatisfied then sc\<lparr>open1 := False\<rparr> else sc) in
         if \<not> open1 sc then (Inr resp, sc)
         else if length (RData resp) < 16 then (Inl (Msg ''encrypted response too short''), sc\<lparr>open1 := False\<rparr>)
         else
           let rmac = take 16 (RData resp); rdata = drop 16 (RData resp);
               rmeta = of_nat (length (RData resp)) # replicate 15 0
           in case DecryptData P rdata (opt_bytes (encKey1 sc)) (iv1 sc) of
                Inl e \<Rightarrow> (Inl (Wrap ''AES-CBC decryption failed'' e), sc\<lparr>open1 := False\<rparr>)
              | Inr plainData \<Rightarrow>
                  let sc = V1_updateIV P rmeta rdata sc in
                  if \<not> ConstantTimeCompare (iv1 sc) rmac
                    then (Inl (Msg ''invalid response MAC''), sc\<lparr>open1 := False\<rparr>)
                  else (ParseResponse plainData, sc))"

definition V1_Transmit :: "('sk, 'pk) prims \<Rightarrow> ('w, 'sk) env \<Rightarrow> command \<Rightarrow> ('pk sc1 \<times> 'w, response) st" where
  "V1_Transmit P env cmd = transmit_via (V1_receive P) env cmd"

definition V1_exchange ::
  "('sk, 'pk) prims \<Rightarrow> ('w, 'sk) env \<Rightarrow> byte \<Rightarrow> byte \<Rightarrow> byte \<Rightarrow> byte \<Rightarrow> bytes \<Rightarrow> ('pk sc1 \<times> 'w, response) st" where
  "V1_exchange P env cla ins p1 p2 data =
     bindS (localS (V1_ProtectedCommand P cla ins p1 p2 data)) (V1_Transmit P env)"

text \<open>The deprecated \<open>Send\<close>.\<close>

definition V1_Send :: "('sk, 'pk) prims \<Rightarrow> ('w, 'sk) env \<Rightarrow> command \<Rightarrow> ('pk sc1 \<times> 'w, response) st" where
  "V1_Send P env cmd = V1_exchange P env (Cla cmd) (Ins cmd) (P1 cmd) (P2 cmd) (CData cmd)"

section \<open>Handshake\<close>

definition expect_ok :: "response \<Rightarrow> ('s, unit) st" where
  "expect_ok resp = liftS (guardE (Sw resp = SwOK) (BadResponse (Sw resp)))"

definition V1_OpenSecureChannel :: "('w, 'sk) env \<Rightarrow> byte \<Rightarrow> bytes \<Rightarrow> ('pk sc1 \<times> 'w, response) st" where
  "V1_OpenSecureChannel env index data =
     bindS (localS (modifyS (\<lambda>sc. sc\<lparr>open1 := False\<rparr>))) (\<lambda>_.
     worldS (env_send env (NewCommand ClaGp InsOpenSecureChannel index 0 data)))"

definition V1_MutuallyAuthenticate :: "('sk, 'pk) prims \<Rightarrow> ('w, 'sk) env \<Rightarrow> ('pk sc1 \<times> 'w, response) st" where
  "V1_MutuallyAuthenticate P env =
     bindS (worldS (env_rand env 32)) (\<lambda>data.
     bindS (V1_exchange P env ClaGp InsMutuallyAuthenticate 0 0 data) (\<lambda>resp.
     bindS (expect_ok resp) (\<lambda>_.
     if length (RData resp) \<noteq> 32 then failS (Msg ''invalid authentication data from the card'')
     else returnS resp)))"

definition V1_processOpenResponse :: "('sk, 'pk) prims \<Rightarrow> bytes \<Rightarrow> ('pk sc1, unit) st" where
  "V1_processOpenResponse P data = (\<lambda>sc.
     case (secret1 sc, pairing1 sc) of
       (None, _) \<Rightarrow> (Inl (Msg ''no ECDH secret available''), sc)
     | (_, None) \<Rightarrow> (Inl (Msg ''no pairing data available''), sc)
     | (Some secret, Some pairing) \<Rightarrow>
         (case DeriveSessionKeys P secret (pairingKey pairing) data of
            Inl e \<Rightarrow> (Inl (Wrap ''OPEN_SECURE_CHANNEL'' e), sc)
          | Inr (encKey, macKey, iv) \<Rightarrow>
              (Inr (), sc\<lparr>encKey1 := Some encKey, macKey1 := Some macKey, iv1 := iv, open1 := True\<rparr>)))"

definition V1_AutoOpen :: "('sk, 'pk) prims \<Rightarrow> ('w, 'sk) env \<Rightarrow> ('pk sc1 \<times> 'w, unit) st" where
  "V1_AutoOpen P env = getS (\<lambda>sc.
     if publicKey1 sc = None then failS (Msg ''no public key available; call GenerateSecret first'')
     else case pairing1 sc of
       None \<Rightarrow> failS (Msg ''no pairing data available; call SetPairing or AutoPair first'')
     | Some pairing \<Rightarrow>
         bindS (V1_OpenSecureChannel env (pairingIndex pairing) (RawPublicKey P sc)) (\<lambda>resp.
         bindS (expect_ok resp) (\<lambda>_.
         bindS (localS (V1_processOpenResponse P (RData resp))) (\<lambda>_.
         bindS (V1_MutuallyAuthenticate P env) (\<lambda>_.
         localS (modifyS (\<lambda>sc. sc\<lparr>established1 := True\<rparr>)))))))"

section \<open>Pairing\<close>

definition V1_Pair ::
  "('sk, 'pk) prims \<Rightarrow> ('w, 'sk) env \<Rightarrow> byte \<Rightarrow> byte \<Rightarrow> bytes \<Rightarrow> ('pk sc1 \<times> 'w, response) st" where
  "V1_Pair P env p1 p2 data = V1_Transmit P env (NewCommand ClaGp InsPair p1 p2 data)"

definition V1_Unpair :: "('sk, 'pk) prims \<Rightarrow> ('w, 'sk) env \<Rightarrow> byte \<Rightarrow> ('pk sc1 \<times> 'w, response) st" where
  "V1_Unpair P env p1 = V1_exchange P env ClaGp InsUnpair p1 0 []"

definition V1_AutoPair ::
  "('sk, 'pk) prims \<Rightarrow> ('w, 'sk) env \<Rightarrow> byte \<Rightarrow> bytes \<Rightarrow> ('pk sc1 \<times> 'w, unit) st" where
  "V1_AutoPair P env mode sharedSecret =
     bindS (worldS (env_rand env 32)) (\<lambda>clientChallenge.
     bindS (V1_Pair P env 0x00 mode clientChallenge) (\<lambda>resp.
     bindS (expect_ok resp) (\<lambda>_.
     let respData = RData resp in
     if length respData < 64 then failS (Msg ''pairing response too short'')
     else
       let cardCryptogram = take 32 respData; cardChallenge = drop 32 respData;
           expected = sha256 P (sharedSecret @ clientChallenge)
       in if \<not> ConstantTimeCompare cardCryptogram expected then failS (Msg ''invalid card cryptogram'')
          else
            let clientCryptogram = sha256 P (sharedSecret @ cardChallenge) in
            bindS (V1_Pair P env 0x01 0x00 clientCryptogram) (\<lambda>resp.
            bindS (expect_ok resp) (\<lambda>_.
            let respData = RData resp in
            if length respData < 2 then failS (Msg ''pairing step 2 response too short'')
            else
              let pairingIndex = respData ! 0;
                  derived = sha256 P (sharedSecret @ drop 1 respData);
                  pairingKey = gcopy 32 derived
              in localS (modifyS (\<lambda>sc. sc\<lparr>pairing1 := Some (NewPairing pairingKey pairingIndex)\<rparr>)))))))"

definition V1_AutoUnpair :: "('sk, 'pk) prims \<Rightarrow> ('w, 'sk) env \<Rightarrow> ('pk sc1 \<times> 'w, unit) st" where
  "V1_AutoUnpair P env = getS (\<lambda>sc. case pairing1 sc of
     None \<Rightarrow> failS (Msg ''no pairing data available'')
   | Some p \<Rightarrow> bindS (V1_Unpair P env (pairingIndex p)) (\<lambda>_. returnS ()))"

text \<open>The loop over the slots; an unsuccessful status word is ignored.\<close>

fun unpair_slots :: "('sk, 'pk) prims \<Rightarrow> ('w, 'sk) env \<Rightarrow> byte \<Rightarrow> nat list \<Rightarrow> ('pk sc1 \<times> 'w, unit) st" where
  "unpair_slots P env currentIndex [] = returnS ()"
| "unpair_slots P env currentIndex (i # js) =
     (if of_nat i \<noteq> currentIndex
      then bindS (V1_exchange P env ClaGp InsUnpair (of_nat i) 0 []) (\<lambda>_. unpair_slots P env currentIndex js)
      else unpair_slots P env currentIndex js)"

definition V1_UnpairOthers :: "('sk, 'pk) prims \<Rightarrow> ('w, 'sk) env \<Rightarrow> ('pk sc1 \<times> 'w, unit) st" where
  "V1_UnpairOthers P env = getS (\<lambda>sc.
     let currentIndex = (case pairing1 sc of None \<Rightarrow> 0xFF | Some p \<Rightarrow> pairingIndex p)
     in unpair_slots P env currentIndex [0..<PairingMaxClientCount])"

section \<open>The interface\<close>

lemma V1_updateIV_open: "open1 (V1_updateIV P m d sc) \<Longrightarrow> open1 sc"
  by (auto simp: V1_updateIV_def split: sum.splits)

lemma V1_updateIV_established [simp]: "established1 (V1_updateIV P m d sc) = established1 sc"
  by (simp add: V1_updateIV_def split: sum.split)

interpretation v1: secure_channel "V1_ProtectedCommand P" "V1_receive P" open1 for P :: "('sk, 'pk) prims"
proof unfold_locales
  fix sc c' :: "'pk sc1" and cla ins p1 p2 :: byte and data cmd r e
  assume closed: "\<not> open1 sc"
  show "\<not> open1 (snd (V1_ProtectedCommand P cla ins p1 p2 data sc))"
    using closed by (simp add: V1_ProtectedCommand_def)
  show "\<exists>c'. V1_receive P (Inr r) sc = (Inr r, c') \<and> \<not> open1 c'"
    using closed by (simp add: V1_receive_def Let_def)
  assume "V1_ProtectedCommand P cla ins p1 p2 data sc = (Inr cmd, c')"
  then show "cmd = NewCommand cla ins p1 p2 data"
    using closed by (simp add: V1_ProtectedCommand_def split: if_splits)
qed (simp add: V1_receive_def)

lemma V1_exchange_via: "V1_exchange P env cla ins p1 p2 data = exchange_via (V1_ProtectedCommand P) (V1_receive P) env cla ins p1 p2 data"
proof -
  have "V1_Transmit P env = transmit_via (V1_receive P) env" by (rule ext) (simp add: V1_Transmit_def)
  then show ?thesis by (simp add: V1_exchange_def exchange_via_def)
qed

section \<open>Invariant\<close>

text \<open>An open channel has session keys of 32 bytes and an IV of 16; a pairing key has 32 bytes.\<close>

definition v1_inv :: "'pk sc1 \<Rightarrow> bool" where
  "v1_inv sc \<longleftrightarrow>
     (open1 sc \<longrightarrow> (\<exists>ek mk. encKey1 sc = Some ek \<and> length ek = 32 \<and> macKey1 sc = Some mk \<and> length mk = 32)
        \<and> length (iv1 sc) = 16)"

lemma v1_invD:
  assumes "v1_inv sc" "open1 sc"
  obtains ek mk where "encKey1 sc = Some ek" "length ek = 32" "macKey1 sc = Some mk" "length mk = 32" "length (iv1 sc) = 16"
  using assms by (auto simp: v1_inv_def)

lemma v1_inv_closed [simp]: "\<not> open1 sc \<Longrightarrow> v1_inv sc"
  by (simp add: v1_inv_def)

lemma V1_updateIV_inv: "aes_ok P \<Longrightarrow> v1_inv sc \<Longrightarrow> v1_inv (V1_updateIV P m d sc)"
  by (auto simp: V1_updateIV_def v1_inv_def split: sum.split dest: length_CalculateMAC)

named_theorems v1_keeps

lemma V1_ProtectedCommand_inv [v1_keeps]: "aes_ok P \<Longrightarrow> keeps v1_inv (V1_ProtectedCommand P cla ins p1 p2 data)"
  by (rule keepsI) (auto simp: V1_ProtectedCommand_def Let_def V1_updateIV_inv split: option.split sum.split)

lemma V1_receive_inv [v1_keeps]: "aes_ok P \<Longrightarrow> keeps v1_inv (V1_receive P r)"
  by (rule keepsI) (auto simp: V1_receive_def Let_def V1_updateIV_inv split: sum.split)

lemma V1_Transmit_inv [v1_keeps]: "aes_ok P \<Longrightarrow> keepsL v1_inv (V1_Transmit P env cmd)"
  unfolding V1_Transmit_def by (intro keepsL_intros v1_keeps)

lemma V1_exchange_inv [v1_keeps]: "aes_ok P \<Longrightarrow> keepsL v1_inv (V1_exchange P env cla ins p1 p2 data)"
  unfolding V1_exchange_def by (intro keepsL_intros v1_keeps)

lemma keeps_modify: "(\<And>s. Q s \<Longrightarrow> Q (f s)) \<Longrightarrow> keeps Q (modifyS f)"
  by (simp add: keeps_def)

lemma V1_processOpenResponse_inv [v1_keeps]: "hashes_ok P \<Longrightarrow> keeps v1_inv (V1_processOpenResponse P data)"
  by (rule keepsI) (auto simp: V1_processOpenResponse_def v1_inv_def split: option.splits sum.splits
      dest: DeriveSessionKeys_lengths)

lemma keepsL_expect_ok [keepsL_intros]: "keepsL Q (expect_ok resp)"
  by (simp add: expect_ok_def keepsL_basic)

lemma V1_MutuallyAuthenticate_inv [v1_keeps]: "aes_ok P \<Longrightarrow> keepsL v1_inv (V1_MutuallyAuthenticate P env)"
  unfolding V1_MutuallyAuthenticate_def by (intro keepsL_intros v1_keeps)

lemma V1_OpenSecureChannel_inv [v1_keeps]: "keepsL v1_inv (V1_OpenSecureChannel env index data)"
  unfolding V1_OpenSecureChannel_def by (intro keepsL_intros keeps_modify) simp

lemma V1_AutoOpen_inv [v1_keeps]: "aes_ok P \<Longrightarrow> hashes_ok P \<Longrightarrow> keepsL v1_inv (V1_AutoOpen P env)"
  unfolding V1_AutoOpen_def by (intro keepsL_intros v1_keeps keeps_modify) (simp_all add: v1_inv_def)

lemma V1_Pair_inv [v1_keeps]: "aes_ok P \<Longrightarrow> keepsL v1_inv (V1_Pair P env p1 p2 data)"
  unfolding V1_Pair_def by (intro v1_keeps)

lemma V1_Unpair_inv [v1_keeps]: "aes_ok P \<Longrightarrow> keepsL v1_inv (V1_Unpair P env p1)"
  unfolding V1_Unpair_def by (intro v1_keeps)

lemma V1_AutoPair_inv [v1_keeps]: "aes_ok P \<Longrightarrow> keepsL v1_inv (V1_AutoPair P env mode secret)"
  unfolding V1_AutoPair_def by (intro keepsL_intros v1_keeps keeps_modify) (simp_all add: v1_inv_def)

lemma V1_AutoUnpair_inv [v1_keeps]: "aes_ok P \<Longrightarrow> keepsL v1_inv (V1_AutoUnpair P env)"
  unfolding V1_AutoUnpair_def by (intro keepsL_intros v1_keeps)

lemma unpair_slots_inv: "aes_ok P \<Longrightarrow> keepsL v1_inv (unpair_slots P env cur js)"
  by (induction js) (auto intro!: keepsL_intros v1_keeps)

lemma V1_UnpairOthers_inv [v1_keeps]: "aes_ok P \<Longrightarrow> keepsL v1_inv (V1_UnpairOthers P env)"
  unfolding V1_UnpairOthers_def by (intro keepsL_intros unpair_slots_inv)

lemma GenerateSecret_inv [v1_keeps]: "keepsL v1_inv (GenerateSecret P env pk)"
  unfolding GenerateSecret_def by (intro keepsL_intros keeps_modify) (simp add: v1_inv_def)

text \<open>C22. From a new channel on, whatever the card and the random source do, every operation of
  the version-1 channel keeps it well formed: when it is open, its two session keys have 32
  bytes and its IV 16. The only way around is \<open>Init\<close>, which takes keys of any length.\<close>

theorem v1_operations_keep_inv:
  fixes P :: "('sk, 'pk) prims" and env :: "('w, 'sk) env" and sc :: "'pk sc1"
  assumes "aes_ok P" "hashes_ok P"
  shows "v1_inv (NewSecureChannel :: 'pk sc1)
    \<and> keepsL v1_inv (GenerateSecret P env cardKey) \<and> keepsL v1_inv (V1_AutoOpen P env)
    \<and> keepsL v1_inv (V1_OpenSecureChannel env index data :: ('pk sc1 \<times> 'w, response) st)
    \<and> keepsL v1_inv (V1_MutuallyAuthenticate P env)
    \<and> keepsL v1_inv (V1_exchange P env cla ins p1 p2 data) \<and> keepsL v1_inv (V1_Transmit P env cmd)
    \<and> keeps v1_inv (V1_ProtectedCommand P cla ins p1 p2 data)
    \<and> keepsL v1_inv (V1_Pair P env p1 p2 data) \<and> keepsL v1_inv (V1_Unpair P env p1)
    \<and> keepsL v1_inv (V1_AutoPair P env mode secret) \<and> keepsL v1_inv (V1_AutoUnpair P env)
    \<and> keepsL v1_inv (V1_UnpairOthers P env) \<and> v1_inv (V1_Reset sc)
    \<and> (v1_inv sc \<longrightarrow> v1_inv (V1_SetPairing p sc))
    \<and> (v1_inv (V1_Init iv enc mac sc) \<longleftrightarrow> length iv = 16 \<and> length enc = 32 \<and> length mac = 32)"
  using assms
  by (intro conjI v1_keeps) (auto simp: NewSecureChannel_def V1_SetPairing_def V1_Reset_def V1_Init_def v1_inv_def)

theorem v1_operations_keep_inv_witness:
  "v1_inv (NewSecureChannel :: unit sc1) \<and> keepsL v1_inv (V1_AutoOpen toy_prims toy_env)
   \<and> keepsL v1_inv (V1_AutoPair toy_prims toy_env 0 [1, 2])"
  using toy_prims_ok v1_operations_keep_inv [where P = toy_prims and env = toy_env and mode = 0 and secret = "[1, 2]"] by blast

section \<open>What is accepted, and what is sent\<close>

lemma V1_updateIV_ok:
  assumes "v1_inv sc" "open1 sc" "16 \<le> length m + length d"
  obtains mac where "CalculateMAC P m d (opt_bytes (macKey1 sc)) = Inr mac" "V1_updateIV P m d sc = sc\<lparr>iv1 := mac\<rparr>"
proof -
  obtain ek mk where "macKey1 sc = Some mk" "length mk = 32" using assms(1,2) by (rule v1_invD)
  then obtain mac where "CalculateMAC P m d (opt_bytes (macKey1 sc)) = Inr mac"
    using CalculateMAC_Inr_iff [of P m d mk] assms(3) by auto
  then show ?thesis using that by (simp add: V1_updateIV_def)
qed

text \<open>The metadata that the MAC of a command covers.\<close>

definition v1_meta :: "byte \<Rightarrow> byte \<Rightarrow> byte \<Rightarrow> byte \<Rightarrow> nat \<Rightarrow> bytes" where
  "v1_meta cla ins p1 p2 n = [cla, ins, p1, p2, of_nat (n + 16)] @ replicate 11 0"

lemma V1_ProtectedCommand_open:
  assumes "aes_ok P" "v1_inv sc" "open1 sc" "length data \<le> 223"
  obtains enc mac where
    "EncryptData P data (opt_bytes (encKey1 sc)) (iv1 sc) = Inr enc" "length enc = (length data div 16 + 1) * 16"
    "CalculateMAC P (v1_meta cla ins p1 p2 (length enc)) enc (opt_bytes (macKey1 sc)) = Inr mac" "length mac = 16"
    "V1_ProtectedCommand P cla ins p1 p2 data sc = (Inr (NewCommand cla ins p1 p2 (mac @ enc)), sc\<lparr>iv1 := mac\<rparr>)"
proof -
  obtain ek where ek: "encKey1 sc = Some ek" "length ek = 32" "length (iv1 sc) = 16"
    using assms(2,3) by (rule v1_invD)
  then obtain enc where enc: "EncryptData P data ek (iv1 sc) = Inr enc"
    using EncryptData_Inr_iff [of P data ek "iv1 sc"] by auto
  have l: "length enc = (length data div 16 + 1) * 16" by (rule length_EncryptData [OF assms(1) enc])
  have "length data div 16 \<le> 13" using assms(4) div_le_mono [of "length data" 223 16] by simp
  then have fits: "\<not> 255 < length enc + 16" using l by simp
  have "16 \<le> length (v1_meta cla ins p1 p2 (length enc)) + length enc" by (simp add: v1_meta_def)
  then obtain mac where mac: "CalculateMAC P (v1_meta cla ins p1 p2 (length enc)) enc (opt_bytes (macKey1 sc)) = Inr mac"
      "V1_updateIV P (v1_meta cla ins p1 p2 (length enc)) enc sc = sc\<lparr>iv1 := mac\<rparr>"
    using V1_updateIV_ok [OF assms(2,3)] by blast
  have "V1_ProtectedCommand P cla ins p1 p2 data sc = (Inr (NewCommand cla ins p1 p2 (mac @ enc)), sc\<lparr>iv1 := mac\<rparr>)"
    using assms(3) ek enc fits mac(2) by (simp add: V1_ProtectedCommand_def Let_def v1_meta_def)
  with that ek enc l mac length_CalculateMAC [OF assms(1) mac(1)] show ?thesis by simp
qed

lemma V1_ProtectedCommand_too_long:
  assumes "aes_ok P" "open1 sc" "223 < length data"
  shows "\<exists>e. V1_ProtectedCommand P cla ins p1 p2 data sc = (Inl e, sc)"
proof -
  have "14 \<le> length data div 16" using assms(3) div_le_mono [of 224 "length data" 16] by simp
  then have "255 < length enc + 16" if "EncryptData P data ek (iv1 sc) = Inr enc" for ek enc
    using length_EncryptData [OF assms(1) that] by simp
  then show ?thesis using assms(2)
    by (auto simp: V1_ProtectedCommand_def split: option.split sum.split)
qed

text \<open>On an open, well-formed channel \<open>ProtectedCommand\<close> accepts exactly the payloads of at most
  223 bytes, for every instruction; the command it returns carries the new IV and the
  encrypted data in at most 240 bytes, so that its length byte never wraps.\<close>

theorem V1_ProtectedCommand_accepts:
  assumes "aes_ok P" "v1_inv sc" "open1 sc"
  shows "if length data \<le> 223
    then \<exists>enc mac sc'. V1_ProtectedCommand P cla ins p1 p2 data sc = (Inr (NewCommand cla ins p1 p2 (mac @ enc)), sc')
      \<and> length mac = 16 \<and> EncryptData P data (opt_bytes (encKey1 sc)) (iv1 sc) = Inr enc
      \<and> length (mac @ enc) = (length data div 16 + 2) * 16 \<and> length (mac @ enc) \<le> 240 \<and> open1 sc' \<and> iv1 sc' = mac
    else \<exists>e. V1_ProtectedCommand P cla ins p1 p2 data sc = (Inl e, sc)"
proof (cases "length data \<le> 223")
  case True
  then have "length data div 16 \<le> 13" using div_le_mono [of "length data" 223 16] by simp
  moreover obtain enc mac where
    "EncryptData P data (opt_bytes (encKey1 sc)) (iv1 sc) = Inr enc" "length enc = (length data div 16 + 1) * 16"
    "length mac = 16"
    "V1_ProtectedCommand P cla ins p1 p2 data sc = (Inr (NewCommand cla ins p1 p2 (mac @ enc)), sc\<lparr>iv1 := mac\<rparr>)"
    by (rule V1_ProtectedCommand_open [OF assms True, of cla ins p1 p2])
  ultimately show ?thesis using True assms(3)
    by simp
next
  case False
  then show ?thesis using V1_ProtectedCommand_too_long [OF assms(1,3)] by simp
qed

theorem V1_ProtectedCommand_accepts_witness:
  "let sc = V1_Init (replicate 16 1) (replicate 32 2) (replicate 32 3) (NewSecureChannel :: unit sc1);
       data = replicate 300 0
   in if length data \<le> 223
    then \<exists>enc mac sc'. V1_ProtectedCommand toy_prims 0x80 0xF2 0 0 data sc = (Inr (NewCommand 0x80 0xF2 0 0 (mac @ enc)), sc')
      \<and> length mac = 16 \<and> EncryptData toy_prims data (opt_bytes (encKey1 sc)) (iv1 sc) = Inr enc
      \<and> length (mac @ enc) = (length data div 16 + 2) * 16 \<and> length (mac @ enc) \<le> 240 \<and> open1 sc' \<and> iv1 sc' = mac
    else \<exists>e. V1_ProtectedCommand toy_prims 0x80 0xF2 0 0 data sc = (Inl e, sc)"
  unfolding Let_def
  by (rule V1_ProtectedCommand_accepts) (simp_all add: v1_inv_def V1_Init_def NewSecureChannel_def)

text \<open>The metadata that the MAC of a response covers.\<close>

definition v1_rmeta :: "nat \<Rightarrow> bytes" where
  "v1_rmeta n = of_nat n # replicate 15 0"

lemma V1_receive_cases:
  assumes "v1_inv sc" "open1 sc" "Sw resp \<noteq> SwSecurityConditionNotSatisfied"
    and "RData resp = mac @ enc" "length mac = 16"
  shows "V1_receive P (Inr resp) sc =
    (case DecryptData P enc (opt_bytes (encKey1 sc)) (iv1 sc) of
       Inl e \<Rightarrow> (Inl (Wrap ''AES-CBC decryption failed'' e), sc\<lparr>open1 := False\<rparr>)
     | Inr plain \<Rightarrow>
         if CalculateMAC P (v1_rmeta (length (RData resp))) enc (opt_bytes (macKey1 sc)) = Inr mac
         then (ParseResponse plain, sc\<lparr>iv1 := mac\<rparr>)
         else (Inl (Msg ''invalid response MAC''),
               (V1_updateIV P (v1_rmeta (length (RData resp))) enc sc)\<lparr>open1 := False\<rparr>))"
proof -
  have "16 \<le> length (v1_rmeta (length (RData resp))) + length enc" by (simp add: v1_rmeta_def)
  then obtain mac' where mac': "CalculateMAC P (v1_rmeta (length (RData resp))) enc (opt_bytes (macKey1 sc)) = Inr mac'"
      "V1_updateIV P (v1_rmeta (length (RData resp))) enc sc = sc\<lparr>iv1 := mac'\<rparr>"
    using V1_updateIV_ok [OF assms(1,2)] by blast
  have data: "take 16 (RData resp) = mac" "drop 16 (RData resp) = enc" "16 \<le> length (RData resp)"
    using assms(4,5) by simp_all
  have rmeta: "of_nat (length (RData resp)) # replicate 15 0 = v1_rmeta (length (RData resp))"
    by (simp add: v1_rmeta_def)
  show ?thesis
    using assms(2,3) mac' data(3) unfolding V1_receive_def
    by (simp only: sum.case if_False Let_def data(1,2) rmeta mac') (simp split: sum.split)
qed

text \<open>C9. On an open, well-formed channel a response is accepted only if it is authentic: it is a
  16-byte MAC and a ciphertext, the MAC is the CBC-MAC of the ciphertext under the session's
  MAC key, and the result is parsed from the decryption under the current IV; the MAC becomes
  the next IV. Any other outcome but a decrypted response shorter than a status word closes
  the channel.\<close>

theorem V1_receive_authentic:
  assumes "v1_inv sc" "open1 sc" "V1_receive P (Inr resp) sc = (x, sc')"
  shows "if open1 sc'
    then \<exists>mac enc plain. RData resp = mac @ enc \<and> length mac = 16
      \<and> CalculateMAC P (v1_rmeta (length (RData resp))) enc (opt_bytes (macKey1 sc)) = Inr mac
      \<and> DecryptData P enc (opt_bytes (encKey1 sc)) (iv1 sc) = Inr plain
      \<and> x = ParseResponse plain \<and> sc' = sc\<lparr>iv1 := mac\<rparr>
    else (\<exists>e. x = Inl e) \<or> Sw resp = 0x6982 \<and> x = Inr resp"
proof (cases "Sw resp = 0x6982 \<or> length (RData resp) < 16")
  case True
  then show ?thesis using assms(2,3) by (auto simp: V1_receive_def Let_def split: if_splits)
next
  case False
  define mac enc where "mac = take 16 (RData resp)" and "enc = drop 16 (RData resp)"
  have "Sw resp \<noteq> SwSecurityConditionNotSatisfied" "RData resp = mac @ enc" "length mac = 16"
    using False by (simp_all add: mac_def enc_def)
  note c = V1_receive_cases [OF assms(1,2) this, of P]
  show ?thesis using assms(2,3) c \<open>RData resp = mac @ enc\<close> \<open>length mac = 16\<close>
    by (auto split: sum.splits if_splits)
qed

theorem V1_receive_authentic_witness:
  "let sc = V1_Init (replicate 16 1) (replicate 32 2) (replicate 32 3) (NewSecureChannel :: unit sc1);
       resp = \<lparr>RData = [1, 2], Sw1 = 0x90, Sw2 = 0, Sw = 0x9000\<rparr>
   in if open1 (snd (V1_receive toy_prims (Inr resp) sc))
      then \<exists>mac enc plain. RData resp = mac @ enc \<and> length mac = 16
        \<and> CalculateMAC toy_prims (v1_rmeta (length (RData resp))) enc (opt_bytes (macKey1 sc)) = Inr mac
        \<and> DecryptData toy_prims enc (opt_bytes (encKey1 sc)) (iv1 sc) = Inr plain
        \<and> fst (V1_receive toy_prims (Inr resp) sc) = ParseResponse plain
        \<and> snd (V1_receive toy_prims (Inr resp) sc) = sc\<lparr>iv1 := mac\<rparr>
      else (\<exists>e. fst (V1_receive toy_prims (Inr resp) sc) = Inl e) \<or> Sw resp = 0x6982
        \<and> fst (V1_receive toy_prims (Inr resp) sc) = Inr resp"
  unfolding Let_def
  by (rule V1_receive_authentic) (simp_all add: v1_inv_def V1_Init_def NewSecureChannel_def)

section \<open>Both ends\<close>

text \<open>
  The card's end of the protocol as the message formats prescribe it: it checks the MAC of a
  command against the one it carries, decrypts under the previous IV, and answers encrypted
  and authenticated in the same way.
\<close>

record card1 =
  c_enc :: bytes
  c_mac :: bytes
  c_iv :: bytes

definition card1_receive :: "('sk, 'pk) prims \<Rightarrow> command \<Rightarrow> (card1, bytes) st" where
  "card1_receive P cmd = (\<lambda>c.
     let mac = take 16 (CData cmd); enc = drop 16 (CData cmd) in
     if CalculateMAC P (v1_meta (Cla cmd) (Ins cmd) (P1 cmd) (P2 cmd) (length enc)) enc (c_mac c) = Inr mac
     then (DecryptData P enc (c_enc c) (c_iv c), c\<lparr>c_iv := mac\<rparr>)
     else (Inl (Msg ''invalid command MAC''), c))"

definition card1_answer :: "('sk, 'pk) prims \<Rightarrow> bytes \<Rightarrow> (card1, bytes) st" where
  "card1_answer P plain = (\<lambda>c.
     case EncryptData P plain (c_enc c) (c_iv c) of
       Inl e \<Rightarrow> (Inl e, c)
     | Inr enc \<Rightarrow>
         (case CalculateMAC P (v1_rmeta (length enc + 16)) enc (c_mac c) of
            Inl e \<Rightarrow> (Inl e, c)
          | Inr mac \<Rightarrow> (Inr (mac @ enc), c\<lparr>c_iv := mac\<rparr>)))"

definition synced1 :: "'pk sc1 \<Rightarrow> card1 \<Rightarrow> bool" where
  "synced1 sc c \<longleftrightarrow> open1 sc \<and> encKey1 sc = Some (c_enc c) \<and> macKey1 sc = Some (c_mac c) \<and> iv1 sc = c_iv c"

lemma card1_receive_protected:
  assumes "aes_ok P" "synced1 sc c" "v1_inv sc" "length data \<le> 223"
  obtains wire sc' c' where "V1_ProtectedCommand P cla ins p1 p2 data sc = (Inr (NewCommand cla ins p1 p2 wire), sc')"
    "wire \<noteq> []" "length wire < 256"
    "card1_receive P (NewCommand cla ins p1 p2 wire) c = (Inr data, c')" "synced1 sc' c'" "v1_inv sc'"
proof -
  have o: "open1 sc" using assms(2) by (simp add: synced1_def)
  obtain enc mac where e: "EncryptData P data (opt_bytes (encKey1 sc)) (iv1 sc) = Inr enc" "length mac = 16"
    "CalculateMAC P (v1_meta cla ins p1 p2 (length enc)) enc (opt_bytes (macKey1 sc)) = Inr mac"
    "length enc = (length data div 16 + 1) * 16"
    "V1_ProtectedCommand P cla ins p1 p2 data sc = (Inr (NewCommand cla ins p1 p2 (mac @ enc)), sc\<lparr>iv1 := mac\<rparr>)"
    by (rule V1_ProtectedCommand_open [OF assms(1,3) o assms(4), of cla ins p1 p2])
  have "length data div 16 \<le> 13" using assms(4) div_le_mono [of "length data" 223 16] by simp
  then have l: "mac @ enc \<noteq> []" "length (mac @ enc) < 256" using e(2,4) by auto
  have "card1_receive P (NewCommand cla ins p1 p2 (mac @ enc)) c = (Inr data, c\<lparr>c_iv := mac\<rparr>)"
    using e(1-3) assms(2) DecryptData_of_EncryptData [OF assms(1) e(1)]
    by (simp add: card1_receive_def NewCommand_def synced1_def Let_def)
  moreover have "synced1 (sc\<lparr>iv1 := mac\<rparr>) (c\<lparr>c_iv := mac\<rparr>)" "v1_inv (sc\<lparr>iv1 := mac\<rparr>)"
    using assms(2,3) e(2) by (auto simp: synced1_def v1_inv_def)
  ultimately show ?thesis using that e(5) l by blast
qed

lemma V1_receive_answer:
  assumes "aes_ok P" "synced1 sc c" "v1_inv sc" "sw \<noteq> 0x6982"
  obtains wire c' sc' where "card1_answer P plain c = (Inr wire, c')"
    "V1_receive P (Inr \<lparr>RData = wire, Sw1 = s1, Sw2 = s2, Sw = sw\<rparr>) sc = (ParseResponse plain, sc')"
    "synced1 sc' c'" "v1_inv sc'"
proof -
  have o: "open1 sc" using assms(2) by (simp add: synced1_def)
  obtain ek mk where k: "encKey1 sc = Some ek" "length ek = 32" "macKey1 sc = Some mk" "length mk = 32" "length (iv1 sc) = 16"
    by (rule v1_invD [OF assms(3) o])
  then obtain enc where enc: "EncryptData P plain ek (iv1 sc) = Inr enc"
    using EncryptData_Inr_iff [of P plain ek "iv1 sc"] by auto
  obtain mac where mac: "CalculateMAC P (v1_rmeta (length enc + 16)) enc mk = Inr mac"
    using CalculateMAC_Inr_iff [of P "v1_rmeta (length enc + 16)" enc mk] k(4) by (auto simp: v1_rmeta_def)
  have ml: "length mac = 16" by (rule length_CalculateMAC [OF assms(1) mac])
  let ?resp = "\<lparr>RData = mac @ enc, Sw1 = s1, Sw2 = s2, Sw = sw\<rparr>"
  have keys: "c_enc c = ek" "c_mac c = mk" "c_iv c = iv1 sc" using assms(2) k by (simp_all add: synced1_def)
  then have a: "card1_answer P plain c = (Inr (mac @ enc), c\<lparr>c_iv := mac\<rparr>)"
    using enc mac by (simp add: card1_answer_def)
  have "Sw ?resp \<noteq> SwSecurityConditionNotSatisfied" "RData ?resp = mac @ enc" using assms(4) by simp_all
  from V1_receive_cases [OF assms(3) o this ml, of P]
  have r: "V1_receive P (Inr ?resp) sc = (ParseResponse plain, sc\<lparr>iv1 := mac\<rparr>)"
    using k mac ml DecryptData_of_EncryptData [OF assms(1) enc] by (simp add: add.commute)
  have "synced1 (sc\<lparr>iv1 := mac\<rparr>) (c\<lparr>c_iv := mac\<rparr>)" "v1_inv (sc\<lparr>iv1 := mac\<rparr>)"
    using assms(2,3) ml by (auto simp: synced1_def v1_inv_def)
  with that [OF a r] show ?thesis by blast
qed

text \<open>With a card that shares the session keys and IV, an exchange is lossless in both directions: the
  card recovers exactly the command data, the client recovers exactly the card's response
  (whatever its status word), and afterwards both ends are in step again.\<close>

lemma V1_exchange_lossless:
  assumes "aes_ok P" "synced1 sc c" "v1_inv sc" "length data \<le> 223" "response_wf r"
  obtains wire sc1 c1 rwire c2 sc2 where
    "V1_ProtectedCommand P cla ins p1 p2 data sc = (Inr (NewCommand cla ins p1 p2 wire), sc1)"
    "wire \<noteq> []" "length wire < 256"
    "card1_receive P (NewCommand cla ins p1 p2 wire) c = (Inr data, c1)"
    "card1_answer P (response_bytes r) c1 = (Inr rwire, c2)"
    "V1_receive P (Inr \<lparr>RData = rwire, Sw1 = 0x90, Sw2 = 0, Sw = 0x9000\<rparr>) sc1 = (Inr r, sc2)"
    "synced1 sc2 c2" "v1_inv sc2"
proof -
  obtain wire sc1 c1 where p: "V1_ProtectedCommand P cla ins p1 p2 data sc = (Inr (NewCommand cla ins p1 p2 wire), sc1)"
    "wire \<noteq> []" "length wire < 256"
    "card1_receive P (NewCommand cla ins p1 p2 wire) c = (Inr data, c1)" "synced1 sc1 c1" "v1_inv sc1"
    by (rule card1_receive_protected [OF assms(1-4)])
  have "(0x9000 :: u16) \<noteq> 0x6982" by simp
  then obtain rwire c2 sc2 where "card1_answer P (response_bytes r) c1 = (Inr rwire, c2)"
    "V1_receive P (Inr \<lparr>RData = rwire, Sw1 = 0x90, Sw2 = 0, Sw = 0x9000\<rparr>) sc1 = (ParseResponse (response_bytes r), sc2)"
    "synced1 sc2 c2" "v1_inv sc2"
    by (rule V1_receive_answer [OF assms(1) p(5,6)])
  with p that show ?thesis using ParseResponse_bytes [OF assms(5)] by auto
qed

section \<open>Runs\<close>

text \<open>
  The operations of the channel as steps of channel and world; \<open>Reset\<close> is left out, since it
  is what makes the channel forget that it was established.
\<close>

inductive v1_step :: "('sk, 'pk) prims \<Rightarrow> ('w, 'sk) env \<Rightarrow> 'pk sc1 \<times> 'w \<Rightarrow> 'pk sc1 \<times> 'w \<Rightarrow> bool"
  for P :: "('sk, 'pk) prims" and env :: "('w, 'sk) env" where
  step_exchange: "v1_step P env s (snd (V1_exchange P env cla ins p1 p2 data s))"
| step_transmit: "v1_step P env s (snd (V1_Transmit P env cmd s))"
| step_open: "v1_step P env s (snd (V1_OpenSecureChannel env index data s))"
| step_auto_open: "v1_step P env s (snd (V1_AutoOpen P env s))"
| step_authenticate: "v1_step P env s (snd (V1_MutuallyAuthenticate P env s))"
| step_pair: "v1_step P env s (snd (V1_Pair P env p1 p2 data s))"
| step_auto_pair: "v1_step P env s (snd (V1_AutoPair P env mode secret s))"
| step_unpair: "v1_step P env s (snd (V1_Unpair P env p1 s))"
| step_auto_unpair: "v1_step P env s (snd (V1_AutoUnpair P env s))"
| step_unpair_others: "v1_step P env s (snd (V1_UnpairOthers P env s))"
| step_secret: "v1_step P env s (snd (GenerateSecret P env cardKey s))"
| step_set_pairing: "v1_step P env s (V1_SetPairing p (fst s), snd s)"

inductive_cases v1_stepE: "v1_step P env s s'"

named_theorems est_keeps

lemma V1_ProtectedCommand_est [est_keeps]: "keeps established1 (V1_ProtectedCommand P cla ins p1 p2 data)"
  by (rule keepsI) (auto simp: V1_ProtectedCommand_def Let_def split: option.split sum.split)

lemma V1_receive_est [est_keeps]: "keeps established1 (V1_receive P r)"
  by (rule keepsI) (auto simp: V1_receive_def Let_def split: sum.split)

lemma V1_Transmit_est [est_keeps]: "keepsL established1 (V1_Transmit P env cmd)"
  unfolding V1_Transmit_def by (intro keepsL_intros est_keeps)

lemma V1_exchange_est [est_keeps]: "keepsL established1 (V1_exchange P env cla ins p1 p2 data)"
  unfolding V1_exchange_def by (intro keepsL_intros est_keeps)

lemma V1_processOpenResponse_est [est_keeps]: "keeps established1 (V1_processOpenResponse P data)"
  by (rule keepsI) (auto simp: V1_processOpenResponse_def split: option.splits sum.splits)

lemma V1_handshake_est [est_keeps]:
  "keepsL established1 (V1_OpenSecureChannel env index data)"
  "keepsL established1 (V1_MutuallyAuthenticate P env)"
  "keepsL established1 (V1_Pair P env p1 p2 data)" "keepsL established1 (V1_Unpair P env p1)"
  "keepsL established1 (GenerateSecret P env pk)"
  unfolding V1_OpenSecureChannel_def V1_MutuallyAuthenticate_def V1_Pair_def V1_Unpair_def GenerateSecret_def
  by (intro keepsL_intros est_keeps keeps_modify; simp)+

lemma unpair_slots_est [est_keeps]: "keepsL established1 (unpair_slots P env cur js)"
proof (induction js)
  case Nil
  show ?case unfolding unpair_slots.simps by (rule keepsL_basic)
next
  case (Cons j js)
  then show ?case unfolding unpair_slots.simps by (intro keepsL_intros est_keeps)
qed

lemma V1_auto_est [est_keeps]:
  "keepsL established1 (V1_AutoOpen P env)" "keepsL established1 (V1_AutoPair P env mode secret)"
  "keepsL established1 (V1_AutoUnpair P env)" "keepsL established1 (V1_UnpairOthers P env)"
  unfolding V1_AutoOpen_def V1_AutoPair_def V1_AutoUnpair_def V1_UnpairOthers_def
  by (intro keepsL_intros est_keeps keeps_modify; simp)+

lemma keepsLD: "keepsL Q m \<Longrightarrow> Q (fst s) \<Longrightarrow> Q (fst (snd (m s)))"
  by (cases s) (auto simp: keepsL_def keeps_def)

lemma v1_inv_SetPairing [simp]: "v1_inv (V1_SetPairing p sc) = v1_inv sc"
  by (simp add: v1_inv_def V1_SetPairing_def)

lemma v1_step_est: "v1_step P env s s' \<Longrightarrow> established1 (fst s) \<Longrightarrow> established1 (fst s')"
  by (erule v1_stepE) (auto intro: keepsLD est_keeps simp: V1_SetPairing_def)

lemma v1_step_inv: "aes_ok P \<Longrightarrow> hashes_ok P \<Longrightarrow> v1_step P env s s' \<Longrightarrow> v1_inv (fst s) \<Longrightarrow> v1_inv (fst s')"
  by (erule v1_stepE) (auto intro: keepsLD v1_keeps)

lemma v1_reach:
  assumes "aes_ok P" "hashes_ok P" "(v1_step P env)\<^sup>*\<^sup>* s s'"
  shows "(established1 (fst s) \<longrightarrow> established1 (fst s')) \<and> (v1_inv (fst s) \<longrightarrow> v1_inv (fst s'))"
  using assms(3) by (induction rule: rtranclp_induct) (auto dest: v1_step_est v1_step_inv [OF assms(1,2)])

text \<open>An exchange on an established channel fails before sending, or sends an encrypted command.\<close>

lemma V1_established_exchange:
  assumes "aes_ok P" "established1 sc" "v1_inv sc"
  shows "(\<exists>e sc'. V1_ProtectedCommand P cla ins p1 p2 data sc = (Inl e, sc')) \<or>
    (\<exists>mac enc sc1. open1 sc \<and> EncryptData P data (opt_bytes (encKey1 sc)) (iv1 sc) = Inr enc
      \<and> CalculateMAC P (v1_meta cla ins p1 p2 (length enc)) enc (opt_bytes (macKey1 sc)) = Inr mac
      \<and> V1_ProtectedCommand P cla ins p1 p2 data sc = (Inr (NewCommand cla ins p1 p2 (mac @ enc)), sc1))"
proof (cases "open1 sc \<and> length data \<le> 223")
  case True
  obtain enc mac where "EncryptData P data (opt_bytes (encKey1 sc)) (iv1 sc) = Inr enc"
    "CalculateMAC P (v1_meta cla ins p1 p2 (length enc)) enc (opt_bytes (macKey1 sc)) = Inr mac"
    "V1_ProtectedCommand P cla ins p1 p2 data sc = (Inr (NewCommand cla ins p1 p2 (mac @ enc)), sc\<lparr>iv1 := mac\<rparr>)"
    by (rule V1_ProtectedCommand_open [OF assms(1,3), of data cla ins p1 p2]) (use True in simp_all)
  then show ?thesis using True by blast
next
  case False
  have "\<exists>e sc'. V1_ProtectedCommand P cla ins p1 p2 data sc = (Inl e, sc')"
  proof (cases "open1 sc")
    case True
    then show ?thesis using V1_ProtectedCommand_too_long [OF assms(1) True, of data cla ins p1 p2] False by auto
  qed (use assms(2) in \<open>simp add: V1_ProtectedCommand_def\<close>)
  then show ?thesis by blast
qed

text \<open>No plaintext after establishment: in any state that operations of the channel other than
  \<open>Reset\<close> reach from an established one, an exchange either fails before anything is sent, or
  the command it sends carries the data encrypted under the session key and authenticated by
  the session MAC, whatever the card answered in between.\<close>

theorem V1_established_never_plaintext:
  assumes "aes_ok P" "hashes_ok P" "(v1_step P env)\<^sup>*\<^sup>* (sc0, w0) (sc, w)" "established1 sc0" "v1_inv sc0"
  shows "(\<exists>e sc'. V1_exchange P env cla ins p1 p2 data (sc, w) = (Inl e, sc', w)) \<or>
    (\<exists>mac enc sc1. open1 sc \<and> EncryptData P data (opt_bytes (encKey1 sc)) (iv1 sc) = Inr enc
      \<and> CalculateMAC P (v1_meta cla ins p1 p2 (length enc)) enc (opt_bytes (macKey1 sc)) = Inr mac
      \<and> V1_exchange P env cla ins p1 p2 data (sc, w) = V1_Transmit P env (NewCommand cla ins p1 p2 (mac @ enc)) (sc1, w))"
proof -
  have "v1_inv sc" "established1 sc" using v1_reach [OF assms(1-3)] assms(4,5) by simp_all
  from V1_established_exchange [OF assms(1) this(2,1), of cla ins p1 p2 data]
  show ?thesis by (elim disjE exE conjE) (auto simp: V1_exchange_def)
qed

theorem V1_established_never_plaintext_witness:
  "let sc = V1_Init (replicate 16 1) (replicate 32 2) (replicate 32 3) (NewSecureChannel :: unit sc1) in
    (\<exists>e sc'. V1_exchange toy_prims toy_env 0x80 0x20 0 0 [1, 2, 3, 4] (sc, ()) = (Inl e, sc', ())) \<or>
    (\<exists>mac enc sc1. open1 sc \<and> EncryptData toy_prims [1, 2, 3, 4] (opt_bytes (encKey1 sc)) (iv1 sc) = Inr enc
      \<and> CalculateMAC toy_prims (v1_meta 0x80 0x20 0 0 (length enc)) enc (opt_bytes (macKey1 sc)) = Inr mac
      \<and> V1_exchange toy_prims toy_env 0x80 0x20 0 0 [1, 2, 3, 4] (sc, ())
          = V1_Transmit toy_prims toy_env (NewCommand 0x80 0x20 0 0 (mac @ enc)) (sc1, ()))"
  unfolding Let_def
  by (rule V1_established_never_plaintext [OF _ _ rtranclp.rtrancl_refl])
    (simp_all add: v1_inv_def V1_Init_def NewSecureChannel_def)

end
