(* ===== verification/Ccm.thy ===== *)
theory Ccm
  imports Crypto
begin

text \<open>
  \<open>crypto/ccm.go\<close>: the card's AES-CCM variant (13-byte nonce, 8-byte tag, no associated
  data, flag byte 0x19) and HKDF. The mode is defined over an arbitrary block function.
\<close>

section \<open>Block formats\<close>

definition ccmFlagsByte :: byte where "ccmFlagsByte = 0x19"

definition ctrFlagsByte :: byte where "ctrFlagsByte = 0x01"

definition ccmNonceLen :: nat where "ccmNonceLen = 13"

definition ccmTagLen :: nat where "ccmTagLen = 8"

definition buildB0 :: "bytes \<Rightarrow> nat \<Rightarrow> bytes" where
  "buildB0 nonce msgLen =
     ccmFlagsByte # gcopy ccmNonceLen nonce @ [of_nat (msgLen div 2 ^ 8), of_nat msgLen]"

definition buildCtrBlock :: "bytes \<Rightarrow> u16 \<Rightarrow> bytes" where
  "buildCtrBlock nonce counter =
     ctrFlagsByte # gcopy ccmNonceLen nonce @ [ucast (drop_bit 8 counter), ucast counter]"

lemma length_ccm_blocks [simp]:
  "length (buildB0 nonce n) = 16" "length (buildCtrBlock nonce c) = 16"
  by (simp_all add: buildB0_def buildCtrBlock_def ccmNonceLen_def)

section \<open>The mode\<close>

text \<open>\<open>block[i] ^= data[i]\<close> for the indices of a data shorter than the block.\<close>

definition xor_into :: "bytes \<Rightarrow> bytes \<Rightarrow> bytes" where
  "xor_into block data = xor_bytes (take (length data) block) data @ drop (length data) block"

function mac_data :: "(bytes \<Rightarrow> bytes) \<Rightarrow> bytes \<Rightarrow> bytes \<Rightarrow> bytes" where
  "mac_data E block data =
     (if 16 \<le> length data then mac_data E (E (xor_bytes block (take 16 data))) (drop 16 data)
      else if 0 < length data then E (xor_into block data)
      else block)"
  by pat_completeness auto
termination
  by (relation "measure (\<lambda>(E, block, data). length data)") auto

declare mac_data.simps [simp del]

definition computeCBCMAC :: "(bytes \<Rightarrow> bytes) \<Rightarrow> bytes \<Rightarrow> bytes \<Rightarrow> bytes" where
  "computeCBCMAC E data b0 = take ccmTagLen (mac_data E (E (gcopy 16 b0)) data)"

definition ctrCrypt :: "(bytes \<Rightarrow> bytes) \<Rightarrow> bytes \<Rightarrow> bytes \<Rightarrow> bytes" where
  "ctrCrypt E nonce data = ctr_xor E 16 (buildCtrBlock nonce 0) data"

definition EncryptAndAuthenticate :: "(bytes \<Rightarrow> bytes) \<Rightarrow> bytes \<Rightarrow> bytes \<Rightarrow> bytes res" where
  "EncryptAndAuthenticate E nonce plaintext =
     (if length nonce \<noteq> ccmNonceLen then Inl (Msg ''ccm: nonce length'')
      else if 0xFFFE < length plaintext then Inl (Msg ''ccm: plaintext too long'')
      else let b0 = buildB0 nonce (length plaintext);
               tag = computeCBCMAC E plaintext b0;
               buf = ctrCrypt E nonce (gcopy 16 tag @ plaintext)
           in Inr (drop 16 buf @ take ccmTagLen buf))"

definition DecryptAndAuthenticate :: "(bytes \<Rightarrow> bytes) \<Rightarrow> bytes \<Rightarrow> bytes \<Rightarrow> bytes res" where
  "DecryptAndAuthenticate E nonce ciphertextWithTag =
     (if length nonce \<noteq> ccmNonceLen then Inl (Msg ''ccm: nonce length'')
      else if length ciphertextWithTag < ccmTagLen then Inl (Msg ''ccm: ciphertext too short'')
      else let ciphertext = take (length ciphertextWithTag - ccmTagLen) ciphertextWithTag;
               tag = drop (length ciphertextWithTag - ccmTagLen) ciphertextWithTag;
               buf = ctrCrypt E nonce (gcopy 16 tag @ ciphertext);
               decryptedTag = take ccmTagLen buf;
               plaintext = drop 16 buf;
               b0 = buildB0 nonce (length plaintext);
               expectedTag = computeCBCMAC E plaintext b0
           in if decryptedTag \<noteq> expectedTag then Inl (Msg ''ccm: authentication failed'')
              else Inr plaintext)"

definition AESCCMEncrypt :: "('sk, 'pk) prims \<Rightarrow> bytes \<Rightarrow> bytes \<Rightarrow> bytes \<Rightarrow> bytes res" where
  "AESCCMEncrypt P key nonce plaintext =
     (if length key \<noteq> 16 then Inl (Msg ''ccm: key must be 16 bytes'')
      else if length nonce \<noteq> 13 then Inl (Msg ''ccm: nonce must be 13 bytes'')
      else bindE (aes_new_cipher key) (\<lambda>_. EncryptAndAuthenticate (aesE P key) nonce plaintext))"

definition AESCCMDecrypt :: "('sk, 'pk) prims \<Rightarrow> bytes \<Rightarrow> bytes \<Rightarrow> bytes \<Rightarrow> bytes res" where
  "AESCCMDecrypt P key nonce ciphertextWithTag =
     (if length key \<noteq> 16 then Inl (Msg ''ccm: key must be 16 bytes'')
      else if length nonce \<noteq> 13 then Inl (Msg ''ccm: nonce must be 13 bytes'')
      else bindE (aes_new_cipher key) (\<lambda>_. DecryptAndAuthenticate (aesE P key) nonce ciphertextWithTag))"

definition HKDFDerive :: "('sk, 'pk) prims \<Rightarrow> bytes \<Rightarrow> bytes \<Rightarrow> bytes \<Rightarrow> nat \<Rightarrow> bytes res" where
  "HKDFDerive P info salt ikm n = wrapE ''hkdf: expansion failed'' (hkdf_sha256 P ikm salt info n)"

section \<open>What it computes\<close>

text \<open>A 16-byte block function, and the keystream the mode applies to tag and payload.\<close>

definition block16 :: "(bytes \<Rightarrow> bytes) \<Rightarrow> bool" where
  "block16 E \<longleftrightarrow> (\<forall>b. length b = 16 \<longrightarrow> length (E b) = 16)"

lemma block16D: "block16 E \<Longrightarrow> length b = 16 \<Longrightarrow> length (E b) = 16"
  by (simp add: block16_def)

lemma block16_aes: "aes_ok P \<Longrightarrow> block16 (aesE P key)"
  by (simp add: block16_def aes_ok_def)

definition tag_pad :: "(bytes \<Rightarrow> bytes) \<Rightarrow> bytes \<Rightarrow> bytes" where
  "tag_pad E nonce = take 8 (E (buildCtrBlock nonce 0))"

definition ccm_tag :: "(bytes \<Rightarrow> bytes) \<Rightarrow> bytes \<Rightarrow> bytes \<Rightarrow> bytes" where
  "ccm_tag E nonce p = computeCBCMAC E p (buildB0 nonce (length p))"

definition payload_crypt :: "(bytes \<Rightarrow> bytes) \<Rightarrow> bytes \<Rightarrow> bytes \<Rightarrow> bytes" where
  "payload_crypt E nonce p = ctr_xor E 16 (inc_block (buildCtrBlock nonce 0)) p"

lemma length_mac_data: "block16 E \<Longrightarrow> length block = 16 \<Longrightarrow> length (mac_data E block data) = 16"
proof (induction E block data rule: mac_data.induct)
  case (1 E block data)
  have E: "length (E b) = 16" if "length b = 16" for b using 1(2) that by (rule block16D)
  show ?case
  proof (cases "16 \<le> length data")
    case True
    with 1 E show ?thesis by (simp add: mac_data.simps [of E block data])
  next
    case False
    with 1 E show ?thesis by (simp add: mac_data.simps [of E block data] xor_into_def)
  qed
qed

lemma length_ccm_tag: "block16 E \<Longrightarrow> length (ccm_tag E nonce p) = 8"
  by (simp add: ccm_tag_def computeCBCMAC_def ccmTagLen_def length_mac_data block16D)

lemma length_tag_pad: "block16 E \<Longrightarrow> length (tag_pad E nonce) = 8"
  by (simp add: tag_pad_def block16D)

lemma length_payload_crypt: "block16 E \<Longrightarrow> length (payload_crypt E nonce p) = length p"
  by (simp add: payload_crypt_def length_ctr_xor block16D)

lemma payload_crypt_twice: "block16 E \<Longrightarrow> payload_crypt E nonce (payload_crypt E nonce p) = p"
  by (simp add: payload_crypt_def ctr_xor_twice block16D)

lemma take_xor_bytes: "take n (xor_bytes as bs) = xor_bytes (take n as) (take n bs)"
  by (simp add: xor_bytes_def take_map take_zip)

lemma ctrCrypt_layout:
  assumes "block16 E" "length tag = 8"
  shows "take 8 (ctrCrypt E nonce (gcopy 16 tag @ p)) = xor_bytes tag (tag_pad E nonce)"
    and "drop 16 (ctrCrypt E nonce (gcopy 16 tag @ p)) = payload_crypt E nonce p"
proof -
  let ?c = "buildCtrBlock nonce 0"
  have "ctrCrypt E nonce (gcopy 16 tag @ p) = xor_bytes (gcopy 16 tag) (E ?c) @ payload_crypt E nonce p"
    unfolding ctrCrypt_def by (subst ctr_xor.simps) (use assms in \<open>simp add: payload_crypt_def gcopy_def\<close>)
  moreover have "length (xor_bytes (gcopy 16 tag) (E ?c)) = 16" using assms by (simp add: block16D)
  moreover have "take 8 (xor_bytes (gcopy 16 tag) (E ?c)) = xor_bytes tag (tag_pad E nonce)"
    using assms by (simp add: take_xor_bytes tag_pad_def gcopy_def)
  ultimately show "take 8 (ctrCrypt E nonce (gcopy 16 tag @ p)) = xor_bytes tag (tag_pad E nonce)"
    and "drop 16 (ctrCrypt E nonce (gcopy 16 tag @ p)) = payload_crypt E nonce p"
    by simp_all
qed

lemma EncryptAndAuthenticate_eq:
  assumes "block16 E" "length nonce = 13" "length p \<le> 0xFFFE"
  shows "EncryptAndAuthenticate E nonce p =
           Inr (payload_crypt E nonce p @ xor_bytes (ccm_tag E nonce p) (tag_pad E nonce))"
  using assms ctrCrypt_layout [OF assms(1) length_ccm_tag [OF assms(1)], of nonce nonce p p]
  by (simp add: EncryptAndAuthenticate_def ccmNonceLen_def ccmTagLen_def Let_def flip: ccm_tag_def)

lemma DecryptAndAuthenticate_eq:
  assumes "block16 E" "length nonce = 13" "length tag = 8"
  shows "DecryptAndAuthenticate E nonce (c @ tag) =
     (if xor_bytes tag (tag_pad E nonce) = ccm_tag E nonce (payload_crypt E nonce c)
      then Inr (payload_crypt E nonce c) else Inl (Msg ''ccm: authentication failed''))"
  using assms ctrCrypt_layout [OF assms(1,3), of nonce c]
  by (simp add: DecryptAndAuthenticate_def ccmNonceLen_def ccmTagLen_def Let_def flip: ccm_tag_def)

text \<open>At the level of the mode: what is accepted is what encryption produces.\<close>

lemma Decrypt_iff_Encrypt:
  assumes "block16 E" "length nonce = 13" "length c \<le> 0xFFFE + 8"
  shows "DecryptAndAuthenticate E nonce c = Inr p \<longleftrightarrow> EncryptAndAuthenticate E nonce p = Inr c"
proof (cases "8 \<le> length c")
  case True
  define ct tag where "ct = take (length c - 8) c" and "tag = drop (length c - 8) c"
  have c: "c = ct @ tag" and lt: "length tag = 8" and lc: "length ct \<le> 0xFFFE"
    using True assms(3) by (simp_all add: ct_def tag_def)
  note D = DecryptAndAuthenticate_eq [OF assms(1,2) lt, of ct]
  note lengths = length_ccm_tag [OF assms(1)] length_tag_pad [OF assms(1)] length_payload_crypt [OF assms(1)]
  show ?thesis
  proof
    assume dec: "DecryptAndAuthenticate E nonce c = Inr p"
    then have p: "p = payload_crypt E nonce ct" and t: "ccm_tag E nonce p = xor_bytes tag (tag_pad E nonce)"
      using D c by (auto split: if_splits)
    have "length p \<le> 0xFFFE" using p lc lengths by simp
    moreover have "payload_crypt E nonce p = ct" using p assms(1) by (simp add: payload_crypt_twice)
    moreover have "xor_bytes (xor_bytes tag (tag_pad E nonce)) (tag_pad E nonce) = tag"
      using lt lengths by (simp add: xor_bytes_self)
    ultimately show "EncryptAndAuthenticate E nonce p = Inr c"
      using EncryptAndAuthenticate_eq [OF assms(1,2), of p] t c by simp
  next
    assume enc: "EncryptAndAuthenticate E nonce p = Inr c"
    then have "length p \<le> 0xFFFE" by (auto simp: EncryptAndAuthenticate_def split: if_splits)
    then have "ct @ tag = payload_crypt E nonce p @ xor_bytes (ccm_tag E nonce p) (tag_pad E nonce)"
      using enc EncryptAndAuthenticate_eq [OF assms(1,2), of p] c by simp
    moreover have "length tag = length (xor_bytes (ccm_tag E nonce p) (tag_pad E nonce))"
      using lt lengths by simp
    ultimately have "ct = payload_crypt E nonce p" "tag = xor_bytes (ccm_tag E nonce p) (tag_pad E nonce)"
      by (simp_all del: length_xor_bytes)
    then show "DecryptAndAuthenticate E nonce c = Inr p"
      using D c lengths assms(1) by (simp add: payload_crypt_twice xor_bytes_self)
  qed
next
  case False
  then have "DecryptAndAuthenticate E nonce c \<noteq> Inr p"
    by (simp add: DecryptAndAuthenticate_def ccmTagLen_def)
  moreover have "EncryptAndAuthenticate E nonce p \<noteq> Inr c"
  proof
    assume enc: "EncryptAndAuthenticate E nonce p = Inr c"
    then have "length p \<le> 0xFFFE" by (auto simp: EncryptAndAuthenticate_def split: if_splits)
    then have "8 \<le> length c"
      using enc EncryptAndAuthenticate_eq [OF assms(1,2), of p] length_ccm_tag [OF assms(1)]
        length_tag_pad [OF assms(1)] by auto
    with False show False ..
  qed
  ultimately show ?thesis by simp
qed

lemma length_AESCCMEncrypt:
  assumes "aes_ok P" "AESCCMEncrypt P key nonce p = Inr c"
  shows "length c = length p + 8" "length key = 16" "length nonce = 13" "length p \<le> 0xFFFE"
proof -
  show k: "length key = 16" "length nonce = 13" using assms(2) by (auto simp: AESCCMEncrypt_def split: if_splits)
  have e: "EncryptAndAuthenticate (aesE P key) nonce p = Inr c"
    using assms(2) by (auto simp: AESCCMEncrypt_def returns_iff split: if_splits)
  then show lp: "length p \<le> 0xFFFE" by (auto simp: EncryptAndAuthenticate_def split: if_splits)
  note E = block16_aes [OF assms(1), of key]
  show "length c = length p + 8"
    using EncryptAndAuthenticate_eq [OF E k(2) lp] e length_ccm_tag [OF E] length_tag_pad [OF E]
      length_payload_crypt [OF E] by auto
qed

lemma AESCCMEncrypt_total:
  assumes "aes_ok P" "length key = 16" "length nonce = 13" "length p \<le> 0xFFFE"
  obtains c where "AESCCMEncrypt P key nonce p = Inr c"
  using assms EncryptAndAuthenticate_eq [OF block16_aes [OF assms(1)] assms(3,4), of key]
  by (simp add: AESCCMEncrypt_def aes_new_cipher_def)

lemma AESCCM_iff:
  assumes "aes_ok P" "length c \<le> 0xFFFE + 8"
  shows "AESCCMDecrypt P key nonce c = Inr p \<longleftrightarrow> AESCCMEncrypt P key nonce p = Inr c"
  using Decrypt_iff_Encrypt [OF block16_aes [OF assms(1)] _ assms(2), of nonce key p]
  by (simp add: AESCCMDecrypt_def AESCCMEncrypt_def aes_new_cipher_def)

lemma AESCCMDecrypt_AESCCMEncrypt:
  "aes_ok P \<Longrightarrow> AESCCMEncrypt P key nonce p = Inr c \<Longrightarrow> AESCCMDecrypt P key nonce c = Inr p"
  using length_AESCCMEncrypt [of P key nonce p c] AESCCM_iff [of P c key nonce p] by simp

text \<open>C21. On the wire sizes the channel uses, \<open>AESCCMDecrypt\<close> returns a plaintext exactly for
  the ciphertext that \<open>AESCCMEncrypt\<close> makes of it under the same key and nonce, so a modified
  ciphertext is never accepted as a different spelling of the same plaintext; the ciphertext
  is eight bytes longer than the plaintext.\<close>

theorem ccm_accepts_exactly_encryptions:
  assumes "aes_ok P" "length c \<le> 0xFFFE + 8"
  shows "(AESCCMDecrypt P key nonce c = Inr p \<longleftrightarrow> AESCCMEncrypt P key nonce p = Inr c)
       \<and> (AESCCMDecrypt P key nonce c = Inr p \<longrightarrow> length c = length p + 8)"
  using AESCCM_iff [OF assms] length_AESCCMEncrypt [OF assms(1)] by blast

theorem ccm_accepts_exactly_encryptions_witness:
  "\<exists>c. AESCCMDecrypt toy_prims (replicate 16 1) (replicate 13 0) c = Inr [7] \<and> length c = 9"
proof -
  obtain c where c: "AESCCMEncrypt toy_prims (replicate 16 1) (replicate 13 0) [7] = Inr c"
    using AESCCMEncrypt_total [OF toy_prims_ok(1), of "replicate 16 1" "replicate 13 0" "[7]"] by auto
  with length_AESCCMEncrypt [OF toy_prims_ok(1) c] have "length c = 9" by simp
  with c ccm_accepts_exactly_encryptions [OF toy_prims_ok(1), of c "replicate 16 1" "replicate 13 0" "[7]"]
  show ?thesis by auto
qed

text \<open>The keystream does not depend on the data, so two payloads under one nonce leak their
  difference.\<close>

lemma ctr_xor_xor:
  assumes "0 < n" and E: "\<And>b. length b = n \<Longrightarrow> length (E b) = n"
  shows "length ctr = n \<Longrightarrow> length as = length bs \<Longrightarrow>
    xor_bytes (ctr_xor E n ctr as) (ctr_xor E n ctr bs) = xor_bytes as bs"
proof (induction "length as" arbitrary: ctr as bs rule: less_induct)
  case less
  show ?case
  proof (cases "as = []")
    case True
    then show ?thesis by simp
  next
    case False
    let ?k = "E ctr"
    have k: "length ?k = n" using less(2) by (rule E)
    have IH: "xor_bytes (ctr_xor E n (inc_block ctr) (drop n as)) (ctr_xor E n (inc_block ctr) (drop n bs))
        = xor_bytes (drop n as) (drop n bs)"
    proof (rule less(1))
      show "length (drop n as) < length as" using False \<open>0 < n\<close> by simp
    qed (use less in simp_all)
    have app: "xor_bytes (u @ u') (v @ v') = xor_bytes u v @ xor_bytes u' v'" if "length u = length v" for u u' v v'
      using that by (simp add: xor_bytes_def)
    have cancel: "xor_bytes (xor_bytes u k) (xor_bytes v k) = xor_bytes u v"
      if "length u = length v" "length u \<le> length k" for u v k
      using that by (auto simp: xor_bytes_def list_eq_iff_nth_eq xor.assoc xor.left_commute xor.commute)
    have "bs \<noteq> []" using False less(3) by auto
    then have "xor_bytes (ctr_xor E n ctr as) (ctr_xor E n ctr bs) =
        xor_bytes (take n as) (take n bs) @ xor_bytes (drop n as) (drop n bs)"
      using False \<open>0 < n\<close> less(3) k IH
      by (simp add: ctr_xor.simps [of E n ctr as] ctr_xor.simps [of E n ctr bs] app cancel)
    also have "\<dots> = xor_bytes (take n as @ drop n as) (take n bs @ drop n bs)"
      using less(3) by (subst app) simp_all
    finally show ?thesis by simp
  qed
qed

lemma AESCCM_same_nonce:
  assumes "aes_ok P" "AESCCMEncrypt P key nonce p = Inr c" "AESCCMEncrypt P key nonce q = Inr d"
    and "length p = length q"
  shows "xor_bytes (take (length p) c) (take (length q) d) = xor_bytes p q"
proof -
  note E = block16_aes [OF assms(1), of key]
  have form: "take (length r) e = payload_crypt (aesE P key) nonce r"
    if "AESCCMEncrypt P key nonce r = Inr e" for r e
  proof -
    have "EncryptAndAuthenticate (aesE P key) nonce r = Inr e"
      using that by (auto simp: AESCCMEncrypt_def returns_iff split: if_splits)
    then show ?thesis
      using EncryptAndAuthenticate_eq [OF E length_AESCCMEncrypt(3,4) [OF assms(1) that]]
        length_payload_crypt [OF E] by auto
  qed
  show ?thesis
    unfolding form [OF assms(2)] form [OF assms(3)]
    by (simp add: payload_crypt_def ctr_xor_xor block16D [OF E] assms(4))
qed

end
