(* ===== verification/Der.thy ===== *)
theory Der
  imports Signature
begin

text \<open>
  The DER form of an ECDSA signature, written from the standard and not from the parsers of the
  repository: a SEQUENCE of two INTEGERs, each the shortest big-endian form of its number with a
  zero byte in front when the top bit would read as a sign. What the signing libraries and the
  cards promise is stated over it. Behind it, what \<open>DERSignatureToRS\<close> reads from such a signature.
\<close>

section \<open>Specification\<close>

text \<open>The bytes of a number without leading zeros.\<close>

fun be_min :: "nat \<Rightarrow> bytes" where
  "be_min n = (if n = 0 then [] else be_min (n div 256) @ [of_nat n])"

declare be_min.simps [simp del]

definition der_int :: "nat \<Rightarrow> bytes" where
  "der_int n = (let b = be_min n in if b = [] then [0] else if 0x80 \<le> hd b then 0 # b else b)"

text \<open>Scalars of 32 bytes keep every length below 128, so one length byte each.\<close>

definition der_ecdsa :: "nat \<Rightarrow> nat \<Rightarrow> bytes" where
  "der_ecdsa r s =
     (let rb = der_int r; sb = der_int s;
          content = [0x02, of_nat (length rb)] @ rb @ [0x02, of_nat (length sb)] @ sb
      in [0x30, of_nat (length content)] @ content)"

lemma be_min_0 [simp]: "be_min 0 = []"
  by (simp add: be_min.simps)

lemma be_min_eq_Nil [simp]: "be_min n = [] \<longleftrightarrow> n = 0"
  by (subst be_min.simps) simp

lemma be_nat_be_min [simp]: "be_nat (be_min n) = n"
proof (induction n rule: be_min.induct)
  case (1 n)
  show ?case
  proof (cases "n = 0")
    case False
    then have "be_nat (be_min (n div 256)) * 256 + n mod 256 = n" using 1 by simp
    then show ?thesis using False by (subst be_min.simps) (simp add: unat_of_nat)
  qed simp
qed

lemma length_be_min_le: "n < 256 ^ k \<Longrightarrow> length (be_min n) \<le> k"
proof (induction k arbitrary: n)
  case (Suc k)
  show ?case
  proof (cases "n = 0")
    case False
    have "n div 256 < 256 ^ k" using Suc.prems by (simp add: less_mult_imp_div_less mult.commute)
    then show ?thesis using False Suc.IH by (subst be_min.simps) simp
  qed simp
qed simp

text \<open>The content octets of a positive scalar of at most 32 bytes, with or without a sign byte.\<close>

definition der_scalar :: "bytes \<Rightarrow> bool" where
  "der_scalar c \<longleftrightarrow> c \<noteq> [] \<and> c \<noteq> [0] \<and> (length c \<le> 32 \<or> length c = 33 \<and> c ! 0 = 0)"

lemma der_scalar_der_int:
  assumes "0 < n" "n < 2 ^ 256"
  shows "der_scalar (der_int n)"
proof -
  have "(2 :: nat) ^ 256 = 256 ^ 32" by simp
  then have "length (be_min n) \<le> 32" using assms(2) by (intro length_be_min_le) simp
  moreover have "be_min n \<noteq> [0]" using assms(1) be_nat_be_min [of n] by (auto simp del: be_nat_be_min)
  ultimately show ?thesis using assms(1) by (auto simp: der_int_def der_scalar_def Let_def)
qed

lemma be_nat_der_int [simp]: "be_nat (der_int n) = n"
  by (simp add: der_int_def Let_def be_nat_Cons)

lemma der_ecdsa_tlv:
  assumes "der_scalar (der_int r)" "der_scalar (der_int s)"
  shows "der_ecdsa r s = tlv_enc (TLV_ECDSA_TEMPLATE, tlv_enc (TLV_INT, der_int r) @ tlv_enc (TLV_INT, der_int s))"
    and "2 \<le> length (der_ecdsa r s)"
proof -
  have short: "ber_enc n = [of_nat n]" if "n < 128" for n
    using that by (simp add: ber_enc_def encode_ber_length_bytes unat_of_nat)
  have "length (der_int r) \<le> 33" "length (der_int s) \<le> 33" using assms by (auto simp: der_scalar_def)
  then show "der_ecdsa r s = tlv_enc (TLV_ECDSA_TEMPLATE, tlv_enc (TLV_INT, der_int r) @ tlv_enc (TLV_INT, der_int s))"
    by (simp add: der_ecdsa_def Let_def tlv_enc_def short)
  show "2 \<le> length (der_ecdsa r s)" by (simp add: der_ecdsa_def Let_def)
qed

section \<open>What \<open>DERSignatureToRS\<close> reads\<close>

lemma DERSignatureToRS_scalars:
  assumes "der_scalar rb" "der_scalar sb"
  shows "DERSignatureToRS (tlv_enc (TLV_ECDSA_TEMPLATE, tlv_enc (TLV_INT, rb) @ tlv_enc (TLV_INT, sb)) @ rest)
      = Inr (last32 rb, last32 sb)"
proof -
  obtain seq where seq_def: "seq = tlv_enc (2, rb) @ tlv_enc (2, sb)" by blast
  have l: "length rb \<le> 33" "length sb \<le> 33" using assms by (auto simp: der_scalar_def)
  then have sl: "length seq < 2 ^ 32" and rl: "length rb < 2 ^ 32" and sbl: "length sb < 2 ^ 32"
    using length_tlv_enc_le [of 2 rb] length_tlv_enc_le [of 2 sb] by (simp_all add: seq_def)
  have next0: "NextTagIs 0x30 (reader_at [] (tlv_enc (0x30, seq) @ rest))" by (simp only: NextTagIs_enc)
  note seq = ReadPrimitive_enc [OF sl, where us = "[]" and rest = rest and tag = "0x30"]
  note r = ReadPrimitive_enc [OF rl, where us = "[]" and rest = "tlv_enc (2, sb)" and tag = "2"]
  have s: "ReadPrimitive 2 (reader_at us (tlv_enc (2, sb))) = (Inr sb, reader_at (us @ tlv_enc (2, sb)) [])" for us
    using ReadPrimitive_enc [OF sbl, of 2 us "[]"] by simp
  have rs: "run_reader (bindS (ReadPrimitive 2) (\<lambda>rVal. bindS (ReadPrimitive 2) (\<lambda>sVal. returnS (last32 rVal, last32 sVal)))) seq
      = Inr (last32 rb, last32 sb)"
    by (simp add: seq_def run_reader_def NewBerTlvReader_at bindS_def r s)
  have "DERSignatureToRS (tlv_enc (0x30, seq) @ rest) = Inr (last32 rb, last32 sb)"
    unfolding DERSignatureToRS_def run_reader_def [of "readS _"] NewBerTlvReader_at readS_apply
    using next0 rs by (simp add: bindS_def seq del: NextTagIs_at)
  then show ?thesis by (simp add: seq_def)
qed

lemma DERSignatureToRS_der_ecdsa:
  assumes "0 < r" "r < 2 ^ 256" "0 < s" "s < 2 ^ 256"
  shows "DERSignatureToRS (der_ecdsa r s) = Inr (last32 (der_int r), last32 (der_int s))"
  using DERSignatureToRS_scalars [of "der_int r" "der_int s" "[]"] der_scalar_der_int assms
  by (simp add: der_ecdsa_tlv)

end
