(* ===== verification/Certificate.thy ===== *)
theory Certificate
  imports Der
begin

text \<open>
  \<open>types/certificate.go\<close>: the card's identity certificate, its creation by the CA, its stored
  form, and the verification of an identity proof.
\<close>

record Certificate =
  identPriv :: "bytes option"
  identPub :: bytes              \<comment> \<open>33 bytes\<close>
  certSignature :: Signature

definition TagCertificate :: byte where "TagCertificate = 0x8A"

definition ParseCertificate :: "('sk, 'pk) prims \<Rightarrow> bytes \<Rightarrow> Certificate res" where
  "ParseCertificate P data =
     (if length data < 98 then Inl (Msg ''certificate data too short'')
      else
        let pub = gslice 0 33 data; r = gslice 33 65 data; s = gslice 65 97 data;
            recID = int (unat (data ! 97));
            msg = sha256 P pub
        in bindE (wrapE ''failed to recover CA public key'' (RecoverPublicKey P recID msg r s True)) (\<lambda>caPub.
             Inr \<lparr>identPriv = None, identPub = gcopy 33 pub,
                  certSignature = \<lparr>sigPubKey = caPub, sigR = r, sigS = s, sigV = of_int recID\<rparr>\<rparr>))"

definition IdentPub :: "Certificate \<Rightarrow> bytes" where "IdentPub c = identPub c"

definition CAPublicKey :: "Certificate \<Rightarrow> bytes" where "CAPublicKey c = sigPubKey (certSignature c)"

definition IdentPriv :: "Certificate \<Rightarrow> bytes option" where "IdentPriv c = identPriv c"

definition RecID :: "Certificate \<Rightarrow> byte" where "RecID c = sigV (certSignature c)"

text \<open>The signature behind the certificate: raw when it has 65 bytes, DER otherwise.\<close>

definition VerifyIdentity :: "('sk, 'pk) prims \<Rightarrow> bytes \<Rightarrow> bytes \<Rightarrow> bytes res" where
  "VerifyIdentity P hash tlvData = run_reader
     (bindS (wrapS ''failed to enter signature template'' (EnterConstructed TLV_SIGNATURE_TEMPLATE)) (\<lambda>_.
      bindS (wrapS ''failed to read certificate'' (ReadPrimitive TLV_CERT)) (\<lambda>certData.
      bindS (liftS (wrapE ''failed to parse certificate'' (ParseCertificate P certData))) (\<lambda>cert.
      readS (\<lambda>reader. liftS (
        let sigBytes = PeekUnread reader in
        if length sigBytes < 2 then Inl (Msg ''signature data too short'')
        else bindE (if length sigBytes = 65
                    then Inr (ec_verify P (gslice 0 32 sigBytes) (gslice 32 64 sigBytes))
                    else wrapE ''failed to parse DER signature'' (ec_verify_der P sigBytes)) (\<lambda>verify.
        bindE (wrapE ''invalid identity public key'' (ec_parse P (identPub cert))) (\<lambda>identPubKey.
        bindE (guardE (verify hash identPubKey) (Msg ''identity signature verification failed'')) (\<lambda>_.
        compressPublicKey (sigPubKey (certSignature cert))))))))))) tlvData"

definition ToStoreData :: "Certificate \<Rightarrow> bytes res" where
  "ToStoreData c =
     (case identPriv c of
        None \<Rightarrow> Inl (Msg ''private key not set, cannot serialize for storage'')
      | Some priv \<Rightarrow> Inr (identPub c @ sigR (certSignature c) @ sigS (certSignature c)
                         @ [sigV (certSignature c)] @ priv))"

text \<open>\<open>copy(padded[32-len(x):], x)\<close>; the callers' values have at most 32 bytes.\<close>

definition left_pad32 :: "bytes \<Rightarrow> bytes" where
  "left_pad32 x = replicate (32 - length x) 0 @ x"

text \<open>The loop over the recovery ids: an error moves on, a match stops, the default is 0.\<close>

function find_recID :: "('sk, 'pk) prims \<Rightarrow> bytes \<Rightarrow> bytes \<Rightarrow> bytes \<Rightarrow> bytes \<Rightarrow> nat \<Rightarrow> byte" where
  "find_recID P hash r s caPub i =
     (if i < 4 then
        (case RecoverPublicKey P (int i) hash r s True of
           Inl _ \<Rightarrow> find_recID P hash r s caPub (i + 1)
         | Inr recovered \<Rightarrow> if recovered = caPub then of_nat i else find_recID P hash r s caPub (i + 1))
      else 0)"
  by pat_completeness auto
termination
  by (relation "measure (\<lambda>(P, h, r, s, c, i). 4 - i)") auto

declare find_recID.simps [simp del]

definition CreateCertificate :: "('sk, 'pk) prims \<Rightarrow> 'sk \<Rightarrow> bytes \<Rightarrow> bytes \<Rightarrow> Certificate res" where
  "CreateCertificate P caPriv pub priv =
     (let hash = sha256 P pub in
      bindE (wrapE ''failed to extract r/s from signature'' (DERSignatureToRS (ec_sign_der P caPriv hash))) (\<lambda>(r, s).
        let rPadded = left_pad32 r; sPadded = left_pad32 s;
            caPubCompressed = ec_compress P (ec_public P caPriv);
            recID = find_recID P hash rPadded sPadded caPubCompressed 0
        in Inr \<lparr>identPriv = Some priv, identPub = pub,
                certSignature = \<lparr>sigPubKey = caPubCompressed, sigR = rPadded, sigS = sPadded, sigV = recID\<rparr>\<rparr>))"

definition GenerateNewCertificate ::
  "('sk, 'pk) prims \<Rightarrow> ('w, 'sk) st \<Rightarrow> 'sk \<Rightarrow> ('w, Certificate) st" where
  "GenerateNewCertificate P gen_key caPriv =
     bindS (wrapS ''failed to generate identity keypair'' gen_key) (\<lambda>identPriv.
       let pub = gcopy 33 (ec_compress P (ec_public P identPriv))
       in liftS (CreateCertificate P caPriv pub (ec_serialize P identPriv)))"

section \<open>Creation, storage and parsing agree\<close>

text \<open>
  What signing promises: the signature is the DER form of two numbers below \<open>2 ^ 256\<close>, and with one
  of the four recovery ids the compact signature (a header byte and the two numbers in 32 bytes
  each) recovers the signer's public key (Sign and RecoverCompact of \<open>dcrec/secp256k1/ecdsa\<close>).
\<close>

definition sign_recovers :: "('sk, 'pk) prims \<Rightarrow> 'sk \<Rightarrow> bytes \<Rightarrow> bool" where
  "sign_recovers P sk hash \<longleftrightarrow>
     (\<exists>r s i. 0 < r \<and> r < 2 ^ 256 \<and> 0 < s \<and> s < 2 ^ 256 \<and> i < 4 \<and> ec_sign_der P sk hash = der_ecdsa r s
        \<and> recover_compact P (of_nat (31 + i) # be_bytes 32 r @ be_bytes 32 s) hash = Inr (ec_public P sk))"

lemma length_last32 [simp]: "length (last32 v) = min 32 (length v)"
  by (simp add: last32_def)

lemma length_left_pad32 [simp]: "length x \<le> 32 \<Longrightarrow> length (left_pad32 x) = 32"
  by (simp add: left_pad32_def)

lemma be_nat_last32:
  assumes "der_scalar c"
  shows "be_nat (last32 c) = be_nat c" "length (last32 c) = min 32 (length c)" "length (left_pad32 (last32 c)) = 32"
proof -
  show "be_nat (last32 c) = be_nat c"
  proof (cases "length c \<le> 32")
    case False
    then obtain bs where "c = 0 # bs" "length bs = 32" using assms by (cases c) (simp_all add: der_scalar_def)
    then show ?thesis by (simp add: last32_def be_nat_Cons)
  qed (simp add: last32_def)
  show "length (last32 c) = min 32 (length c)" by (simp add: last32_def)
  then show "length (left_pad32 (last32 c)) = 32" by (simp add: left_pad32_def)
qed

lemma be_nat_zeros [simp]: "be_nat (replicate n 0 @ bs) = be_nat bs"
  by (induction n) (simp_all add: be_nat_Cons)

text \<open>Cutting the sign byte and padding on the left give the number in 32 bytes.\<close>

lemma left_pad32_der_int:
  assumes "0 < n" "n < 2 ^ 256"
  shows "left_pad32 (last32 (der_int n)) = be_bytes 32 n"
proof (rule be_nat_inj)
  note sc = der_scalar_der_int [OF assms]
  have "(2 :: nat) ^ 256 = 256 ^ 32" by simp
  then have "n mod 256 ^ 32 = n" using assms(2) by (intro mod_less) simp
  then show "be_nat (left_pad32 (last32 (der_int n))) = be_nat (be_bytes 32 n)"
    using be_nat_last32(1) [OF sc] by (simp add: left_pad32_def be_nat_be_bytes)
  show "length (left_pad32 (last32 (der_int n))) = length (be_bytes 32 n)"
    using be_nat_last32(3) [OF sc] by simp
qed

lemma find_recID_recovers:
  assumes "i \<le> k" "k < 4" "RecoverPublicKey P (int k) hash r s True = Inr caPub"
  shows "\<exists>j < 4. find_recID P hash r s caPub i = of_nat j \<and> RecoverPublicKey P (int j) hash r s True = Inr caPub"
  using assms
proof (induction P hash r s caPub i rule: find_recID.induct)
  case (1 P hash r s caPub i)
  show ?case
  proof (cases "RecoverPublicKey P (int i) hash r s True = Inr caPub")
    case True
    then show ?thesis using 1(3,4) by (subst find_recID.simps) (intro exI [of _ i], auto)
  next
    case False
    then have "i + 1 \<le> k" using 1(3,5) by (metis add.commute less_eq_Suc_le nat_less_le plus_1_eq_Suc)
    then show ?thesis
      using False 1 by (subst find_recID.simps) (auto split: sum.splits)
  qed
qed

text \<open>C35. A certificate that the CA creates survives storage, whatever numbers its signature consists of
  (short ones and ones with a sign byte in their DER form included): its stored form is 130 bytes, and
  parsing those bytes succeeds with the same identity key and recovers the CA's public key.\<close>

theorem certificate_store_roundtrip:
  assumes "sign_recovers P caPriv (sha256 P pub)" "hashes_ok P" "length pub = 33" "length priv = 32"
  shows "\<exists>c d c'. CreateCertificate P caPriv pub priv = Inr c \<and> ToStoreData c = Inr d \<and> length d = 130
     \<and> ParseCertificate P d = Inr c' \<and> IdentPub c' = pub
     \<and> CAPublicKey c' = ec_compress P (ec_public P caPriv) \<and> certSignature c' = certSignature c"
proof -
  let ?h = "sha256 P pub" and ?ca = "ec_compress P (ec_public P caPriv)"
  obtain m n i where mn: "0 < m" "m < 2 ^ 256" "0 < n" "n < 2 ^ 256" "ec_sign_der P caPriv ?h = der_ecdsa m n"
    and i: "i < 4"
    and rc: "recover_compact P (of_nat (31 + i) # be_bytes 32 m @ be_bytes 32 n) ?h = Inr (ec_public P caPriv)"
    using assms(1) unfolding sign_recovers_def by blast
  define r s where "r = be_bytes 32 m" and "s = be_bytes 32 n"
  have rs: "DERSignatureToRS (ec_sign_der P caPriv ?h) = Inr (last32 (der_int m), last32 (der_int n))"
    using DERSignatureToRS_der_ecdsa [OF mn(1-4)] mn(5) by simp
  have pads: "left_pad32 (last32 (der_int m)) = r" "left_pad32 (last32 (der_int n)) = s"
    using mn(1-4) by (simp_all only: left_pad32_der_int r_def s_def)
  have lrs: "length r = 32" "length s = 32" by (simp_all add: r_def s_def)
  have h: "length ?h = 32" using assms(2) by (simp add: hashes_ok_def)
  have code: "(of_int (27 + int i) :: byte) + 4 = of_nat (31 + i)" by (simp add: add.commute)
  have "RecoverPublicKey P (int i) ?h (r) (s) True = Inr ?ca"
    using i h lrs rc by (simp add: RecoverPublicKey_def Let_def code flip: r_def s_def)
  from find_recID_recovers [OF _ i this] obtain j where j: "j < 4"
    "find_recID P ?h (r) (s) ?ca 0 = of_nat j"
    "RecoverPublicKey P (int j) ?h (r) (s) True = Inr ?ca"
    by auto
  let ?sig = "\<lparr>sigPubKey = ?ca, sigR = r, sigS = s, sigV = of_nat j\<rparr>"
  let ?c = "\<lparr>identPriv = Some priv, identPub = pub, certSignature = ?sig\<rparr>"
  let ?d = "pub @ r @ s @ [of_nat j] @ priv"
  have c: "CreateCertificate P caPriv pub priv = Inr ?c"
    using rs j(2) by (simp add: CreateCertificate_def Let_def pads)
  have d: "ToStoreData ?c = Inr ?d" by (simp add: ToStoreData_def)
  have parts: "gslice 0 33 ?d = pub" "gslice 33 65 ?d = r" "gslice 65 97 ?d = s"
    "?d ! 97 = of_nat j"
    using assms(3) lrs by (simp_all add: gslice_def nth_append)
  have "unat (of_nat j :: byte) = j" using j(1) by (simp add: unat_of_nat)
  then have "ParseCertificate P ?d = Inr \<lparr>identPriv = None, identPub = pub, certSignature = ?sig\<rparr>"
    using assms(3,4) lrs j(3) unfolding ParseCertificate_def parts by (simp add: Let_def)
  then show ?thesis using c d assms(3,4) lrs by (auto simp: IdentPub_def CAPublicKey_def)
qed

lemma toy_sign_der: "ec_sign_der toy_prims sk hash = der_ecdsa 1 1"
proof -
  have "der_ecdsa 1 1 = [0x30, 6, 2, 1, 1, 2, 1, 1]" by code_simp
  then show ?thesis by (simp add: toy_prims_def)
qed

theorem certificate_store_roundtrip_witness:
  "\<exists>c d c'. CreateCertificate toy_prims () (replicate 33 2) (replicate 32 7) = Inr c \<and> ToStoreData c = Inr d
     \<and> length d = 130 \<and> ParseCertificate toy_prims d = Inr c' \<and> IdentPub c' = replicate 33 2
     \<and> CAPublicKey c' = ec_compress toy_prims (ec_public toy_prims ()) \<and> certSignature c' = certSignature c"
proof (rule certificate_store_roundtrip)
  have "ec_sign_der toy_prims () (sha256 toy_prims (replicate 33 2)) = der_ecdsa 1 1"
    by (rule toy_sign_der)
  then show "sign_recovers toy_prims () (sha256 toy_prims (replicate 33 2))"
    unfolding sign_recovers_def by (intro exI [of _ 1] exI [of _ 0]) (simp add: toy_prims_def)
qed simp_all

text \<open>C36. On a proof with the layout the card sends, \<open>VerifyIdentity\<close> returns a key exactly
  when the certificate parses, the rest of the message (template and whatever follows it) is
  a signature, raw at 65 bytes and DER otherwise, that verifies over the hash under the
  certificate's identity key; what it returns is the CA key recovered from the certificate.\<close>

theorem VerifyIdentity_iff:
  assumes "length certData < 2 ^ 30" "length sigBytes < 2 ^ 30"
  shows "VerifyIdentity P hash (tlv_enc (TLV_SIGNATURE_TEMPLATE, tlv_enc (TLV_CERT, certData) @ sigBytes) @ rest) = Inr ca
    \<longleftrightarrow> (let sg = sigBytes @ rest in 2 \<le> length sg \<and>
         (\<exists>c pk verify. ParseCertificate P certData = Inr c \<and> ec_parse P (IdentPub c) = Inr pk
           \<and> (if length sg = 65 then verify = ec_verify P (take 32 sg) (take 32 (drop 32 sg))
              else ec_verify_der P sg = Inr verify)
           \<and> verify hash pk \<and> compressPublicKey (CAPublicKey c) = Inr ca))"
proof -
  have lens: "length certData < 2 ^ 32" "length (tlv_enc (TLV_CERT, certData) @ sigBytes) < 2 ^ 32"
    using assms length_tlv_enc_le [of TLV_CERT certData] by simp_all
  note enter = EnterConstructed_enc [OF lens(2), where us = "[]" and rest = rest
    and tag = TLV_SIGNATURE_TEMPLATE, unfolded append_Nil append_assoc]
  note cert = ReadPrimitive_enc [OF lens(1), where rest = "sigBytes @ rest" and tag = TLV_CERT]
  show ?thesis
  proof (cases "ParseCertificate P certData")
    case (Inr c)
    then show ?thesis
      unfolding VerifyIdentity_def run_reader_def NewBerTlvReader_at
      by (auto simp: bindS_def enter cert returns_iff Let_def gslice_def IdentPub_def CAPublicKey_def not_less
          simp del: TLV_CERT_def TLV_SIGNATURE_TEMPLATE_def)
  qed (simp add: VerifyIdentity_def run_reader_def NewBerTlvReader_at bindS_def enter cert
        del: TLV_CERT_def TLV_SIGNATURE_TEMPLATE_def)
qed

theorem VerifyIdentity_iff_witness:
  "VerifyIdentity toy_prims [] (tlv_enc (TLV_SIGNATURE_TEMPLATE, tlv_enc (TLV_CERT, replicate 98 0) @ replicate 65 1) @ []) = Inr (replicate 33 2)
    \<longleftrightarrow> (let sg = replicate 65 (1 :: byte) @ [] in 2 \<le> length sg \<and>
         (\<exists>c pk verify. ParseCertificate toy_prims (replicate 98 0) = Inr c \<and> ec_parse toy_prims (IdentPub c) = Inr pk
           \<and> (if length sg = 65 then verify = ec_verify toy_prims (take 32 sg) (take 32 (drop 32 sg))
              else ec_verify_der toy_prims sg = Inr verify)
           \<and> verify [] pk \<and> compressPublicKey (CAPublicKey c) = Inr (replicate 33 2)))"
  by (rule VerifyIdentity_iff) simp_all

end
