(* ===== verification/Secure_Channel_V2.thy ===== *)
theory Secure_Channel_V2
  imports Secure_Channel Ccm Certificate
begin

text \<open>
  \<open>secure_channel_v2.go\<close>: the version-2 channel. An ephemeral key agreement authenticated by the
  card's certificate gives two AES-128-CCM keys; every command is encrypted whole under a
  13-byte counter nonce that the response uses too and that advances after it. The state is the
  record \<open>sc2\<close>; \<open>Transmit\<close> is split like that of version 1.
\<close>

section \<open>State and trust anchors\<close>

definition scV2ProtocolLabel :: bytes where "scV2ProtocolLabel = str_bytes ''sc_v2_ccm''"
definition scV2HKDFSaltSize :: nat where [simp]: "scV2HKDFSaltSize = 32"
definition scV2PubkeySize :: nat where [simp]: "scV2PubkeySize = 65"
definition scV2ScalarSize :: nat where [simp]: "scV2ScalarSize = 32"
definition scV2OKMSize :: nat where [simp]: "scV2OKMSize = 32"
definition scV2AESKeySize :: nat where [simp]: "scV2AESKeySize = 16"

record 'sk sc2 =
  caPublicKeys :: "bytes list"
  whitelistedCardKeys :: "bytes list"
  keyH2C :: "bytes option"
  keyC2H :: "bytes option"
  nonceCounter :: bytes            \<comment> \<open>13 bytes\<close>
  open2 :: bool
  cardIdentPub :: "bytes option"
  clientEphPrivKey :: "'sk option"

definition zero_nonce :: bytes where "zero_nonce = replicate 13 0"

definition NewSecureChannelV2 :: "bytes list \<Rightarrow> bytes list \<Rightarrow> 'sk sc2" where
  "NewSecureChannelV2 cas cards = \<lparr>caPublicKeys = cas, whitelistedCardKeys = cards, keyH2C = None,
     keyC2H = None, nonceCounter = zero_nonce, open2 = False, cardIdentPub = None, clientEphPrivKey = None\<rparr>"

definition NewSecureChannelV2WithCA :: "bytes \<Rightarrow> 'sk sc2" where
  "NewSecureChannelV2WithCA ca = NewSecureChannelV2 [ca] []"

definition isCATrusted :: "'sk sc2 \<Rightarrow> bytes \<Rightarrow> bool" where
  "isCATrusted sc caPub \<longleftrightarrow> list_ex (\<lambda>key. key = caPub) (caPublicKeys sc)"

definition isCardWhitelisted :: "'sk sc2 \<Rightarrow> bytes \<Rightarrow> bool" where
  "isCardWhitelisted sc pub \<longleftrightarrow> list_ex (\<lambda>key. key = pub) (whitelistedCardKeys sc)"

definition SetCardCertificate :: "('sk, 'pk) prims \<Rightarrow> bytes \<Rightarrow> ('sk sc2, unit) st" where
  "SetCardCertificate P certData = (\<lambda>sc.
     case ParseCertificate P certData of
       Inl e \<Rightarrow> (Inl (Wrap ''failed to parse card certificate'' e), sc)
     | Inr cert \<Rightarrow>
         let pub = IdentPub cert; sc = sc\<lparr>cardIdentPub := Some pub\<rparr>;
             whitelisted = isCardWhitelisted sc pub;
             caPubBytes = CAPublicKey cert;
             caTrusted = (length caPubBytes = 33 \<and> isCATrusted sc caPubBytes)
         in if \<not> caTrusted \<and> \<not> whitelisted
            then (Inl (Msg ''card certificate verification failed''), sc) else (Inr (), sc))"

definition zeroizeKeys :: "'sk sc2 \<Rightarrow> 'sk sc2" where
  "zeroizeKeys sc = sc\<lparr>keyH2C := None, keyC2H := None\<rparr>"

definition V2_Reset :: "'sk sc2 \<Rightarrow> 'sk sc2" where
  "V2_Reset sc = (zeroizeKeys (sc\<lparr>open2 := False\<rparr>))
     \<lparr>nonceCounter := zero_nonce, cardIdentPub := None, clientEphPrivKey := None\<rparr>"

section \<open>Signatures\<close>

definition scalarFromDERInteger :: "bytes \<Rightarrow> bytes res" where
  "scalarFromDERInteger content =
     (let content = (if content \<noteq> [] \<and> content ! 0 = 0 then drop 1 content else content) in
      if length content = 0 \<or> scV2ScalarSize < length content then Inl (Msg ''invalid DER signature: bad length'')
      else Inr (replicate (scV2ScalarSize - length content) 0 @ content))"

definition parseDERSignature :: "bytes \<Rightarrow> (bytes \<times> bytes) res" where
  "parseDERSignature derSig = run_reader (readS (\<lambda>rd.
     if \<not> NextTagIs TLV_ECDSA_TEMPLATE rd then failS (Msg ''invalid DER signature: not a SEQUENCE'')
     else
       bindS (wrapS ''invalid DER signature: truncated'' (EnterConstructed TLV_ECDSA_TEMPLATE)) (\<lambda>seqLen.
       readS (\<lambda>rd.
         let content = PeekUnread rd in
         if length content < unat seqLen then failS (Msg ''invalid DER signature: truncated'')
         else liftS (run_reader
           (bindS (wrapS ''invalid DER signature: R is not an INTEGER'' (ReadPrimitive TLV_INT)) (\<lambda>rRaw.
            bindS (wrapS ''invalid DER signature: S is not an INTEGER'' (ReadPrimitive TLV_INT)) (\<lambda>sRaw.
            bindS (liftS (scalarFromDERInteger rRaw)) (\<lambda>r.
            bindS (liftS (scalarFromDERInteger sRaw)) (\<lambda>s. returnS (r, s)))))) (take (unat seqLen) content)))))) derSig"

text \<open>The loop over the recovery ids \<open>v .. 3\<close>; errors of one id move on to the next.\<close>

function recover_from ::
  "('sk, 'pk) prims \<Rightarrow> bytes \<Rightarrow> bytes \<Rightarrow> bytes \<Rightarrow> 'pk \<Rightarrow> nat \<Rightarrow> 'pk res" where
  "recover_from P hash r s expectedPub v =
     (if v \<le> 3 then
        (case ecrecover P hash (r @ s @ [of_nat v]) of
           Inl _ \<Rightarrow> recover_from P hash r s expectedPub (v + 1)
         | Inr recovered \<Rightarrow>
             (case ec_unmarshal P recovered of
                Inl _ \<Rightarrow> recover_from P hash r s expectedPub (v + 1)
              | Inr recoveredPub \<Rightarrow>
                  if recovered = ec_marshal P expectedPub then Inr recoveredPub
                  else recover_from P hash r s expectedPub (v + 1)))
      else Inl (Msg ''signature verification failed: no recovery ID produced matching key''))"
  by pat_completeness auto
termination
  by (relation "measure (\<lambda>(P, h, r, s, e, v). 4 - v)") auto

declare recover_from.simps [simp del]

definition verifySignatureByRecovery :: "('sk, 'pk) prims \<Rightarrow> bytes \<Rightarrow> bytes \<Rightarrow> 'pk \<Rightarrow> 'pk res" where
  "verifySignatureByRecovery P hash derSig expectedPub =
     bindE (wrapE ''failed to parse DER signature'' (parseDERSignature derSig)) (\<lambda>(r, s).
       recover_from P hash r s expectedPub 0)"

definition verifyCardSignature ::
  "('sk, 'pk) prims \<Rightarrow> bytes \<Rightarrow> 'pk \<Rightarrow> 'pk \<Rightarrow> bytes \<Rightarrow> 'sk sc2 \<Rightarrow> unit res" where
  "verifyCardSignature P salt clientPub cardPub signatureBytes sc =
     (case cardIdentPub sc of
        None \<Rightarrow> Inl (Msg ''card identity public key not available'')
      | Some identPubBytes \<Rightarrow>
          let transcriptHash = sha256 P (scV2ProtocolLabel @ salt @ ec_marshal P clientPub @ ec_marshal P cardPub) in
          bindE (wrapE ''failed to decompress identity public key'' (ec_decompress P identPubBytes)) (\<lambda>identPub.
          bindE (wrapE ''card authentication failed''
              (verifySignatureByRecovery P transcriptHash signatureBytes identPub)) (\<lambda>recovered.
          guardE (ec_compress P recovered = identPubBytes)
            (Msg ''card authentication failed: recovered key does not match identity key''))))"

section \<open>Handshake\<close>

definition hkdfDerive :: "('sk, 'pk) prims \<Rightarrow> bytes \<Rightarrow> bytes \<Rightarrow> bytes \<Rightarrow> bytes res" where
  "hkdfDerive P label salt ikm = HKDFDerive P label salt ikm scV2OKMSize"

definition processHandshakeResponse ::
  "('sk, 'pk) prims \<Rightarrow> bytes \<Rightarrow> 'sk \<Rightarrow> bytes \<Rightarrow> ('sk sc2, unit) st" where
  "processHandshakeResponse P salt clientEphPriv cardResponse = (\<lambda>sc.
     if length cardResponse < scV2PubkeySize + 2 then (Inl (Msg ''invalid handshake response: too short''), sc)
     else
       let cardEphPubBytes = take scV2PubkeySize cardResponse;
           signatureBytes = drop scV2PubkeySize cardResponse
       in case ec_unmarshal P cardEphPubBytes of
            Inl e \<Rightarrow> (Inl (Wrap ''invalid card ephemeral public key'' e), sc)
          | Inr cardEphPub \<Rightarrow>
              let sharedSecret = GenerateECDHSharedSecret P clientEphPriv cardEphPub in
              (case hkdfDerive P scV2ProtocolLabel salt sharedSecret of
                 Inl e \<Rightarrow> (Inl (Wrap ''HKDF derivation failed'' e), sc)
               | Inr okm \<Rightarrow>
                   let sc = sc\<lparr>keyH2C := Some (gcopy scV2AESKeySize (take scV2AESKeySize okm)),
                               keyC2H := Some (gcopy scV2AESKeySize (drop scV2AESKeySize okm))\<rparr>
                   in case verifyCardSignature P salt (ec_public P clientEphPriv) cardEphPub signatureBytes sc of
                        Inl e \<Rightarrow> (Inl e, zeroizeKeys sc)
                      | Inr _ \<Rightarrow> (Inr (), sc\<lparr>nonceCounter := zero_nonce, open2 := True\<rparr>)))"

definition V2_AutoOpen :: "('sk, 'pk) prims \<Rightarrow> ('w, 'sk) env \<Rightarrow> ('sk sc2 \<times> 'w, unit) st" where
  "V2_AutoOpen P env =
     bindS (localS (modifyS (\<lambda>sc. sc\<lparr>open2 := False\<rparr>))) (\<lambda>_.
     bindS (wrapS ''failed to generate random salt'' (worldS (env_rand env scV2HKDFSaltSize))) (\<lambda>salt.
     bindS (wrapS ''failed to generate ephemeral secret'' (worldS (env_key env))) (\<lambda>clientEphPriv.
     bindS (localS (modifyS (\<lambda>sc. sc\<lparr>clientEphPrivKey := Some clientEphPriv\<rparr>))) (\<lambda>_.
     let requestData = salt @ ec_marshal P (ec_public P clientEphPriv) in
     bindS (worldS (env_send env (NewCommand ClaGp InsOpenSecureChannel 0 0 requestData))) (\<lambda>resp.
     if Sw resp \<noteq> SwOK then failS (BadResponse (Sw resp))
     else localS (processHandshakeResponse P salt clientEphPriv (RData resp)))))))"

definition V2_OpenSecureChannel :: "('w, 'sk) env \<Rightarrow> byte \<Rightarrow> bytes \<Rightarrow> ('sk sc2 \<times> 'w, response) st" where
  "V2_OpenSecureChannel env index data =
     bindS (localS (modifyS (\<lambda>sc. sc\<lparr>open2 := False\<rparr>))) (\<lambda>_.
     worldS (env_send env (NewCommand ClaGp InsOpenSecureChannel 0 0 data)))"

text \<open>The operations of version 1 that version 2 refuses.\<close>

definition V2_AutoPair :: "('s, unit) st" where
  "V2_AutoPair = failS (Msg ''pairing is not supported in Secure Channel V2'')"

definition V2_AutoUnpair :: "('s, unit) st" where
  "V2_AutoUnpair = failS (Msg ''unpairing is not supported in Secure Channel V2'')"

definition V2_UnpairOthers :: "('s, unit) st" where
  "V2_UnpairOthers = failS (Msg ''unpairing is not supported in Secure Channel V2'')"

definition V2_MutuallyAuthenticate :: "('s, response) st" where
  "V2_MutuallyAuthenticate = failS (Msg ''mutual authentication is not a separate step in Secure Channel V2'')"

definition V2_Pair :: "('s, response) st" where
  "V2_Pair = failS (Msg ''pairing is not supported in Secure Channel V2'')"

definition V2_Unpair :: "('s, response) st" where
  "V2_Unpair = failS (Msg ''unpairing is not supported in Secure Channel V2'')"

section \<open>Protected commands\<close>

definition encryptCCM :: "('sk, 'pk) prims \<Rightarrow> bytes \<Rightarrow> 'sk sc2 \<Rightarrow> bytes res" where
  "encryptCCM P plaintext sc =
     (case keyH2C sc of
        None \<Rightarrow> Inl (Msg ''no client-to-card key available'')
      | Some key \<Rightarrow> AESCCMEncrypt P key (nonceCounter sc) plaintext)"

definition decryptCCM :: "('sk, 'pk) prims \<Rightarrow> bytes \<Rightarrow> 'sk sc2 \<Rightarrow> bytes res" where
  "decryptCCM P ciphertext sc =
     (case keyC2H sc of
        None \<Rightarrow> Inl (Msg ''no card-to-client key available'')
      | Some key \<Rightarrow> AESCCMDecrypt P key (nonceCounter sc) ciphertext)"

text \<open>The loop of \<open>incrementNonce\<close> below index \<open>i\<close>; the flag is the overflow behind it.\<close>

fun increment_below :: "nat \<Rightarrow> bytes \<Rightarrow> bytes \<times> bool" where
  "increment_below 0 n = (n, True)"
| "increment_below (Suc i) n =
     (let n = n[i := n ! i + 1] in if n ! i \<noteq> 0 then (n, False) else increment_below i n)"

definition incrementNonce :: "'sk sc2 \<Rightarrow> 'sk sc2" where
  "incrementNonce sc =
     (let (n, overflow) = increment_below (length (nonceCounter sc)) (nonceCounter sc);
          sc = sc\<lparr>nonceCounter := n\<rparr>
      in if overflow then sc\<lparr>open2 := False\<rparr> else sc)"

text \<open>The command as it is encrypted.\<close>

definition inner_apdu :: "byte \<Rightarrow> byte \<Rightarrow> byte \<Rightarrow> byte \<Rightarrow> bytes \<Rightarrow> bytes" where
  "inner_apdu cla ins p1 p2 data = [cla, ins, p1, p2, of_nat (length data)] @ data"

definition V2_ProtectedCommand ::
  "('sk, 'pk) prims \<Rightarrow> byte \<Rightarrow> byte \<Rightarrow> byte \<Rightarrow> byte \<Rightarrow> bytes \<Rightarrow> ('sk sc2, command) st" where
  "V2_ProtectedCommand P cla ins p1 p2 data = (\<lambda>sc.
     if \<not> open2 sc then (Inr (NewCommand cla ins p1 p2 data), sc)
     else if 255 < length data then (Inl (Msg ''protected command payload too large''), sc)
     else
       let inner = inner_apdu cla ins p1 p2 data in
       (case encryptCCM P inner sc of
          Inl e \<Rightarrow> (Inl (Wrap ''AES-CCM encryption failed'' e), sc)
        | Inr ciphertext \<Rightarrow> (Inr (NewCommand ClaGp InsSecuredAPDU 0 0 ciphertext), sc)))"

definition V2_receive :: "('sk, 'pk) prims \<Rightarrow> response res \<Rightarrow> ('sk sc2, response) st" where
  "V2_receive P r = (\<lambda>sc.
     case r of
       Inl e \<Rightarrow> (Inl e, sc\<lparr>open2 := False\<rparr>)
     | Inr resp \<Rightarrow>
         if Sw resp \<noteq> SwOK then (Inr resp, sc\<lparr>open2 := False\<rparr>)
         else if \<not> open2 sc then (Inr resp, sc)
         else
           (case decryptCCM P (RData resp) sc of
              Inl e \<Rightarrow> (Inl (Wrap ''AES-CCM decryption failed'' e), sc\<lparr>open2 := False\<rparr>)
            | Inr plaintext \<Rightarrow> (ParseResponse plaintext, incrementNonce sc)))"

definition V2_Transmit :: "('sk, 'pk) prims \<Rightarrow> ('w, 'sk) env \<Rightarrow> command \<Rightarrow> ('sk sc2 \<times> 'w, response) st" where
  "V2_Transmit P env cmd = transmit_via (V2_receive P) env cmd"

definition V2_exchange ::
  "('sk, 'pk) prims \<Rightarrow> ('w, 'sk) env \<Rightarrow> byte \<Rightarrow> byte \<Rightarrow> byte \<Rightarrow> byte \<Rightarrow> bytes \<Rightarrow> ('sk sc2 \<times> 'w, response) st" where
  "V2_exchange P env cla ins p1 p2 data =
     bindS (localS (V2_ProtectedCommand P cla ins p1 p2 data)) (V2_Transmit P env)"

section \<open>The nonce counter\<close>

lemma byte_succ: "unat (b + 1 :: byte) = (if unat b = 255 then 0 else unat b + 1)" "b + 1 = 0 \<longleftrightarrow> unat (b :: byte) = 255"
proof -
  have m: "unat (b + 1) = (unat b + 1) mod 256" by (simp add: unat_word_ariths)
  show *: "unat (b + 1 :: byte) = (if unat b = 255 then 0 else unat b + 1)"
    using m unat_byte_lt [of b] by (auto simp del: unat_byte_lt)
  show "b + 1 = 0 \<longleftrightarrow> unat (b :: byte) = 255"
    using * unat_eq_zero [of "b + 1"] by (auto split: if_splits)
qed

lemma increment_below_spec:
  "i \<le> length n \<Longrightarrow> increment_below i n = (n', ovf) \<Longrightarrow>
   length n' = length n \<and> drop i n' = drop i n
   \<and> (if be_nat (take i n) + 1 < 256 ^ i then be_nat (take i n') = be_nat (take i n) + 1 \<and> \<not> ovf
      else be_nat (take i n') = 0 \<and> ovf)"
proof (induction i arbitrary: n)
  case 0
  then show ?case by simp
next
  case (Suc i)
  let ?m = "n[i := n ! i + 1]"
  have i: "i < length n" using Suc.prems(1) by simp
  have tk: "be_nat (take (Suc i) xs) = be_nat (take i xs) * 256 + unat (xs ! i)" if "length xs = length n" for xs :: bytes
    using i that by (simp add: take_Suc_conv_app_nth)
  have mi: "?m ! i = n ! i + 1" using i by simp
  have lt: "be_nat (take i n) < 256 ^ i" using be_nat_lt [of "take i n"] i by simp
  show ?case
  proof (cases "n ! i + 1 = 0")
    case False
    then have n': "n' = ?m" "\<not> ovf" using Suc.prems(2) mi by (simp_all add: Let_def)
    have u: "unat (n ! i + 1) = unat (n ! i) + 1" using False byte_succ [of "n ! i"] by simp
    then have "unat (n ! i) + 1 < 256" using unat_byte_lt [of "n ! i + 1"] by simp
    moreover have "(be_nat (take i n) + 1) * 256 \<le> 256 ^ i * 256" using lt by (intro mult_le_mono1) simp
    ultimately have "be_nat (take (Suc i) n) + 1 < 256 ^ Suc i" using tk [of n] by simp
    then show ?thesis using n' u tk [of n] tk [of ?m] i by simp
  next
    case True
    then have rec: "increment_below i ?m = (n', ovf)" using Suc.prems(2) mi by (simp add: Let_def)
    have "i \<le> length ?m" using i by simp
    from Suc.IH [OF this rec] have IH: "length n' = length n" "drop i n' = drop i ?m"
      "if be_nat (take i n) + 1 < 256 ^ i then be_nat (take i n') = be_nat (take i n) + 1 \<and> \<not> ovf
       else be_nat (take i n') = 0 \<and> ovf" by simp_all
    have "n' ! i = 0" using IH(1,2) i mi True by (metis drop_nth_Cons length_list_update list.inject)
    moreover have "drop (Suc i) n' = drop (Suc i) n"
      using IH(2) by (metis drop_Suc drop_update_cancel lessI tl_drop)
    moreover have "unat (n ! i) = 255" using True byte_succ by simp
    ultimately show ?thesis using IH tk [of n] tk [of n'] lt by (auto split: if_splits)
  qed
qed

lemma be_bytes_0: "be_bytes n 0 = replicate n 0"
  by (induction n) (simp_all add: replicate_append_same)

text \<open>The counter is a big-endian number: it advances by one, and overflow closes the channel.\<close>

lemma incrementNonce_spec:
  assumes "length (nonceCounter sc) = 13"
  shows "if be_nat (nonceCounter sc) + 1 < 256 ^ 13
    then incrementNonce sc = sc\<lparr>nonceCounter := be_bytes 13 (be_nat (nonceCounter sc) + 1)\<rparr>
    else incrementNonce sc = sc\<lparr>nonceCounter := zero_nonce, open2 := False\<rparr>"
proof -
  obtain n' ovf where inc: "increment_below 13 (nonceCounter sc) = (n', ovf)" by (cases "increment_below 13 (nonceCounter sc)")
  have le: "13 \<le> length (nonceCounter sc)" using assms by simp
  note spec = increment_below_spec [OF le inc]
  have l: "length n' = 13" using spec assms by simp
  have "take 13 n' = n'" "take 13 (nonceCounter sc) = nonceCounter sc" using l assms by simp_all
  note s = spec [unfolded this]
  have n': "n' = be_bytes 13 (be_nat n')" using be_bytes_be_nat [of n'] l by simp
  have z: "be_bytes 13 0 = zero_nonce" by (simp add: zero_nonce_def be_bytes_0)
  have inc': "incrementNonce sc = (if ovf then sc\<lparr>nonceCounter := n', open2 := False\<rparr> else sc\<lparr>nonceCounter := n'\<rparr>)"
    using inc assms by (simp add: incrementNonce_def)
  show ?thesis
  proof (cases "be_nat (nonceCounter sc) + 1 < 256 ^ 13")
    case True
    with s have "be_nat n' = be_nat (nonceCounter sc) + 1 \<and> \<not> ovf" by (simp only: if_True) simp
    then show ?thesis using inc' n' True by simp
  next
    case False
    with s have "be_nat n' = 0 \<and> ovf" by (simp only: if_False)
    then show ?thesis using inc' n' z False by simp
  qed
qed

section \<open>The interface\<close>

interpretation v2: secure_channel "V2_ProtectedCommand P" "V2_receive P" open2 for P :: "('sk, 'pk) prims"
proof unfold_locales
  fix sc c' :: "'sk sc2" and cla ins p1 p2 :: byte and data cmd r e
  assume closed: "\<not> open2 sc"
  show "\<not> open2 (snd (V2_ProtectedCommand P cla ins p1 p2 data sc))"
    using closed by (simp add: V2_ProtectedCommand_def)
  show "\<exists>c'. V2_receive P (Inr r) sc = (Inr r, c') \<and> \<not> open2 c'"
    using closed by (simp add: V2_receive_def)
  assume "V2_ProtectedCommand P cla ins p1 p2 data sc = (Inr cmd, c')"
  then show "cmd = NewCommand cla ins p1 p2 data" using closed by (simp add: V2_ProtectedCommand_def)
qed (simp add: V2_receive_def)

lemma V2_exchange_via: "V2_exchange P env cla ins p1 p2 data = exchange_via (V2_ProtectedCommand P) (V2_receive P) env cla ins p1 p2 data"
proof -
  have "V2_Transmit P env = transmit_via (V2_receive P) env" by (rule ext) (simp add: V2_Transmit_def)
  then show ?thesis by (simp add: V2_exchange_def exchange_via_def)
qed

text \<open>Version 2 does not remember that it was established: once a transport error, a bad
  status word, a failed decryption or a nonce overflow has closed the channel, an exchange
  sends the command as it is, in the clear, and returns the card's answer as it is.\<close>

theorem V2_closed_is_plaintext:
  assumes "\<not> open2 sc"
  shows "\<exists>sc'. V2_exchange P env cla ins p1 p2 data (sc, w) =
      (fst (env_send env (NewCommand cla ins p1 p2 data) w), sc', snd (env_send env (NewCommand cla ins p1 p2 data) w))
    \<and> \<not> open2 sc'"
proof -
  have p: "V2_ProtectedCommand P cla ins p1 p2 data sc = (Inr (NewCommand cla ins p1 p2 data), sc)"
    using assms by (simp add: V2_ProtectedCommand_def)
  have "\<exists>sc'. V2_receive P r sc = (r, sc') \<and> \<not> open2 sc'" for r
    using assms by (cases r) (simp_all add: V2_receive_def)
  then obtain sc' where "V2_receive P (fst (env_send env (NewCommand cla ins p1 p2 data) w)) sc =
      (fst (env_send env (NewCommand cla ins p1 p2 data) w), sc')" "\<not> open2 sc'"
    by blast
  then show ?thesis using p by (simp add: V2_exchange_def V2_Transmit_def transmit_via_apply)
qed

theorem V2_closed_is_plaintext_witness:
  "\<exists>sc'. V2_exchange toy_prims toy_env 0x80 0x20 0 0 [1, 2, 3, 4] (NewSecureChannelV2 [] [], ()) =
      (fst (env_send toy_env (NewCommand 0x80 0x20 0 0 [1, 2, 3, 4]) ()), sc',
       snd (env_send toy_env (NewCommand 0x80 0x20 0 0 [1, 2, 3, 4]) ()))
    \<and> \<not> open2 sc'"
  by (rule V2_closed_is_plaintext) (simp add: NewSecureChannelV2_def)

section \<open>Invariant\<close>

definition v2_inv :: "'sk sc2 \<Rightarrow> bool" where
  "v2_inv sc \<longleftrightarrow> length (nonceCounter sc) = 13 \<and>
     (open2 sc \<longrightarrow> (\<exists>h c. keyH2C sc = Some h \<and> length h = 16 \<and> keyC2H sc = Some c \<and> length c = 16))"

lemma v2_invD:
  assumes "v2_inv sc" "open2 sc"
  obtains h c where "keyH2C sc = Some h" "length h = 16" "keyC2H sc = Some c" "length c = 16"
  using assms by (auto simp: v2_inv_def)

lemma incrementNonce_inv: "v2_inv sc \<Longrightarrow> v2_inv (incrementNonce sc)"
  using incrementNonce_spec [of sc]
  by (cases "be_nat (nonceCounter sc) + 1 < 256 ^ 13") (simp_all add: v2_inv_def zero_nonce_def)

named_theorems v2_keeps

lemma V2_ProtectedCommand_inv [v2_keeps]: "keeps v2_inv (V2_ProtectedCommand P cla ins p1 p2 data)"
  by (rule keepsI) (auto simp: V2_ProtectedCommand_def Let_def split: sum.split)

lemma V2_receive_inv [v2_keeps]: "keeps v2_inv (V2_receive (P :: ('a, 'b) prims) r)"
proof (rule keepsI)
  fix sc :: "'a sc2"
  assume inv: "v2_inv sc"
  then have "v2_inv (sc\<lparr>open2 := False\<rparr>)" by (simp add: v2_inv_def)
  then show "v2_inv (snd (V2_receive P r sc))"
    using inv incrementNonce_inv by (auto simp: V2_receive_def split: sum.split)
qed

lemma V2_Transmit_inv [v2_keeps]: "keepsL v2_inv (V2_Transmit P env cmd)"
  unfolding V2_Transmit_def by (intro keepsL_intros v2_keeps)

lemma V2_exchange_inv [v2_keeps]: "keepsL v2_inv (V2_exchange P env cla ins p1 p2 data)"
  unfolding V2_exchange_def by (intro keepsL_intros v2_keeps)

lemma keeps_modify2: "(\<And>s. Q s \<Longrightarrow> Q (f s)) \<Longrightarrow> keeps Q (modifyS f)"
  by (simp add: keeps_def)

text \<open>The request of the handshake, and the answer of the card to it.\<close>

definition handshake ::
  "('sk, 'pk) prims \<Rightarrow> ('w, 'sk) env \<Rightarrow> bytes \<Rightarrow> 'sk \<Rightarrow> response \<Rightarrow> 'w \<Rightarrow> 'w \<Rightarrow> bool" where
  "handshake P env salt priv resp w w' \<longleftrightarrow>
     (\<exists>w1 w2. env_rand env 32 w = (Inr salt, w1) \<and> env_key env w1 = (Inr priv, w2) \<and> Sw resp = 0x9000
       \<and> env_send env (NewCommand 0x80 0x10 0 0 (salt @ ec_marshal P (ec_public P priv))) w2 = (Inr resp, w'))"

text \<open>\<open>AutoOpen\<close> ends closed, or with the processing of the card's response on a closed channel.\<close>

lemma V2_AutoOpen_cases:
  assumes "V2_AutoOpen P env (sc, w) = (x, sc', w')"
  shows "(\<exists>e k. x = Inl e \<and> sc' = sc\<lparr>open2 := False, clientEphPrivKey := k\<rparr>) \<or>
    (\<exists>salt priv resp. handshake P env salt priv resp w w' \<and>
       processHandshakeResponse P salt priv (RData resp) (sc\<lparr>open2 := False, clientEphPrivKey := Some priv\<rparr>) = (x, sc'))"
proof -
  let ?sc = "sc\<lparr>open2 := False\<rparr>"
  have same: "?sc = sc\<lparr>open2 := False, clientEphPrivKey := clientEphPrivKey sc\<rparr>" by simp
  obtain rs w1 where salt: "env_rand env 32 w = (rs, w1)" by (cases "env_rand env 32 w")
  show ?thesis
  proof (cases rs)
    case (Inl e)
    then show ?thesis using assms salt same by (auto simp: V2_AutoOpen_def bindS_def)
  next
    case (Inr salt')
    obtain rk w2 where key: "env_key env w1 = (rk, w2)" by (cases "env_key env w1")
    show ?thesis
    proof (cases rk)
      case (Inl e)
      then show ?thesis using assms salt key Inr same by (auto simp: V2_AutoOpen_def bindS_def)
    next
      case priv: (Inr priv)
      let ?cmd = "NewCommand 0x80 0x10 0 0 (salt' @ ec_marshal P (ec_public P priv))"
      obtain rr w3 where send: "env_send env ?cmd w2 = (rr, w3)" by (cases "env_send env ?cmd w2")
      show ?thesis
      proof (cases "\<exists>resp. rr = Inr resp \<and> Sw resp = 0x9000")
        case False
        then show ?thesis using assms salt key send Inr priv
          by (cases rr) (auto simp: V2_AutoOpen_def bindS_def Let_def)
      next
        case True
        then obtain resp where "rr = Inr resp" "Sw resp = 0x9000" by blast
        then have "processHandshakeResponse P salt' priv (RData resp)
            (sc\<lparr>open2 := False, clientEphPrivKey := Some priv\<rparr>) = (x, sc')"
          and "w' = w3"
          using assms salt key send Inr priv by (simp_all add: V2_AutoOpen_def bindS_def Let_def prod_eq_iff)
        then show ?thesis using salt key send Inr priv \<open>rr = Inr resp\<close> \<open>Sw resp = 0x9000\<close>
          unfolding handshake_def by blast
      qed
    qed
  qed
qed

lemma processHandshakeResponse_inv:
  "v2_inv sc \<Longrightarrow> \<not> open2 sc \<Longrightarrow> v2_inv (snd (processHandshakeResponse P salt priv resp sc))"
  by (auto simp: processHandshakeResponse_def Let_def v2_inv_def zero_nonce_def zeroizeKeys_def split: sum.split)

lemma V2_AutoOpen_inv [v2_keeps]: "keepsL v2_inv (V2_AutoOpen P env)"
proof -
  have "v2_inv (fst (snd (V2_AutoOpen P env (sc, w))))" if inv: "v2_inv sc" for sc w
  proof -
    obtain x sc' w' where r: "V2_AutoOpen P env (sc, w) = (x, sc', w')" by (cases "V2_AutoOpen P env (sc, w)")
    have inv': "v2_inv (sc\<lparr>open2 := False, clientEphPrivKey := k\<rparr>)" for k using inv by (simp add: v2_inv_def)
    have "v2_inv sc'" using V2_AutoOpen_cases [OF r]
    proof (elim disjE exE conjE)
      fix salt priv resp
      assume "processHandshakeResponse P salt priv (RData resp) (sc\<lparr>open2 := False, clientEphPrivKey := Some priv\<rparr>) = (x, sc')"
      then show "v2_inv sc'" using processHandshakeResponse_inv [OF inv', of "Some priv" P salt priv "RData resp"] by simp
    qed (simp add: inv')
    then show ?thesis using r by simp
  qed
  then show ?thesis by (auto simp: keepsL_def keeps_def)
qed

lemma SetCardCertificate_inv [v2_keeps]: "keeps v2_inv (SetCardCertificate P data)"
  by (rule keepsI) (auto simp: SetCardCertificate_def Let_def v2_inv_def split: sum.split)

section \<open>Handshake\<close>

lemma recover_from_Inr:
  "recover_from P hash r s expd v = Inr pk \<Longrightarrow>
   \<exists>k \<le> 3. v \<le> k \<and> ecrecover P hash (r @ s @ [of_nat k]) = Inr (ec_marshal P expd) \<and> ec_unmarshal P (ec_marshal P expd) = Inr pk"
proof (induction P hash r s expd v rule: recover_from.induct)
  case (1 P hash r s expd v)
  from 1(4) have v: "v \<le> 3" by (subst (asm) recover_from.simps) (simp split: if_splits)
  show ?case
  proof (cases "ecrecover P hash (r @ s @ [of_nat v]) = Inr (ec_marshal P expd) \<and> ec_unmarshal P (ec_marshal P expd) = Inr pk")
    case False
    then have rest: "recover_from P hash r s expd (v + 1) = Inr pk"
      using 1(4) v by (subst (asm) recover_from.simps) (auto split: sum.splits if_splits)
    have "\<exists>k \<le> 3. v + 1 \<le> k \<and> ecrecover P hash (r @ s @ [of_nat k]) = Inr (ec_marshal P expd) \<and> ec_unmarshal P (ec_marshal P expd) = Inr pk"
    proof (cases "ecrecover P hash (r @ s @ [of_nat v])")
      case (Inl e)
      then show ?thesis using 1(1) [OF v Inl] rest by simp
    next
      case (Inr rec)
      show ?thesis
      proof (cases "ec_unmarshal P rec")
        case (Inl e)
        then show ?thesis using 1(2) [OF v Inr Inl] rest by simp
      next
        case Inr': (Inr rp)
        have "rec \<noteq> ec_marshal P expd"
          using False Inr Inr' 1(4) v by (subst (asm) recover_from.simps) auto
        then show ?thesis using 1(3) [OF v Inr Inr'] rest by simp
      qed
    qed
    then show ?thesis by auto
  qed (use v in auto)
qed

lemma processHandshakeResponse_Inr:
  assumes "processHandshakeResponse P salt priv resp sc = (Inr u, sc')"
  shows "open2 sc' \<and> nonceCounter sc' = zero_nonce \<and>
      (\<exists>cardPub r s identPub ident v okm.
         cardIdentPub sc = Some ident \<and> ec_decompress P ident = Inr identPub
         \<and> ec_unmarshal P (take 65 resp) = Inr cardPub
         \<and> parseDERSignature (drop 65 resp) = Inr (r, s) \<and> v \<le> 3
         \<and> ecrecover P (sha256 P (scV2ProtocolLabel @ salt @ ec_marshal P (ec_public P priv) @ ec_marshal P cardPub))
             (r @ s @ [of_nat v]) = Inr (ec_marshal P identPub)
         \<and> hkdfDerive P scV2ProtocolLabel salt (GenerateECDHSharedSecret P priv cardPub) = Inr okm
         \<and> keyH2C sc' = Some (gcopy 16 (take 16 okm)) \<and> keyC2H sc' = Some (gcopy 16 (drop 16 okm)))"
proof -
  let ?S = "\<lambda>okm. sc\<lparr>keyH2C := Some (gcopy 16 (take 16 okm)), keyC2H := Some (gcopy 16 (drop 16 okm))\<rparr>"
  from assms obtain cardPub okm where
    h: "ec_unmarshal P (take 65 resp) = Inr cardPub"
      "hkdfDerive P scV2ProtocolLabel salt (GenerateECDHSharedSecret P priv cardPub) = Inr okm"
      "verifyCardSignature P salt (ec_public P priv) cardPub (drop 65 resp) (?S okm) = Inr ()"
    and sc': "sc' = (?S okm)\<lparr>nonceCounter := zero_nonce, open2 := True\<rparr>"
    by (auto simp: processHandshakeResponse_def Let_def split: if_splits sum.splits)
  let ?h = "sha256 P (scV2ProtocolLabel @ salt @ ec_marshal P (ec_public P priv) @ ec_marshal P cardPub)"
  from h(3) obtain ident identPub r s rec where
    v: "cardIdentPub sc = Some ident" "ec_decompress P ident = Inr identPub"
      "parseDERSignature (drop 65 resp) = Inr (r, s)" "recover_from P ?h r s identPub 0 = Inr rec"
    by (auto simp: verifyCardSignature_def verifySignatureByRecovery_def Let_def returns_iff split: option.splits)
  from recover_from_Inr [OF v(4)] obtain k where "k \<le> 3" "ecrecover P ?h (r @ s @ [of_nat k]) = Inr (ec_marshal P identPub)"
    by blast
  with h(1,2) v(1-3) sc' show ?thesis by auto
qed

lemma V2_AutoOpen_Inr:
  assumes "V2_AutoOpen P env (sc, w) = (Inr u, sc', w')"
  shows "open2 sc' \<and> nonceCounter sc' = zero_nonce \<and>
      (\<exists>salt priv resp cardPub r s identPub ident v okm.
         handshake P env salt priv resp w w' \<and> cardIdentPub sc = Some ident \<and> ec_decompress P ident = Inr identPub
         \<and> ec_unmarshal P (take 65 (RData resp)) = Inr cardPub
         \<and> parseDERSignature (drop 65 (RData resp)) = Inr (r, s) \<and> v \<le> 3
         \<and> ecrecover P (sha256 P (scV2ProtocolLabel @ salt @ ec_marshal P (ec_public P priv) @ ec_marshal P cardPub))
             (r @ s @ [of_nat v]) = Inr (ec_marshal P identPub)
         \<and> hkdfDerive P scV2ProtocolLabel salt (GenerateECDHSharedSecret P priv cardPub) = Inr okm
         \<and> keyH2C sc' = Some (gcopy 16 (take 16 okm)) \<and> keyC2H sc' = Some (gcopy 16 (drop 16 okm)))"
  using V2_AutoOpen_cases [OF assms]
proof (elim disjE exE conjE)
  fix salt priv resp
  assume hs: "handshake P env salt priv resp w w'"
    and p: "processHandshakeResponse P salt priv (RData resp) (sc\<lparr>open2 := False, clientEphPrivKey := Some priv\<rparr>) = (Inr u, sc')"
  have c: "cardIdentPub (sc\<lparr>open2 := False, clientEphPrivKey := Some priv\<rparr>) = cardIdentPub sc" by simp
  show ?thesis using processHandshakeResponse_Inr [OF p, unfolded c] hs by blast
qed simp

lemma V2_AutoOpen_Inl:
  assumes "V2_AutoOpen P env (sc, w) = (Inl e, sc', w')"
  shows "\<not> open2 sc'"
  using V2_AutoOpen_cases [OF assms]
  by (elim disjE exE conjE) (auto simp: processHandshakeResponse_def zeroizeKeys_def Let_def split: if_splits sum.splits)

text \<open>C8. The handshake authenticates the card: \<open>AutoOpen\<close> succeeds only if the response carries an
  ephemeral key and a DER signature from which, over the hash of label, salt and both
  ephemeral keys, some recovery id recovers the public key that the card's certificate gave;
  the channel is then open with nonce zero and the two halves of the HKDF output of the shared
  secret as keys. If it fails, the channel is closed.\<close>

theorem V2_AutoOpen_authenticates:
  assumes "V2_AutoOpen P env (sc, w) = (x, sc', w')"
  shows "case x of
     Inl e \<Rightarrow> \<not> open2 sc'
   | Inr _ \<Rightarrow> open2 sc' \<and> nonceCounter sc' = zero_nonce \<and>
      (\<exists>salt priv resp cardPub r s identPub ident v okm.
         handshake P env salt priv resp w w' \<and> cardIdentPub sc = Some ident \<and> ec_decompress P ident = Inr identPub
         \<and> ec_unmarshal P (take 65 (RData resp)) = Inr cardPub
         \<and> parseDERSignature (drop 65 (RData resp)) = Inr (r, s) \<and> v \<le> 3
         \<and> ecrecover P (sha256 P (scV2ProtocolLabel @ salt @ ec_marshal P (ec_public P priv) @ ec_marshal P cardPub))
             (r @ s @ [of_nat v]) = Inr (ec_marshal P identPub)
         \<and> hkdfDerive P scV2ProtocolLabel salt (GenerateECDHSharedSecret P priv cardPub) = Inr okm
         \<and> keyH2C sc' = Some (gcopy 16 (take 16 okm)) \<and> keyC2H sc' = Some (gcopy 16 (drop 16 okm)))"
proof (cases x)
  case (Inl e)
  then show ?thesis using V2_AutoOpen_Inl assms by simp
next
  case (Inr u)
  show ?thesis unfolding Inr sum.case by (rule V2_AutoOpen_Inr [OF assms [unfolded Inr]])
qed

text \<open>A card that answers every command with a given body and 9000.\<close>

definition answering_env :: "bytes \<Rightarrow> (unit, unit) env" where
  "answering_env body = toy_env\<lparr>env_send := (\<lambda>_. returnS \<lparr>RData = body, Sw1 = 0x90, Sw2 = 0, Sw = 0x9000\<rparr>)\<rparr>"

definition toy_sc2 :: "unit sc2" where
  "toy_sc2 = (NewSecureChannelV2 [] [replicate 33 2])\<lparr>cardIdentPub := Some (replicate 33 2)\<rparr>"

definition toy_open_answer :: bytes where
  "toy_open_answer = replicate 65 4 @ [0x30, 6, 2, 1, 1, 2, 1, 1]"

lemma toy_handshake:
  assumes "cardIdentPub sc = Some (replicate 33 2)"
  shows "\<exists>sc'. processHandshakeResponse toy_prims salt () toy_open_answer sc = (Inr (), sc')"
proof -
  define sig :: bytes where "sig = [0x30, 6, 2, 1, 1, 2, 1, 1]"
  have sl: "length sig = 8" by (simp add: sig_def)
  obtain r s where der: "parseDERSignature sig = Inr (r, s)" "length r = 32" "length s = 32"
  proof -
    have "parseDERSignature sig = Inr (replicate 31 0 @ [1], replicate 31 0 @ [1])" unfolding sig_def by code_simp
    then show ?thesis using that by simp
  qed
  have toy: "ec_decompress toy_prims (replicate 33 2) = Inr ()" "ec_compress toy_prims () = replicate 33 2"
    "ec_unmarshal toy_prims (replicate 65 4) = Inr ()" "ec_marshal toy_prims () = replicate 65 4"
    "length (sha256 toy_prims m) = 32" for m
    by (simp_all add: toy_prims_def)
  have ecr: "ecrecover toy_prims h sg = Inr (replicate 65 4)" if "length h = 32" "length sg = 65" for h sg
    using that by (simp add: toy_prims_def)
  have rec: "recover_from toy_prims (sha256 toy_prims m) r s () 0 = Inr ()" for m
    by (subst recover_from.simps) (simp add: ecr toy der)
  have okm: "hkdfDerive toy_prims l s' k = Inr (take 32 (k @ replicate 32 0))" for l s' k
    by (simp add: hkdfDerive_def HKDFDerive_def toy_prims_def)
  have vs: "verifyCardSignature toy_prims salt cp kp sig sc = Inr ()" if "cardIdentPub sc = Some (replicate 33 2)" for salt cp kp sc
    using that by (simp add: verifyCardSignature_def verifySignatureByRecovery_def Let_def der rec toy)
  show ?thesis
    using assms unfolding toy_open_answer_def sig_def [symmetric]
    by (simp add: processHandshakeResponse_def Let_def sl toy okm vs)
qed

lemma toy_AutoOpen:
  "\<exists>sc'. V2_AutoOpen toy_prims (answering_env toy_open_answer) (toy_sc2, ()) = (Inr (), sc', ())"
proof -
  have "cardIdentPub (toy_sc2\<lparr>open2 := False, clientEphPrivKey := Some ()\<rparr>) = Some (replicate 33 2)"
    by (simp add: toy_sc2_def)
  from toy_handshake [OF this, of "replicate 32 0"] show ?thesis
    unfolding V2_AutoOpen_def answering_env_def toy_env_def by (auto simp: Let_def bindS_def)
qed

theorem V2_AutoOpen_authenticates_witness:
  "\<exists>sc'. V2_AutoOpen toy_prims (answering_env toy_open_answer) (toy_sc2, ()) = (Inr (), sc', ())
     \<and> open2 sc' \<and> nonceCounter sc' = zero_nonce"
proof -
  obtain sc' where r: "V2_AutoOpen toy_prims (answering_env toy_open_answer) (toy_sc2, ()) = (Inr (), sc', ())"
    using toy_AutoOpen by blast
  show ?thesis using V2_AutoOpen_authenticates [OF r] r by auto
qed

section \<open>Nonces of a session\<close>

lemma V2_ProtectedCommand_open:
  assumes "aes_ok P" "v2_inv sc" "open2 sc" "length data \<le> 255"
  obtains h c where "keyH2C sc = Some h" "AESCCMEncrypt P h (nonceCounter sc) (inner_apdu cla ins p1 p2 data) = Inr c"
    "length c = length data + 13"
    "V2_ProtectedCommand P cla ins p1 p2 data sc = (Inr (NewCommand ClaGp InsSecuredAPDU 0 0 c), sc)"
proof -
  obtain h where h: "keyH2C sc = Some h" "length h = 16" by (rule v2_invD [OF assms(2,3)])
  have n: "length (nonceCounter sc) = 13" using assms(2) by (simp add: v2_inv_def)
  have "length (inner_apdu cla ins p1 p2 data) \<le> 0xFFFE" using assms(4) by (simp add: inner_apdu_def)
  then obtain c where c: "AESCCMEncrypt P h (nonceCounter sc) (inner_apdu cla ins p1 p2 data) = Inr c"
    by (rule AESCCMEncrypt_total [OF assms(1) h(2) n])
  moreover have "length c = length data + 13"
    using length_AESCCMEncrypt(1) [OF assms(1) c] by (simp add: inner_apdu_def)
  moreover have "V2_ProtectedCommand P cla ins p1 p2 data sc = (Inr (NewCommand ClaGp InsSecuredAPDU 0 0 c), sc)"
    using assms(3,4) h(1) c by (simp add: V2_ProtectedCommand_def encryptCCM_def Let_def)
  ultimately show ?thesis using that h(1) by blast
qed

text \<open>
  A session: a sequence of exchanges. The log has the nonce of every command that was
  encrypted, with the data of the command sent.
\<close>

fun v2_session ::
  "('sk, 'pk) prims \<Rightarrow> ('w, 'sk) env \<Rightarrow> (byte \<times> byte \<times> byte \<times> byte \<times> bytes) list \<Rightarrow> 'sk sc2 \<times> 'w
     \<Rightarrow> (bytes \<times> bytes) list \<times> 'sk sc2 \<times> 'w" where
  "v2_session P env [] s = ([], s)"
| "v2_session P env ((cla, ins, p1, p2, data) # reqs) (sc, w) =
     (let (log, s') = v2_session P env reqs (snd (V2_exchange P env cla ins p1 p2 data (sc, w)))
      in (case V2_ProtectedCommand P cla ins p1 p2 data sc of
            (Inr cmd, _) \<Rightarrow> if open2 sc then (nonceCounter sc, CData cmd) # log else log
          | (Inl _, _) \<Rightarrow> log, s'))"

lemma V2_exchange_closed: "\<not> open2 (fst s) \<Longrightarrow> \<not> open2 (fst (snd (V2_exchange P env cla ins p1 p2 data s)))"
  using v2.keeps_closed [of P env cla ins p1 p2 data] unfolding V2_exchange_via
  by (cases s) (auto simp: keepsL_def keeps_def)

lemma v2_session_closed: "\<not> open2 (fst s) \<Longrightarrow> fst (v2_session P env reqs s) = []"
proof (induction reqs arbitrary: s)
  case (Cons q reqs)
  obtain cla ins p1 p2 data where q: "q = (cla, ins, p1, p2, data)" by (cases q)
  obtain sc w where s: "s = (sc, w)" by (cases s)
  have "fst (v2_session P env reqs (snd (V2_exchange P env cla ins p1 p2 data s))) = []"
    using Cons V2_exchange_closed by blast
  then show ?case using Cons.prems s q by (auto simp: Let_def split: prod.splits sum.splits)
qed simp

lemma V2_ProtectedCommand_state: "snd (V2_ProtectedCommand P cla ins p1 p2 data sc) = sc"
  by (simp add: V2_ProtectedCommand_def Let_def split: sum.split)

text \<open>After an exchange the channel is closed, or its nonce has advanced by one if it sent.\<close>

lemma V2_receive_nonce:
  assumes "v2_inv sc" "open2 sc" "open2 (snd (V2_receive P r sc))"
  shows "nonceCounter (snd (V2_receive P r sc)) = be_bytes 13 (be_nat (nonceCounter sc) + 1)
    \<and> be_nat (nonceCounter sc) + 1 < 256 ^ 13"
proof -
  have o: "open2 (incrementNonce sc) \<and> snd (V2_receive P r sc) = incrementNonce sc"
    using assms(3) by (auto simp: V2_receive_def split: sum.splits if_splits)
  have len: "length (nonceCounter sc) = 13" using assms(1) by (simp add: v2_inv_def)
  show ?thesis
  proof (cases "be_nat (nonceCounter sc) + 1 < 256 ^ 13")
    case True
    then have "incrementNonce sc = sc\<lparr>nonceCounter := be_bytes 13 (be_nat (nonceCounter sc) + 1)\<rparr>"
      using incrementNonce_spec [OF len] by (simp only: if_True)
    then show ?thesis using o True by simp
  next
    case False
    then have "incrementNonce sc = sc\<lparr>nonceCounter := zero_nonce, open2 := False\<rparr>"
      using incrementNonce_spec [OF len] by (simp only: if_False)
    then show ?thesis using o by simp
  qed
qed

lemma V2_exchange_nonce:
  assumes "v2_inv sc" "open2 sc" "open2 (fst (snd (V2_exchange P env cla ins p1 p2 data (sc, w))))"
  shows "case V2_ProtectedCommand P cla ins p1 p2 data sc of
      (Inl _, _) \<Rightarrow> nonceCounter (fst (snd (V2_exchange P env cla ins p1 p2 data (sc, w)))) = nonceCounter sc
    | (Inr _, _) \<Rightarrow> nonceCounter (fst (snd (V2_exchange P env cla ins p1 p2 data (sc, w)))) = be_bytes 13 (be_nat (nonceCounter sc) + 1)
        \<and> be_nat (nonceCounter sc) + 1 < 256 ^ 13"
proof -
  obtain x where x: "V2_ProtectedCommand P cla ins p1 p2 data sc = (x, sc)"
    using V2_ProtectedCommand_state [of P cla ins p1 p2 data sc] by (metis prod.collapse)
  show ?thesis
  proof (cases x)
    case (Inr cmd)
    then show ?thesis using assms(3) x V2_receive_nonce [OF assms(1,2), of P "fst (env_send env cmd w)"]
      by (simp add: V2_exchange_def V2_Transmit_def transmit_via_apply)
  qed (use x in \<open>simp add: V2_exchange_def\<close>)
qed

lemma v2_session_nonces:
  "v2_inv (fst s) \<Longrightarrow> i < length (fst (v2_session P env reqs s)) \<Longrightarrow>
   fst (fst (v2_session P env reqs s) ! i) = be_bytes 13 (be_nat (nonceCounter (fst s)) + i)
   \<and> be_nat (nonceCounter (fst s)) + i < 256 ^ 13"
proof (induction reqs arbitrary: s i)
  case (Cons q reqs)
  obtain cla ins p1 p2 data where q: "q = (cla, ins, p1, p2, data)" by (cases q)
  obtain sc w where s: "s = (sc, w)" by (cases s)
  let ?s' = "snd (V2_exchange P env cla ins p1 p2 data (sc, w))"
  let ?log = "fst (v2_session P env reqs ?s')"
  have inv: "v2_inv sc" using Cons.prems(1) s by simp
  have inv': "v2_inv (fst ?s')"
    using V2_exchange_inv [of P env cla ins p1 p2 data] inv by (auto simp: keepsL_def keeps_def)
  obtain x where x: "V2_ProtectedCommand P cla ins p1 p2 data sc = (x, sc)"
    using V2_ProtectedCommand_state [of P cla ins p1 p2 data sc] by (metis prod.collapse)
  have whole: "fst (v2_session P env (q # reqs) s) =
      (case x of Inr cmd \<Rightarrow> if open2 sc then (nonceCounter sc, CData cmd) # ?log else ?log | Inl _ \<Rightarrow> ?log)"
    using s q x by (auto simp: Let_def split: prod.splits sum.splits)
  show ?case
  proof (cases "open2 sc")
    case False
    then show ?thesis using Cons.prems(2) s v2_session_closed [of s P env "q # reqs"] by simp
  next
    case o: True
    have len: "length (nonceCounter sc) = 13" using inv by (simp add: v2_inv_def)
    have here: "be_bytes 13 (be_nat (nonceCounter sc)) = nonceCounter sc \<and> be_nat (nonceCounter sc) < 256 ^ 13"
      using be_bytes_be_nat [of "nonceCounter sc"] be_nat_lt [of "nonceCounter sc"] len by simp
    show ?thesis
    proof (cases x)
      case (Inl e)
      then have "?s' = (sc, w)" using x by (simp add: V2_exchange_def)
      moreover have "fst (v2_session P env (q # reqs) s) = ?log" using whole Inl by simp
      ultimately show ?thesis using Cons.IH [of "(sc, w)" i] Cons.prems s by simp
    next
      case (Inr cmd)
      have log: "fst (v2_session P env (q # reqs) s) = (nonceCounter sc, CData cmd) # ?log" using whole Inr o by simp
      show ?thesis
      proof (cases i)
        case 0
        then show ?thesis using log here s by simp
      next
        case (Suc j)
        then have j: "j < length ?log" using Cons.prems(2) log by simp
        have "open2 (fst ?s')"
        proof (rule ccontr)
          assume "\<not> open2 (fst ?s')"
          then have "?log = []" by (rule v2_session_closed)
          then show False using j by simp
        qed
        from V2_exchange_nonce [OF inv o this] have
          "nonceCounter (fst ?s') = be_bytes 13 (be_nat (nonceCounter sc) + 1)" "be_nat (nonceCounter sc) + 1 < 256 ^ 13"
          using x Inr by simp_all
        then have "be_nat (nonceCounter (fst ?s')) = be_nat (nonceCounter sc) + 1"
          by (simp only: be_nat_be_bytes mod_less)
        then show ?thesis using Cons.IH [OF inv' j] log Suc s by simp
      qed
    qed
  qed
qed simp

text \<open>C13. No nonce is used twice: in a session of any exchanges with any card, the \<open>i\<close>-th encrypted
  command uses the initial counter plus \<open>i\<close> as its nonce, below the overflow, so that all
  nonces of the session differ.\<close>

theorem V2_session_nonces_distinct:
  assumes "v2_inv sc"
  shows "let log = fst (v2_session P env reqs (sc, w)) in distinct (map fst log)
    \<and> (\<forall>i < length log. fst (log ! i) = be_bytes 13 (be_nat (nonceCounter sc) + i) \<and> be_nat (nonceCounter sc) + i < 256 ^ 13)"
proof -
  define log where "log = fst (v2_session P env reqs (sc, w))"
  have n: "fst (log ! i) = be_bytes 13 (be_nat (nonceCounter sc) + i)" "be_nat (nonceCounter sc) + i < 256 ^ 13"
    if "i < length log" for i
    using v2_session_nonces [of "(sc, w)" i P env reqs] that assms by (simp_all add: log_def)
  have "fst (log ! i) \<noteq> fst (log ! j)" if "i < length log" "j < length log" "i \<noteq> j" for i j
  proof
    assume "fst (log ! i) = fst (log ! j)"
    then have "be_nat (be_bytes 13 (be_nat (nonceCounter sc) + i)) = be_nat (be_bytes 13 (be_nat (nonceCounter sc) + j))"
      using n(1) that by simp
    then show False using n(2) that by (simp only: be_nat_be_bytes mod_less)
  qed
  then have "distinct (map fst log)" by (simp add: distinct_conv_nth)
  with n show ?thesis unfolding Let_def log_def by blast
qed

definition toy_open2 :: "unit sc2" where
  "toy_open2 = toy_sc2\<lparr>open2 := True, keyH2C := Some (replicate 16 1), keyC2H := Some (replicate 16 2)\<rparr>"

lemma toy_open2_inv [simp]: "v2_inv toy_open2" "open2 toy_open2"
  by (simp_all add: v2_inv_def toy_open2_def toy_sc2_def NewSecureChannelV2_def zero_nonce_def)

theorem V2_session_nonces_distinct_witness:
  "let log = fst (v2_session toy_prims toy_env [(0x80, 1, 0, 0, [1]), (0x80, 2, 0, 0, [2, 3])] (toy_open2, ()))
   in distinct (map fst log)
    \<and> (\<forall>i < length log. fst (log ! i) = be_bytes 13 (be_nat (nonceCounter toy_open2) + i)
         \<and> be_nat (nonceCounter toy_open2) + i < 256 ^ 13)"
  by (rule V2_session_nonces_distinct) simp

text \<open>\<open>ProtectedCommand\<close> alone does not advance the counter: two commands protected one after
  the other, without a \<open>Transmit\<close> between them, share their nonce, and their ciphertexts
  reveal the difference of the two commands.\<close>

theorem V2_double_protect_leaks:
  assumes "aes_ok P" "v2_inv sc" "open2 sc" "length d1 \<le> 255" "length d2 = length d1"
  shows "\<exists>c1 c2. V2_ProtectedCommand P cla1 ins1 p1 q1 d1 sc = (Inr (NewCommand ClaGp InsSecuredAPDU 0 0 c1), sc)
    \<and> V2_ProtectedCommand P cla2 ins2 p2 q2 d2 sc = (Inr (NewCommand ClaGp InsSecuredAPDU 0 0 c2), sc)
    \<and> xor_bytes (take (length d1 + 5) c1) (take (length d1 + 5) c2) =
        xor_bytes (inner_apdu cla1 ins1 p1 q1 d1) (inner_apdu cla2 ins2 p2 q2 d2)"
proof -
  obtain h c1 where c1: "keyH2C sc = Some h" "AESCCMEncrypt P h (nonceCounter sc) (inner_apdu cla1 ins1 p1 q1 d1) = Inr c1"
    "V2_ProtectedCommand P cla1 ins1 p1 q1 d1 sc = (Inr (NewCommand ClaGp InsSecuredAPDU 0 0 c1), sc)"
    by (rule V2_ProtectedCommand_open [OF assms(1-4)])
  have "length d2 \<le> 255" using assms(4,5) by simp
  then obtain h' c2 where c2: "keyH2C sc = Some h'" "AESCCMEncrypt P h' (nonceCounter sc) (inner_apdu cla2 ins2 p2 q2 d2) = Inr c2"
    "V2_ProtectedCommand P cla2 ins2 p2 q2 d2 sc = (Inr (NewCommand ClaGp InsSecuredAPDU 0 0 c2), sc)"
    by (rule V2_ProtectedCommand_open [OF assms(1-3)])
  have "length (inner_apdu cla1 ins1 p1 q1 d1) = length d1 + 5" "length (inner_apdu cla2 ins2 p2 q2 d2) = length d1 + 5"
    using assms(5) by (simp_all add: inner_apdu_def)
  then have "xor_bytes (take (length d1 + 5) c1) (take (length d1 + 5) c2) =
      xor_bytes (inner_apdu cla1 ins1 p1 q1 d1) (inner_apdu cla2 ins2 p2 q2 d2)"
    using AESCCM_same_nonce [OF assms(1) c1(2), of _ c2] c1(1) c2(1,2) by (metis option.inject)
  then show ?thesis using c1(3) c2(3) by blast
qed

theorem V2_double_protect_leaks_witness:
  "\<exists>c1 c2. V2_ProtectedCommand toy_prims 0x80 0x20 0 0 [1, 2] toy_open2 = (Inr (NewCommand ClaGp InsSecuredAPDU 0 0 c1), toy_open2)
    \<and> V2_ProtectedCommand toy_prims 0x80 0x21 0 0 [3, 4] toy_open2 = (Inr (NewCommand ClaGp InsSecuredAPDU 0 0 c2), toy_open2)
    \<and> xor_bytes (take (length [1 :: byte, 2] + 5) c1) (take (length [1 :: byte, 2] + 5) c2) =
        xor_bytes (inner_apdu 0x80 0x20 0 0 [1, 2]) (inner_apdu 0x80 0x21 0 0 [3, 4])"
  by (rule V2_double_protect_leaks) simp_all

text \<open>C23. The size check of \<open>ProtectedCommand\<close> is on the payload and not on what is sent: payloads of
  243 to 255 bytes are accepted, but encrypt to 256 to 268 bytes, for which \<open>Serialize\<close> writes
  a length byte of 0 to 12; up to 242 bytes the command parses back as it was sent.\<close>

theorem V2_ProtectedCommand_wire:
  assumes "aes_ok P" "v2_inv sc" "open2 sc" "length data \<le> 255"
  shows "\<exists>cmd. V2_ProtectedCommand P cla ins p1 p2 data sc = (Inr cmd, sc)
    \<and> length (CData cmd) = length data + 13
    \<and> (if length data \<le> 242 then command_wf cmd \<and> ParseCommand (Serialize cmd) = Inr cmd
       else Serialize cmd ! 4 = of_nat (length data - 243) \<and> length (Serialize cmd) = length data + 18)"
proof -
  obtain c where c: "length c = length data + 13"
    "V2_ProtectedCommand P cla ins p1 p2 data sc = (Inr (NewCommand ClaGp InsSecuredAPDU 0 0 c), sc)"
    by (rule V2_ProtectedCommand_open [OF assms])
  let ?cmd = "NewCommand ClaGp InsSecuredAPDU 0 0 c"
  have "command_wf ?cmd \<and> ParseCommand (Serialize ?cmd) = Inr ?cmd" if "length data \<le> 242"
  proof -
    have wf: "command_wf ?cmd" using that c(1) by (intro command_wf_NewCommand) simp
    moreover have "CData ?cmd \<noteq> []" using c(1) by (auto simp: NewCommand_def)
    ultimately show ?thesis using ParseCommand_Serialize_wf by blast
  qed
  moreover have "Serialize ?cmd ! 4 = of_nat (length data - 243) \<and> length (Serialize ?cmd) = length data + 18"
    if "\<not> length data \<le> 242"
  proof -
    have "length c = 256 + (length data - 243)" using that c(1) by simp
    then have "(of_nat (length c) :: byte) = of_nat (length data - 243)" by simp
    then show ?thesis using c(1) by (simp add: Serialize_def NewCommand_def)
  qed
  moreover have "length (CData ?cmd) = length data + 13" using c(1) by (simp add: NewCommand_def)
  ultimately show ?thesis using c(2) by auto
qed

theorem V2_ProtectedCommand_wire_witness:
  "\<exists>cmd. V2_ProtectedCommand toy_prims 0x80 0x20 0 0 (replicate 250 7) toy_open2 = (Inr cmd, toy_open2)
    \<and> length (CData cmd) = length (replicate 250 (7 :: byte)) + 13
    \<and> (if length (replicate 250 (7 :: byte)) \<le> 242 then command_wf cmd \<and> ParseCommand (Serialize cmd) = Inr cmd
       else Serialize cmd ! 4 = of_nat (length (replicate 250 (7 :: byte)) - 243)
         \<and> length (Serialize cmd) = length (replicate 250 (7 :: byte)) + 18)"
  by (rule V2_ProtectedCommand_wire) simp_all

section \<open>Both ends\<close>

text \<open>The card's end: it shares the two keys and the counter, and answers under the nonce of the
  command before it advances.\<close>

record card2 =
  c_h2c :: bytes
  c_c2h :: bytes
  c_nonce :: bytes

definition card2_receive :: "('sk, 'pk) prims \<Rightarrow> command \<Rightarrow> card2 \<Rightarrow> bytes res" where
  "card2_receive P cmd c = AESCCMDecrypt P (c_h2c c) (c_nonce c) (CData cmd)"

definition card2_answer :: "('sk, 'pk) prims \<Rightarrow> bytes \<Rightarrow> (card2, bytes) st" where
  "card2_answer P plain = (\<lambda>c.
     (AESCCMEncrypt P (c_c2h c) (c_nonce c) plain, c\<lparr>c_nonce := be_bytes 13 (be_nat (c_nonce c) + 1)\<rparr>))"

definition synced2 :: "'sk sc2 \<Rightarrow> card2 \<Rightarrow> bool" where
  "synced2 sc c \<longleftrightarrow> keyH2C sc = Some (c_h2c c) \<and> keyC2H sc = Some (c_c2h c) \<and> nonceCounter sc = c_nonce c"

text \<open>With a card that shares keys and counter, an exchange is lossless in both directions: the
  card recovers exactly the command (class, instruction, parameters, length and data), the
  client exactly the card's response; afterwards both counters have advanced by one, and the
  channel stays open unless the counter has overflowed.\<close>

lemma V2_exchange_lossless:
  assumes "aes_ok P" "v2_inv sc" "open2 sc" "synced2 sc c" "length data \<le> 242" "response_wf r" "length (RData r) \<le> 65000"
  shows "\<exists>cmd wire c' sc'.
     V2_ProtectedCommand P cla ins p1 p2 data sc = (Inr cmd, sc)
   \<and> over_wire cmd = Some cmd \<and> Ins cmd = InsSecuredAPDU
   \<and> card2_receive P cmd c = Inr (inner_apdu cla ins p1 p2 data)
   \<and> card2_answer P (response_bytes r) c = (Inr wire, c')
   \<and> V2_receive P (Inr \<lparr>RData = wire, Sw1 = 0x90, Sw2 = 0, Sw = 0x9000\<rparr>) sc = (Inr r, sc')
   \<and> v2_inv sc' \<and> (if be_nat (nonceCounter sc) + 1 < 256 ^ 13 then open2 sc' \<and> synced2 sc' c' else \<not> open2 sc')"
proof -
  obtain h k where hk: "keyH2C sc = Some h" "length h = 16" "keyC2H sc = Some k" "length k = 16"
    by (rule v2_invD [OF assms(2,3)])
  have n: "length (nonceCounter sc) = 13" using assms(2) by (simp add: v2_inv_def)
  have keys: "c_h2c c = h" "c_c2h c = k" "c_nonce c = nonceCounter sc" using assms(4) hk by (simp_all add: synced2_def)
  have l: "length data \<le> 255" using assms(5) by simp
  obtain h' e where e: "keyH2C sc = Some h'" "AESCCMEncrypt P h' (nonceCounter sc) (inner_apdu cla ins p1 p2 data) = Inr e"
    "length e = length data + 13"
    "V2_ProtectedCommand P cla ins p1 p2 data sc = (Inr (NewCommand ClaGp InsSecuredAPDU 0 0 e), sc)"
    by (rule V2_ProtectedCommand_open [OF assms(1,2,3) l])
  have "e \<noteq> []" "length e < 256" using e(3) assms(5) by auto
  then have wire: "over_wire (NewCommand ClaGp InsSecuredAPDU 0 0 e) = Some (NewCommand ClaGp InsSecuredAPDU 0 0 e)"
    by (rule over_wire_NewCommand)
  have rcv: "card2_receive P (NewCommand ClaGp InsSecuredAPDU 0 0 e) c = Inr (inner_apdu cla ins p1 p2 data)"
    using AESCCMDecrypt_AESCCMEncrypt [OF assms(1) e(2)] e(1) hk keys by (simp add: card2_receive_def NewCommand_def)
  have "length (response_bytes r) \<le> 0xFFFE" using assms(7) by (simp add: response_bytes_def)
  then obtain wire where w: "AESCCMEncrypt P k (nonceCounter sc) (response_bytes r) = Inr wire"
    by (rule AESCCMEncrypt_total [OF assms(1) hk(4) n])
  let ?c' = "c\<lparr>c_nonce := be_bytes 13 (be_nat (c_nonce c) + 1)\<rparr>"
  have a: "card2_answer P (response_bytes r) c = (Inr wire, ?c')" using w keys by (simp add: card2_answer_def)
  have v: "V2_receive P (Inr \<lparr>RData = wire, Sw1 = 0x90, Sw2 = 0, Sw = 0x9000\<rparr>) sc = (Inr r, incrementNonce sc)"
    using AESCCMDecrypt_AESCCMEncrypt [OF assms(1) w] hk assms(3) ParseResponse_bytes [OF assms(6)]
    by (simp add: V2_receive_def decryptCCM_def)
  have "if be_nat (nonceCounter sc) + 1 < 256 ^ 13 then open2 (incrementNonce sc) \<and> synced2 (incrementNonce sc) ?c'
      else \<not> open2 (incrementNonce sc)"
  proof (cases "be_nat (nonceCounter sc) + 1 < 256 ^ 13")
    case True
    then have "incrementNonce sc = sc\<lparr>nonceCounter := be_bytes 13 (be_nat (nonceCounter sc) + 1)\<rparr>"
      using incrementNonce_spec [OF n] by (simp only: if_True)
    then show ?thesis using True assms(3,4) by (simp add: synced2_def)
  next
    case False
    then have "incrementNonce sc = sc\<lparr>nonceCounter := zero_nonce, open2 := False\<rparr>"
      using incrementNonce_spec [OF n] by (simp only: if_False)
    then show ?thesis using False by simp
  qed
  moreover have "Ins (NewCommand ClaGp InsSecuredAPDU 0 0 e) = InsSecuredAPDU" by (simp add: NewCommand_def)
  ultimately show ?thesis using e(4) wire rcv a v incrementNonce_inv [OF assms(2)] by blast
qed

section \<open>Trust, and the two DER parsers\<close>

text \<open>A card certificate is accepted exactly when it parses and its recovered CA key is one of the
  trusted 33-byte keys or the card's own key is whitelisted; but the card's identity key, which
  the handshake authenticates against, is replaced also when the certificate is rejected.\<close>

theorem SetCardCertificate_trust:
  "case ParseCertificate P certData of
     Inl e \<Rightarrow> \<exists>e'. SetCardCertificate P certData sc = (Inl e', sc)
   | Inr cert \<Rightarrow> snd (SetCardCertificate P certData sc) = sc\<lparr>cardIdentPub := Some (IdentPub cert)\<rparr>
       \<and> (fst (SetCardCertificate P certData sc) = Inr () \<longleftrightarrow>
            length (CAPublicKey cert) = 33 \<and> CAPublicKey cert \<in> set (caPublicKeys sc)
            \<or> IdentPub cert \<in> set (whitelistedCardKeys sc))"
  by (auto simp: SetCardCertificate_def Let_def isCATrusted_def isCardWhitelisted_def list_ex_iff
      split: sum.split)

lemma scalarFromDERInteger_pad:
  assumes "der_scalar c"
  shows "scalarFromDERInteger c = Inr (left_pad32 (last32 c))"
proof (cases c)
  case (Cons b bs)
  show ?thesis
  proof (cases "b = 0")
    case True
    then have bs: "bs \<noteq> []" "length bs \<le> 32" using assms Cons by (auto simp: der_scalar_def)
    have "replicate (32 - length bs) 0 @ bs = left_pad32 (last32 c)"
    proof (cases "length bs = 32")
      case False
      then have "32 - length bs = Suc (32 - length c)" using bs(2) Cons by simp
      then have "replicate (32 - length bs) (0 :: byte) @ bs = replicate (32 - length c) 0 @ 0 # bs"
        by (simp add: replicate_app_Cons_same)
      then show ?thesis using False bs(2) Cons True by (simp add: left_pad32_def last32_def)
    qed (use Cons in \<open>simp add: left_pad32_def last32_def\<close>)
    then show ?thesis using bs Cons True by (simp add: scalarFromDERInteger_def Let_def)
  next
    case False
    then have "length c \<le> 32" using assms Cons by (auto simp: der_scalar_def)
    then show ?thesis using False Cons
      by (simp add: scalarFromDERInteger_def Let_def left_pad32_def last32_def)
  qed
qed (use assms in \<open>simp add: der_scalar_def\<close>)

lemma parse_DER_signature:
  assumes "der_scalar rb" "der_scalar sb"
  shows "parseDERSignature (tlv_enc (TLV_ECDSA_TEMPLATE, tlv_enc (TLV_INT, rb) @ tlv_enc (TLV_INT, sb)) @ rest)
      = Inr (left_pad32 (last32 rb), left_pad32 (last32 sb))"
proof -
  obtain seq where seq_def: "seq = tlv_enc (2, rb) @ tlv_enc (2, sb)" by blast
  have l: "length rb \<le> 33" "length sb \<le> 33" using assms by (auto simp: der_scalar_def)
  then have sl: "length seq < 2 ^ 32" and rl: "length rb < 2 ^ 32" and sbl: "length sb < 2 ^ 32"
    using length_tlv_enc_le [of 2 rb] length_tlv_enc_le [of 2 sb] by (simp_all add: seq_def)
  have n: "unat (of_nat (length seq) :: u32) = length seq" using sl by (simp add: unat_of_nat)
  have next0: "NextTagIs 0x30 (reader_at [] (tlv_enc (0x30, seq) @ rest))" by (simp only: NextTagIs_enc)
  note enter = EnterConstructed_enc [OF sl, where us = "[]" and rest = rest and tag = "0x30"]
  note r = ReadPrimitive_enc [OF rl, where us = "[]" and rest = "tlv_enc (2, sb)" and tag = "2"]
  have s: "ReadPrimitive 2 (reader_at us (tlv_enc (2, sb))) = (Inr sb, reader_at (us @ tlv_enc (2, sb)) [])" for us
    using ReadPrimitive_enc [OF sbl, of 2 us "[]"] by simp
  have rs: "run_reader (bindS (wrapS m1 (ReadPrimitive 2)) (\<lambda>rRaw. bindS (wrapS m2 (ReadPrimitive 2)) (\<lambda>sRaw.
      bindS (liftS (scalarFromDERInteger rRaw)) (\<lambda>r. bindS (liftS (scalarFromDERInteger sRaw)) (\<lambda>s. returnS (r, s)))))) seq
      = Inr (left_pad32 (last32 rb), left_pad32 (last32 sb))" for m1 m2
    by (simp add: seq_def run_reader_def NewBerTlvReader_at bindS_def r s scalarFromDERInteger_pad assms)
  have "parseDERSignature (tlv_enc (0x30, seq) @ rest) = Inr (left_pad32 (last32 rb), left_pad32 (last32 sb))"
    unfolding parseDERSignature_def run_reader_def [of "readS _"] NewBerTlvReader_at readS_apply
    using next0 rs n by (simp add: bindS_def enter Let_def del: NextTagIs_at)
  then show ?thesis by (simp add: seq_def)
qed

text \<open>So a signature in DER form gives its two numbers in 32 bytes each, sign byte or not.\<close>

lemma parseDERSignature_der_ecdsa:
  assumes "0 < r" "r < 2 ^ 256" "0 < s" "s < 2 ^ 256"
  shows "parseDERSignature (der_ecdsa r s) = Inr (be_bytes 32 r, be_bytes 32 s)"
  using parse_DER_signature [of "der_int r" "der_int s" "[]"] der_scalar_der_int assms
  by (simp add: der_ecdsa_tlv left_pad32_der_int)

text \<open>The two DER signature parsers of the repository agree on every signature with positive
  scalars of at most 32 bytes (with or without sign byte): \<open>parseDERSignature\<close> returns the
  32-byte forms and \<open>DERSignatureToRS\<close> the same scalars without the padding, so its results
  are shorter than 32 bytes when a scalar is.\<close>

theorem DER_parsers_agree:
  assumes "der_scalar rb" "der_scalar sb"
  shows "\<exists>r s. DERSignatureToRS (tlv_enc (TLV_ECDSA_TEMPLATE, tlv_enc (TLV_INT, rb) @ tlv_enc (TLV_INT, sb)) @ rest) = Inr (r, s)
    \<and> parseDERSignature (tlv_enc (TLV_ECDSA_TEMPLATE, tlv_enc (TLV_INT, rb) @ tlv_enc (TLV_INT, sb)) @ rest)
        = Inr (left_pad32 r, left_pad32 s)
    \<and> length (left_pad32 r) = 32 \<and> length (left_pad32 s) = 32
    \<and> be_nat r = be_nat rb \<and> be_nat s = be_nat sb \<and> length r = min 32 (length rb)"
  using parse_DER_signature [OF assms, of rest] DERSignatureToRS_scalars [OF assms, of rest] be_nat_last32 [OF assms(1)] be_nat_last32 [OF assms(2)]
  by blast

theorem DER_parsers_agree_witness:
  "\<exists>r s. DERSignatureToRS (tlv_enc (TLV_ECDSA_TEMPLATE, tlv_enc (TLV_INT, [0, 0x80]) @ tlv_enc (TLV_INT, [5])) @ []) = Inr (r, s)
    \<and> parseDERSignature (tlv_enc (TLV_ECDSA_TEMPLATE, tlv_enc (TLV_INT, [0, 0x80]) @ tlv_enc (TLV_INT, [5])) @ [])
        = Inr (left_pad32 r, left_pad32 s)
    \<and> length (left_pad32 r) = 32 \<and> length (left_pad32 s) = 32
    \<and> be_nat r = be_nat [0, 0x80] \<and> be_nat s = be_nat [5] \<and> length r = min 32 (length [0 :: byte, 0x80])"
  by (rule DER_parsers_agree) (simp_all add: der_scalar_def)

end
