(* ===== verification/Secrets.thy ===== *)
theory Secrets
  imports Secure_Channel_V1 Go_Strings
begin

text \<open>
  \<open>secrets.go\<close>, and \<open>OneShotEncrypt\<close> of the version-1 channel, which sends the secrets. Go strings
  are byte lists here. \<open>rand.Int(rand.Reader, max)\<close> is a parameter: it returns a number below
  \<open>max\<close> or fails. \<open>base64.URLEncoding\<close> is the standard alphabet with \<open>-\<close> and \<open>_\<close> for \<open>+\<close> and \<open>/\<close>.
\<close>

definition maxPukNumber :: nat where "maxPukNumber = 999999999999"
definition maxPinNumber :: nat where "maxPinNumber = 999999"

record Secrets =
  pin :: bytes
  puk :: bytes
  pairingPass :: bytes
  pairingToken :: bytes

definition generatePairingToken :: "('sk, 'pk) prims \<Rightarrow> bytes \<Rightarrow> bytes" where
  "generatePairingToken P pass = pbkdf2_sha256 P (nfkd P pass) (nfkd P PairingTokenSalt) 50000 32"

definition NewSecrets :: "('sk, 'pk) prims \<Rightarrow> bytes \<Rightarrow> bytes \<Rightarrow> bytes \<Rightarrow> Secrets" where
  "NewSecrets P pin' puk' pass =
     \<lparr>pin = pin', puk = puk', pairingPass = pass, pairingToken = generatePairingToken P pass\<rparr>"

definition url_encode :: "bytes \<Rightarrow> string" where
  "url_encode bs = map (\<lambda>c. if c = CHR ''+'' then CHR ''-'' else if c = CHR ''/'' then CHR ''_'' else c) (b64_encode bs)"

definition generatePairingPass :: "('w, 'sk) env \<Rightarrow> ('w, bytes) st" where
  "generatePairingPass env = bindS (env_rand env 12) (\<lambda>r. returnS (str_bytes (url_encode r)))"

text \<open>\<open>fmt.Sprintf("%0nd", v)\<close> for a number that is not negative.\<close>

definition zero_padded :: "nat \<Rightarrow> nat \<Rightarrow> string" where
  "zero_padded n v = replicate (n - length (format_uint v)) CHR ''0'' @ format_uint v"

definition GenerateSecrets ::
  "('sk, 'pk) prims \<Rightarrow> ('w, 'sk) env \<Rightarrow> (nat \<Rightarrow> ('w, nat) st) \<Rightarrow> ('w, Secrets) st" where
  "GenerateSecrets P env rand_int =
     bindS (generatePairingPass env) (\<lambda>pass.
     bindS (rand_int maxPukNumber) (\<lambda>pukN.
     bindS (rand_int maxPinNumber) (\<lambda>pinN.
     returnS \<lparr>pin = str_bytes (zero_padded 6 pinN), puk = str_bytes (zero_padded 12 pukN),
       pairingPass = pass, pairingToken = generatePairingToken P pass\<rparr>)))"

definition V1_OneShotEncrypt ::
  "('sk, 'pk) prims \<Rightarrow> ('w, 'sk) env \<Rightarrow> Secrets \<Rightarrow> ('pk sc1 \<times> 'w, bytes) st" where
  "V1_OneShotEncrypt P env secrets = getS (\<lambda>sc.
     let pubKeyData = RawPublicKey P sc;
         data = pin secrets @ puk secrets @ pairingToken secrets
     in worldS (OneShotEncrypt P (env_rand env) pubKeyData (opt_bytes (secret1 sc)) data))"

section \<open>Generated secrets\<close>

definition rand_int_ok :: "(nat \<Rightarrow> ('w, nat) st) \<Rightarrow> bool" where
  "rand_int_ok rand_int \<longleftrightarrow> (\<forall>m w v w'. rand_int m w = (Inr v, w') \<longrightarrow> v < m)"

lemma length_format_uint: "v < 10 ^ n \<Longrightarrow> 0 < n \<Longrightarrow> length (format_uint v) \<le> n"
proof (induction v arbitrary: n rule: format_uint.induct)
  case (1 v)
  show ?case
  proof (cases "v < 10")
    case False
    then have "1 < n" using 1(2) by (cases n; cases "n - 1") auto
    moreover have "v div 10 < 10 ^ (n - 1)" using 1(2) \<open>1 < n\<close> by (cases n) (auto simp: less_mult_imp_div_less)
    ultimately have "length (format_uint (v div 10)) \<le> n - 1" using 1(1) False by simp
    then show ?thesis using False \<open>1 < n\<close> by (subst format_uint.simps) simp
  qed (use 1(3) in \<open>subst format_uint.simps, simp\<close>)
qed

lemma length_zero_padded: "v < 10 ^ n \<Longrightarrow> 0 < n \<Longrightarrow> length (zero_padded n v) = n"
  using length_format_uint [of v n] by (simp add: zero_padded_def)

text \<open>Leading zeros do not change the number that is read back.\<close>

lemma parse_uint_loop_zeros: "parse_uint_loop m 0 (replicate k CHR ''0'' @ s) = parse_uint_loop m 0 s"
proof (induction k)
  case (Suc k)
  have "digit_value CHR ''0'' = Some 0" by (simp add: digit_value_def)
  with Suc show ?case by simp
qed simp

lemma parse_zero_padded: "v < 2 ^ 64 \<Longrightarrow> parse_uint 64 (zero_padded n v) = Inr v"
  by (simp add: zero_padded_def parse_uint_def parse_uint_loop_zeros parse_uint_loop_format)

lemma digits_zero_padded: "digits (zero_padded n v)"
proof -
  have "digits (replicate k CHR ''0'')" for k by (induction k) (simp_all add: digit_value_def)
  then show ?thesis by (simp add: zero_padded_def)
qed

lemma length_b64_encode: "length (b64_encode bs) = (length bs + 2) div 3 * 4"
  by (induction bs rule: b64_encode.induct) (simp_all, presburger)

text \<open>C40. Generated secrets have the card's format: a PIN of six and a PUK of twelve decimal digits, below 999999 and
  999999999999 (the largest numbers are never drawn), a pairing password of sixteen characters, and the token that
  \<open>NewSecrets\<close> derives from that password.\<close>

theorem GenerateSecrets_format:
  assumes "rand_ok env" "rand_int_ok rand_int" "GenerateSecrets P env rand_int w = (Inr s, w')"
  shows "\<exists>p q. pin s = str_bytes p \<and> digits p \<and> length p = 6 \<and> (\<exists>v < 999999. parse_uint 64 p = Inr v)
    \<and> puk s = str_bytes q \<and> digits q \<and> length q = 12 \<and> (\<exists>v < 999999999999. parse_uint 64 q = Inr v)
    \<and> length (pairingPass s) = 16 \<and> s = NewSecrets P (pin s) (puk s) (pairingPass s)"
proof -
  obtain r pukN pinN w1 w2 where r: "env_rand env 12 w = (Inr r, w1)"
    and n: "rand_int maxPukNumber w1 = (Inr pukN, w2)" "rand_int maxPinNumber w2 = (Inr pinN, w')"
    and s: "s = \<lparr>pin = str_bytes (zero_padded 6 pinN), puk = str_bytes (zero_padded 12 pukN),
       pairingPass = str_bytes (url_encode r), pairingToken = generatePairingToken P (str_bytes (url_encode r))\<rparr>"
    using assms(3) by (auto simp: GenerateSecrets_def generatePairingPass_def returns_iff)
  have l: "length r = 12" using assms(1) r by (auto simp: rand_ok_def)
  have b: "pukN < 999999999999" "pinN < 999999"
    using assms(2) n by (auto simp: rand_int_ok_def maxPukNumber_def maxPinNumber_def)
  then have "length (zero_padded 6 pinN) = 6" "length (zero_padded 12 pukN) = 12"
    by (simp_all add: length_zero_padded)
  moreover have "parse_uint 64 (zero_padded 6 pinN) = Inr pinN" "parse_uint 64 (zero_padded 12 pukN) = Inr pukN"
    using b by (simp_all add: parse_zero_padded)
  moreover have "length (url_encode r) = 16" by (simp add: url_encode_def length_b64_encode l)
  ultimately show ?thesis using b digits_zero_padded by (fastforce simp: s NewSecrets_def)
qed

theorem GenerateSecrets_format_witness:
  "\<exists>s p. GenerateSecrets toy_prims toy_env (\<lambda>m. if 0 < m then returnS (42 mod m) else failS EOF) () = (Inr s, ())
    \<and> pin s = str_bytes p \<and> length p = 6 \<and> length (pairingPass s) = 16"
proof -
  let ?ri = "\<lambda>m. if 0 < m then returnS (42 mod m) else failS EOF :: (unit, nat) st"
  obtain s where g: "GenerateSecrets toy_prims toy_env ?ri () = (Inr s, ())"
    by (simp add: GenerateSecrets_def generatePairingPass_def toy_env_def maxPukNumber_def maxPinNumber_def)
  have "rand_ok toy_env" "rand_int_ok ?ri" by (simp_all add: rand_ok_def toy_env_def rand_int_ok_def)
  from GenerateSecrets_format [OF this g] g show ?thesis by blast
qed

section \<open>The INIT payload\<close>

text \<open>The card's reading of a one-shot payload: the client's public key, and the decrypted data.\<close>

definition card_open_oneshot :: "('sk, 'pk) prims \<Rightarrow> bytes \<Rightarrow> bytes \<Rightarrow> (bytes \<times> bytes) res" where
  "card_open_oneshot P secret wire =
     (case wire of
        [] \<Rightarrow> Inl (Msg ''empty'')
      | n # rest \<Rightarrow>
          let k = unat n in
          bindE (DecryptData P (drop (k + 16) rest) secret (gslice k (k + 16) rest)) (\<lambda>data. Inr (take k rest, data)))"

lemma OneShotEncrypt_opens:
  assumes "aes_ok P" "\<And>n w bs w'. rnd n w = (Inr bs, w') \<Longrightarrow> length bs = n" "length pub < 256"
    "OneShotEncrypt P rnd pub secret data w = (Inr wire, w')"
  shows "card_open_oneshot P secret wire = Inr (pub, data)"
proof -
  obtain iv where iv: "rnd 16 w = (Inr iv, w')" and k: "length secret \<in> {16, 24, 32}"
    and wire: "wire = of_nat (length pub) # pub @ iv @ cbc_encrypt (aesE P secret) 16 iv (appendPadding 16 data)"
    using assms(4) by (auto simp: OneShotEncrypt_def returns_iff aes_new_cipher_def Let_def)
  have l: "length iv = 16" using assms(2) iv by blast
  have "EncryptData P data secret iv = Inr (cbc_encrypt (aesE P secret) 16 iv (appendPadding 16 data))"
    using k l by (auto simp: EncryptData_def aes_new_cipher_def)
  from DecryptData_of_EncryptData [OF assms(1) this] show ?thesis
    using assms(3) l by (simp add: card_open_oneshot_def wire gslice_append_mid Let_def)
qed

text \<open>C26. INIT of a version-1 card is lossless: a card with the same ECDH secret reads from the payload of
  \<open>OneShotEncrypt\<close> the client's public key and PIN, PUK and pairing token.\<close>

theorem V1_init_payload_opens:
  assumes "aes_ok P" "rand_ok env" "secret1 sc = Some secret" "length (RawPublicKey P sc) < 256"
    "V1_OneShotEncrypt P env secrets (sc, w) = (Inr wire, sc', w')"
  shows "card_open_oneshot P secret wire = Inr (RawPublicKey P sc, pin secrets @ puk secrets @ pairingToken secrets) \<and> sc' = sc"
proof -
  have run: "OneShotEncrypt P (env_rand env) (RawPublicKey P sc) secret (pin secrets @ puk secrets @ pairingToken secrets) w = (Inr wire, w')"
    and "sc' = sc" using assms(3,5) by (auto simp: V1_OneShotEncrypt_def prod_eq_iff)
  moreover have "length bs = n" if "env_rand env n w = (Inr bs, w')" for n w bs w' using that assms(2) by (auto simp: rand_ok_def)
  ultimately show ?thesis using OneShotEncrypt_opens [OF assms(1) _ assms(4) run] by blast
qed

theorem V1_init_payload_opens_witness:
  "\<exists>wire. V1_OneShotEncrypt toy_prims toy_env (NewSecrets toy_prims [1] [2] [3]) (NewSecureChannel\<lparr>secret1 := Some (replicate 32 9)\<rparr>, ())
       = (Inr wire, NewSecureChannel\<lparr>secret1 := Some (replicate 32 9)\<rparr>, ())
    \<and> card_open_oneshot toy_prims (replicate 32 9) wire = Inr ([], [1, 2] @ generatePairingToken toy_prims [3])"
proof -
  let ?sc = "NewSecureChannel\<lparr>secret1 := Some (replicate 32 9)\<rparr> :: unit sc1"
  have raw: "RawPublicKey toy_prims ?sc = []" by (simp add: RawPublicKey_def NewSecureChannel_def)
  obtain wire where w: "V1_OneShotEncrypt toy_prims toy_env (NewSecrets toy_prims [1] [2] [3]) (?sc, ()) = (Inr wire, ?sc, ())"
    by (simp add: V1_OneShotEncrypt_def OneShotEncrypt_def toy_env_def aes_new_cipher_def Let_def)
  have "rand_ok toy_env" by (simp add: rand_ok_def toy_env_def)
  from V1_init_payload_opens [OF toy_prims_ok(1) this _ _ w] w raw show ?thesis by (simp add: NewSecrets_def)
qed

end
