(* ===== verification/Channel_Dispatch.thy ===== *)
theory Channel_Dispatch
  imports Secure_Channel_V1 Secure_Channel_V2 Secrets
begin

text \<open>
  The \<open>SecureChannel\<close> interface value of a command set: one of the two versions. A method call is
  a case distinction on it; the pair of versions is again a secure channel.
\<close>

datatype ('sk, 'pk) channel = SC1 "'pk sc1" | SC2 "'sk sc2"

definition on_version ::
  "('pk sc1, 'a) st \<Rightarrow> ('sk sc2, 'a) st \<Rightarrow> (('sk, 'pk) channel, 'a) st" where
  "on_version m1 m2 = (\<lambda>ch. case ch of
     SC1 c \<Rightarrow> let (r, c') = m1 c in (r, SC1 c')
   | SC2 c \<Rightarrow> let (r, c') = m2 c in (r, SC2 c'))"

text \<open>The same for a method that uses the environment.\<close>

definition on_version_env ::
  "('pk sc1 \<times> 'w, 'a) st \<Rightarrow> ('sk sc2 \<times> 'w, 'a) st \<Rightarrow> (('sk, 'pk) channel \<times> 'w, 'a) st" where
  "on_version_env m1 m2 = (\<lambda>(ch, w). case ch of
     SC1 c \<Rightarrow> let (r, c', w') = m1 (c, w) in (r, SC1 c', w')
   | SC2 c \<Rightarrow> let (r, c', w') = m2 (c, w) in (r, SC2 c', w'))"

lemma on_version_simps [simp]:
  "on_version m1 m2 (SC1 c) = (fst (m1 c), SC1 (snd (m1 c)))"
  "on_version m1 m2 (SC2 c') = (fst (m2 c'), SC2 (snd (m2 c')))"
  by (simp_all add: on_version_def split_def Let_def)

lemma on_version_env_simps [simp]:
  "on_version_env n1 n2 (SC1 c, w) = (fst (n1 (c, w)), SC1 (fst (snd (n1 (c, w)))), snd (snd (n1 (c, w))))"
  "on_version_env n1 n2 (SC2 c', w) = (fst (n2 (c', w)), SC2 (fst (snd (n2 (c', w)))), snd (snd (n2 (c', w))))"
  by (simp_all add: on_version_env_def split_def Let_def)

section \<open>The methods\<close>

definition sc_AutoOpen :: "('sk, 'pk) prims \<Rightarrow> ('w, 'sk) env \<Rightarrow> (('sk, 'pk) channel \<times> 'w, unit) st" where
  "sc_AutoOpen P env = on_version_env (V1_AutoOpen P env) (V2_AutoOpen P env)"

definition sc_AutoPair ::
  "('sk, 'pk) prims \<Rightarrow> ('w, 'sk) env \<Rightarrow> byte \<Rightarrow> bytes \<Rightarrow> (('sk, 'pk) channel \<times> 'w, unit) st" where
  "sc_AutoPair P env mode sharedSecret = on_version_env (V1_AutoPair P env mode sharedSecret) V2_AutoPair"

definition sc_Unpair :: "('sk, 'pk) prims \<Rightarrow> ('w, 'sk) env \<Rightarrow> byte \<Rightarrow> (('sk, 'pk) channel \<times> 'w, response) st" where
  "sc_Unpair P env p1 = on_version_env (V1_Unpair P env p1) V2_Unpair"

definition sc_UnpairOthers :: "('sk, 'pk) prims \<Rightarrow> ('w, 'sk) env \<Rightarrow> (('sk, 'pk) channel \<times> 'w, unit) st" where
  "sc_UnpairOthers P env = on_version_env (V1_UnpairOthers P env) V2_UnpairOthers"

definition sc_ProtectedCommand ::
  "('sk, 'pk) prims \<Rightarrow> byte \<Rightarrow> byte \<Rightarrow> byte \<Rightarrow> byte \<Rightarrow> bytes \<Rightarrow> (('sk, 'pk) channel, command) st" where
  "sc_ProtectedCommand P cla ins p1 p2 data =
     on_version (V1_ProtectedCommand P cla ins p1 p2 data) (V2_ProtectedCommand P cla ins p1 p2 data)"

definition sc_receive :: "('sk, 'pk) prims \<Rightarrow> response res \<Rightarrow> (('sk, 'pk) channel, response) st" where
  "sc_receive P r = on_version (V1_receive P r) (V2_receive P r)"

definition sc_Transmit :: "('sk, 'pk) prims \<Rightarrow> ('w, 'sk) env \<Rightarrow> command \<Rightarrow> (('sk, 'pk) channel \<times> 'w, response) st" where
  "sc_Transmit P env cmd = on_version_env (V1_Transmit P env cmd) (V2_Transmit P env cmd)"

definition sc_IsOpen :: "('sk, 'pk) channel \<Rightarrow> bool" where
  "sc_IsOpen ch = (case ch of SC1 c \<Rightarrow> open1 c | SC2 c \<Rightarrow> open2 c)"

definition sc_Version :: "('sk, 'pk) channel \<Rightarrow> SecureChannelVersion" where
  "sc_Version ch = (case ch of SC1 _ \<Rightarrow> VersionV1 | SC2 _ \<Rightarrow> VersionV2)"

text \<open>Version 2 has no pairing: it returns nil and ignores \<open>SetPairing\<close>.\<close>

definition sc_Pairing :: "('sk, 'pk) channel \<Rightarrow> Pairing option" where
  "sc_Pairing ch = (case ch of SC1 c \<Rightarrow> pairing1 c | SC2 _ \<Rightarrow> None)"

definition sc_SetPairing :: "Pairing option \<Rightarrow> ('sk, 'pk) channel \<Rightarrow> ('sk, 'pk) channel" where
  "sc_SetPairing p ch = (case ch of SC1 c \<Rightarrow> SC1 (V1_SetPairing p c) | SC2 c \<Rightarrow> SC2 c)"

definition sc_Reset :: "('sk, 'pk) channel \<Rightarrow> ('sk, 'pk) channel" where
  "sc_Reset ch = (case ch of SC1 c \<Rightarrow> SC1 (V1_Reset c) | SC2 c \<Rightarrow> SC2 (V2_Reset c))"

definition sc_exchange ::
  "('sk, 'pk) prims \<Rightarrow> ('w, 'sk) env \<Rightarrow> byte \<Rightarrow> byte \<Rightarrow> byte \<Rightarrow> byte \<Rightarrow> bytes \<Rightarrow> (('sk, 'pk) channel \<times> 'w, response) st" where
  "sc_exchange P env cla ins p1 p2 data =
     bindS (localS (sc_ProtectedCommand P cla ins p1 p2 data)) (sc_Transmit P env)"

section \<open>The interface\<close>

lemma sc_Transmit_via: "sc_Transmit P env cmd = transmit_via (sc_receive P) env cmd"
proof (rule ext)
  fix s :: "('a, 'b) channel \<times> 'c"
  obtain ch w where "s = (ch, w)" by (cases s)
  then show "sc_Transmit P env cmd s = transmit_via (sc_receive P) env cmd s"
    by (cases ch) (simp_all add: sc_Transmit_def sc_receive_def V1_Transmit_def V2_Transmit_def transmit_via_apply)
qed

lemma sc_exchange_via:
  "sc_exchange P env cla ins p1 p2 data = exchange_via (sc_ProtectedCommand P) (sc_receive P) env cla ins p1 p2 data"
proof -
  have "sc_Transmit P env = transmit_via (sc_receive P) env" by (rule ext) (rule sc_Transmit_via)
  then show ?thesis by (simp add: sc_exchange_def exchange_via_def)
qed

lemma sc_exchange_version:
  "sc_exchange P env cla ins p1 p2 data =
     on_version_env (V1_exchange P env cla ins p1 p2 data) (V2_exchange P env cla ins p1 p2 data)"
proof (rule ext)
  fix s :: "('a, 'b) channel \<times> 'c"
  obtain ch w where s: "s = (ch, w)" by (cases s)
  show "sc_exchange P env cla ins p1 p2 data s =
      on_version_env (V1_exchange P env cla ins p1 p2 data) (V2_exchange P env cla ins p1 p2 data) s"
  proof (cases ch)
    case (SC1 c)
    then show ?thesis
      by (cases "fst (V1_ProtectedCommand P cla ins p1 p2 data c)")
        (simp_all add: s sc_exchange_def V1_exchange_def sc_ProtectedCommand_def sc_Transmit_def bindS_def)
  next
    case (SC2 c)
    then show ?thesis
      by (cases "fst (V2_ProtectedCommand P cla ins p1 p2 data c)")
        (simp_all add: s sc_exchange_def V2_exchange_def sc_ProtectedCommand_def sc_Transmit_def bindS_def)
  qed
qed

interpretation any: secure_channel "sc_ProtectedCommand P" "sc_receive P" sc_IsOpen for P :: "('sk, 'pk) prims"
proof unfold_locales
  fix ch c' :: "('sk, 'pk) channel" and cla ins p1 p2 :: byte and data cmd r e
  show "\<exists>c'. sc_receive P (Inl e) ch = (Inl e, c') \<and> \<not> sc_IsOpen c'"
    by (cases ch) (simp_all add: sc_receive_def sc_IsOpen_def V1_receive_def V2_receive_def)
  assume closed: "\<not> sc_IsOpen ch"
  show "\<not> sc_IsOpen (snd (sc_ProtectedCommand P cla ins p1 p2 data ch))"
    using closed by (cases ch) (simp_all add: sc_ProtectedCommand_def sc_IsOpen_def v1.protect_not_opens v2.protect_not_opens)
  show "\<exists>c'. sc_receive P (Inr r) ch = (Inr r, c') \<and> \<not> sc_IsOpen c'"
    using closed by (cases ch) (simp_all add: sc_receive_def sc_IsOpen_def V1_receive_def V2_receive_def Let_def)
  assume p: "sc_ProtectedCommand P cla ins p1 p2 data ch = (Inr cmd, c')"
  show "cmd = NewCommand cla ins p1 p2 data"
  proof (cases ch)
    case (SC1 c)
    then show ?thesis using closed p v1.protect_closed [of c P cla ins p1 p2 data cmd]
      by (auto simp: sc_ProtectedCommand_def sc_IsOpen_def prod_eq_iff)
  next
    case (SC2 c)
    then show ?thesis using closed p v2.protect_closed [of c P cla ins p1 p2 data cmd]
      by (auto simp: sc_ProtectedCommand_def sc_IsOpen_def prod_eq_iff)
  qed
qed

end
