(* ===== verification/Key_Path.thy ===== *)
theory Key_Path
  imports Derivation_Path
begin

text \<open>
  The second path parser of package \<open>derivationpath\<close> (\<open>keypath.go\<close>): a BIP32 path with the
  source of its derivation, held as the raw bytes the card takes.
\<close>

definition SourceMaster :: byte where [simp]: "SourceMaster = 0x00"
definition SourceParent :: byte where [simp]: "SourceParent = 0x40"
definition SourceCurrent :: byte where [simp]: "SourceCurrent = 0x80"

record KeyPath =
  kpSource :: byte
  kpData :: bytes

definition parsePathComponent :: "string \<Rightarrow> u32 res" where
  "parsePathComponent s =
     (let isHardened = (s \<noteq> [] \<and> last s = CHR 0x27);
          s = (if isHardened then butlast s else s)
      in if s = [] then Inl (Msg ''empty path component'')
         else if hd s = CHR ''+'' \<or> hd s = CHR ''-'' then Inl (Msg ''no sign allowed in path component'')
         else
           case parse_uint 32 s of
             Inl _ \<Rightarrow> Inl (Msg ''invalid path component'')
           | Inr num \<Rightarrow>
               if 0x7FFFFFFF < num then Inl (Msg ''path component too large'')
               else if isHardened then Inr (of_nat num OR 0x80000000)
               else Inr (of_nat num))"

fun parseComponents :: "string list \<Rightarrow> bytes \<Rightarrow> bytes res" where
  "parseComponents [] data = Inr data"
| "parseComponents (c # cs) data =
     bindE (parsePathComponent c) (\<lambda>num.
       parseComponents cs (data @ [ucast (drop_bit 24 num), ucast (drop_bit 16 num), ucast (drop_bit 8 num), ucast num]))"

definition KeyPathFromString :: "string \<Rightarrow> KeyPath res" where
  "KeyPathFromString path =
     (let components = go_split CHR ''/'' path in
      if components = [] then Inl (Msg ''empty path'')
      else
        let first = trim_space (hd components) in
        if first = '''' then Inl (Msg ''path must start with m, .., ., or a number'')
        else
          let components = tl components;
              (source, components) =
                (if first = ''m'' then (SourceMaster, components)
                 else if first = ''..'' then (SourceParent, components)
                 else if first = ''.'' then (SourceCurrent, components)
                 else (SourceCurrent, first # components))
          in if 10 < length components then Inl (Msg ''too many path components (max 10)'')
             else bindE (parseComponents components [])
                    (\<lambda>data. Inr \<lparr>kpSource = source, kpData = data\<rparr>))"

definition KeyPathFromRaw :: "bytes \<Rightarrow> byte \<Rightarrow> KeyPath" where
  "KeyPathFromRaw data source = \<lparr>kpSource = source, kpData = data\<rparr>"

definition KeyPathFromRawMaster :: "bytes \<Rightarrow> KeyPath" where
  "KeyPathFromRawMaster data = KeyPathFromRaw data SourceMaster"

text \<open>The loop of \<open>String\<close> over the 4-byte chunks.\<close>

fun chunk_strings :: "bytes \<Rightarrow> string" where
  "chunk_strings (a # b # c # d # rest) =
     (let hardened = (a AND 0x80 \<noteq> 0);
          num = (push_bit 24 (ucast a AND 0x7F) OR push_bit 16 (ucast b) OR push_bit 8 (ucast c) OR ucast d :: u32)
      in ''/'' @ format_uint (unat num) @ (if hardened then [CHR 0x27] else []) @ chunk_strings rest)"
| "chunk_strings _ = []"

definition KeyPath_String :: "KeyPath \<Rightarrow> string" where
  "KeyPath_String kp =
     (if kpSource kp = SourceMaster then ''m''
      else if kpSource kp = SourceParent then ''..''
      else if kpSource kp = SourceCurrent then ''.''
      else ''.'') @ chunk_strings (kpData kp)"

section \<open>Components\<close>

lemma u32_bit_31: "bit (w :: u32) 31 \<longleftrightarrow> 0x80000000 \<le> unat w"
proof -
  have "bit w 31 = bit (unat w) 31" by (simp add: bit_unsigned_iff)
  also have "\<dots> = odd (unat w div 2 ^ 31)" by (rule bit_iff_odd)
  finally have "bit w 31 \<longleftrightarrow> odd (unat w div 2 ^ 31)" .
  moreover have "unat w div 2 ^ 31 = of_bool (0x80000000 \<le> unat w)"
    using unat_u32_lt [of w] by (auto simp: le_div_geq)
  ultimately show ?thesis by simp
qed

lemma u32_or_high:
  assumes "n < 0x80000000"
  shows "(of_nat n OR 0x80000000 :: u32) = of_nat (n + 0x80000000)"
proof -
  have "\<not> bit (of_nat n :: u32) 31" using assms by (simp add: u32_bit_31 unat_of_nat)
  then have "(of_nat n AND 2 ^ 31 :: u32) = 0" by (rule and_exp_eq_0_iff_not_bit [THEN iffD2])
  then have "(of_nat n OR 0x80000000 :: u32) = of_nat n + 0x80000000"
    by (intro disjunctive_add_eq_or [symmetric]) simp
  then show ?thesis by simp
qed

lemma digits_no_quote: "digits s \<Longrightarrow> s \<noteq> [] \<Longrightarrow> last s \<noteq> CHR 0x27"
  using digits_not_in(2) last_in_set by fastforce

lemma digits_no_sign: "digits s \<Longrightarrow> s \<noteq> [] \<Longrightarrow> hd s \<noteq> CHR ''+'' \<and> hd s \<noteq> CHR ''-''"
  by (cases s) (auto dest: digit_chars)

lemma parsePathComponent_segment: "parsePathComponent (encode_segment i) = Inr i"
proof (cases "is_hardened i")
  case True
  define n where "n = unat i - hardenedStart"
  have n: "n < 0x80000000" "of_nat (n + 0x80000000) = i"
    using True unat_u32_lt [of i] by (auto simp: n_def is_hardened_def)
  have "encode_segment i = format_uint n @ [CHR 0x27]"
    using True by (simp add: encode_segment_def is_hardened_def n_def)
  then show ?thesis
    using n parse_index [of n] digits_no_sign [of "format_uint n"] u32_or_high [OF n(1)]
    by (simp add: parsePathComponent_def Let_def del: of_nat_add)
next
  case False
  then have i: "unat i < 0x80000000" "encode_segment i = format_uint (unat i)"
    by (simp_all add: encode_segment_def is_hardened_def)
  then show ?thesis
    using parse_index [of "unat i"] digits_no_sign [of "format_uint (unat i)"]
      digits_no_quote [of "format_uint (unat i)"]
    by (simp add: parsePathComponent_def Let_def)
qed

lemma parseComponents_be:
  "parseComponents (c # cs) data = bindE (parsePathComponent c) (\<lambda>num. parseComponents cs (data @ be_u32 num))"
  by (simp add: be_u32_def)

lemma parseComponents_segments:
  "parseComponents (map encode_segment path) data = Inr (data @ concat (map be_u32 path))"
  by (induction path arbitrary: data)
     (simp_all add: parseComponents_be parsePathComponent_segment del: parseComponents.simps(2))

lemma parseComponents_length:
  "parseComponents cs data = Inr bs \<Longrightarrow> length bs = length data + 4 * length cs"
  by (induction cs data rule: parseComponents.induct) (auto simp: returns_iff)

lemma segment_chars: "CHR ''/'' \<notin> set (encode_segment i)" "encode_segment i \<noteq> []"
  by (auto simp: encode_segment_def)

lemma segment_hard: "((ucast (drop_bit 24 (w :: u32)) :: byte) AND 0x80 \<noteq> 0) \<longleftrightarrow> is_hardened w"
proof -
  have "((ucast (drop_bit 24 w) :: byte) AND 2 ^ 7 \<noteq> 0) \<longleftrightarrow> bit (ucast (drop_bit 24 w) :: byte) 7"
    by (simp only: and_exp_eq_0_iff_not_bit) simp
  also have "\<dots> \<longleftrightarrow> bit w 31" by (simp add: bit_simps)
  finally show ?thesis by (simp add: u32_bit_31 is_hardened_def)
qed

lemma segment_num:
  "(push_bit 24 (ucast (ucast (drop_bit 24 w) :: byte) AND 0x7F)
      OR push_bit 16 (ucast (ucast (drop_bit 16 w) :: byte))
      OR push_bit 8 (ucast (ucast (drop_bit 8 w) :: byte)) OR ucast (ucast w :: byte) :: u32)
    = take_bit 31 w"
proof -
  have m: "(0x7F :: u32) = mask 7" by (simp add: mask_eq_decr_exp)
  show ?thesis
    unfolding m
  proof (rule bit_word_eqI)
    fix n
    show "bit (push_bit 24 (ucast (ucast (drop_bit 24 w) :: byte) AND mask 7)
        OR push_bit 16 (ucast (ucast (drop_bit 16 w) :: byte))
        OR push_bit 8 (ucast (ucast (drop_bit 8 w) :: byte)) OR ucast (ucast w :: byte) :: u32) n
      = bit (take_bit 31 w) n"
      by (cases "16 \<le> n") (auto simp: bit_simps)
  qed
qed

lemma chunk_strings_be_u32:
  "chunk_strings (be_u32 w @ rest) = ''/'' @ encode_segment w @ chunk_strings rest"
proof -
  have "unat (take_bit 31 w) = take_bit 31 (unat w)" by (rule unsigned_take_bit_eq)
  also have "\<dots> = unat w mod 2 ^ 31" by (rule take_bit_eq_mod)
  also have "\<dots> = unat w mod 0x80000000" by simp
  also have "\<dots> = (if is_hardened w then unat w - hardenedStart else unat w)"
    using unat_u32_lt [of w] by (auto simp: is_hardened_def le_mod_geq)
  finally show ?thesis
    by (simp only: be_u32_def append.simps chunk_strings.simps segment_hard segment_num Let_def)
       (simp add: encode_segment_def is_hardened_def)
qed

section \<open>Well-formed paths and round trips\<close>

definition keypath_wf :: "KeyPath \<Rightarrow> bool" where
  "keypath_wf kp \<longleftrightarrow> kpSource kp \<in> {SourceMaster, SourceParent, SourceCurrent}
     \<and> length (kpData kp) mod 4 = 0 \<and> length (kpData kp) \<le> 40"

definition source_string :: "byte \<Rightarrow> string" where
  "source_string src =
     (if src = SourceMaster then ''m'' else if src = SourceParent then ''..'' else ''.'')"

lemma chunk_strings_path:
  "chunk_strings (concat (map be_u32 path)) = concat (map (\<lambda>i. ''/'' @ encode_segment i) path)"
  by (induction path) (simp_all add: chunk_strings_be_u32)

lemma go_join_concat: "go_join sep (x # xs) = x @ concat (map (\<lambda>y. sep @ y) xs)"
  by (induction xs arbitrary: x) auto

lemma KeyPath_String_join:
  "KeyPath_String \<lparr>kpSource = src, kpData = concat (map be_u32 path)\<rparr>
    = go_join ''/'' (source_string src # map encode_segment path)"
  by (simp add: KeyPath_String_def source_string_def chunk_strings_path go_join_concat comp_def)

lemma trim_space_source [simp]:
  "trim_space ''m'' = ''m''" "trim_space ''..'' = ''..''" "trim_space ''.'' = ''.''"
  by (rule trim_space_graphic; simp add: graphic_def)+

lemma source_string_no_slash: "CHR ''/'' \<notin> set (source_string src)"
  by (simp add: source_string_def)

lemma split_path:
  "go_split CHR ''/'' (go_join ''/'' (source_string src # map encode_segment path))
    = source_string src # map encode_segment path"
  by (rule go_split_join) (auto simp: source_string_no_slash segment_chars)

lemma KeyPathFromString_path:
  assumes "src \<in> {SourceMaster, SourceParent, SourceCurrent}" and "length path \<le> 10"
  shows "KeyPathFromString (go_join ''/'' (source_string src # map encode_segment path))
    = Inr \<lparr>kpSource = src, kpData = concat (map be_u32 path)\<rparr>"
  using assms unfolding KeyPathFromString_def split_path Let_def
  by (auto simp: source_string_def parseComponents_segments)

text \<open>
  Every path that parses is well formed: one of the three sources and at most ten
  four-byte segments.
\<close>

theorem KeyPathFromString_wf:
  assumes "KeyPathFromString s = Inr kp"
  shows "keypath_wf kp"
  using assms
  by (auto simp: KeyPathFromString_def Let_def returns_iff keypath_wf_def
      dest!: parseComponents_length split: if_splits)

theorem KeyPathFromString_wf_witness:
  "keypath_wf \<lparr>kpSource = SourceParent, kpData = be_u32 7\<rparr>"
proof (rule KeyPathFromString_wf)
  show "KeyPathFromString (go_join ''/'' (source_string SourceParent # map encode_segment [7]))
      = Inr \<lparr>kpSource = SourceParent, kpData = be_u32 7\<rparr>"
    by (subst KeyPathFromString_path) simp_all
qed

text \<open>
  C32. Printing a well-formed path (one of the three sources, at most ten segments of four bytes)
  and parsing the text gives the path back, hardened segments included.
\<close>

theorem KeyPathFromString_String:
  assumes "keypath_wf kp"
  shows "KeyPathFromString (KeyPath_String kp) = Inr kp"
proof -
  define path where "path = read_u32s (kpData kp)"
  obtain k where k: "length (kpData kp) = 4 * k"
    using assms by (auto simp: keypath_wf_def elim: dvdE [OF mod_0_imp_dvd])
  then have data: "kpData kp = concat (map be_u32 path)"
    by (simp add: path_def concat_read_u32s)
  then have "length path \<le> 10"
    using assms by (simp add: keypath_wf_def length_concat_be_u32)
  moreover have "kp = \<lparr>kpSource = kpSource kp, kpData = concat (map be_u32 path)\<rparr>"
    using data by simp
  moreover have "kpSource kp \<in> {SourceMaster, SourceParent, SourceCurrent}"
    using assms by (simp add: keypath_wf_def)
  ultimately show ?thesis
    by (metis KeyPathFromString_path KeyPath_String_join)
qed

theorem KeyPathFromString_String_witness:
  "KeyPathFromString (KeyPath_String \<lparr>kpSource = SourceMaster, kpData = [0x80, 0, 0, 0x2C, 0, 0, 0, 1]\<rparr>)
    = Inr \<lparr>kpSource = SourceMaster, kpData = [0x80, 0, 0, 0x2C, 0, 0, 0, 1]\<rparr>"
  by (rule KeyPathFromString_String) (simp add: keypath_wf_def)

text \<open>
  C33. The repository's two path parsers against each other, on the canonical text of a path
  of at most ten segments: \<open>KeyPathFromString\<close> returns the whole path, and \<open>Decode\<close> returns
  the same path only if its last segment is not hardened.
\<close>

theorem path_parsers_agree_iff:
  assumes "length path \<le> 10"
  shows "\<exists>kp. KeyPathFromString (Encode path) = Inr kp \<and> kpSource kp = SourceMaster
    \<and> read_u32s (kpData kp) = path
    \<and> (Decode (Encode path) = (StartingPointMaster, read_u32s (kpData kp), None)
        \<longleftrightarrow> path = [] \<or> unat (last path) < hardenedStart)"
proof -
  have "Encode path = go_join ''/'' (source_string SourceMaster # map encode_segment path)"
    by (simp add: Encode_def source_string_def)
  then have "KeyPathFromString (Encode path) = Inr \<lparr>kpSource = SourceMaster, kpData = concat (map be_u32 path)\<rparr>"
    using assms KeyPathFromString_path by simp
  moreover have "butlast path \<noteq> path" if "path \<noteq> []"
    using that by (metis append_butlast_last_id append_self_conv not_Cons_self2)
  ultimately show ?thesis
    by (auto simp: Decode_Encode_lost read_u32s_concat)
qed

theorem path_parsers_agree_iff_witness:
  "\<exists>kp. KeyPathFromString (Encode [0x8000002C, 0x8000003C]) = Inr kp
    \<and> read_u32s (kpData kp) = [0x8000002C, 0x8000003C]
    \<and> Decode (Encode [0x8000002C, 0x8000003C]) \<noteq> (StartingPointMaster, read_u32s (kpData kp), None)"
  using path_parsers_agree_iff [of "[0x8000002C, 0x8000003C]"] by auto

end
