(* ===== verification/Commands.thy ===== *)
theory Commands
  imports Constants Key_Path
begin

text \<open>
  \<open>commands.go\<close>: the builders of the plain command APDUs, and the status-word helpers of
  \<open>errors.go\<close>. A builder that parses a derivation path does it with
  \<open>derivationpath.Decode\<close>; \<open>binary.Write\<close> of a segment to a \<open>bytes.Buffer\<close> never fails.
\<close>

section \<open>Builders without a path\<close>

definition NewCommandInit :: "bytes \<Rightarrow> command" where
  "NewCommandInit data = NewCommand ClaGp InsInit 0 0 data"

definition NewCommandPairFirstStep :: "bytes \<Rightarrow> command" where
  "NewCommandPairFirstStep challenge = NewCommand ClaGp InsPair P1PairingFirstStep 0 challenge"

definition NewCommandPairFinalStep :: "bytes \<Rightarrow> command" where
  "NewCommandPairFinalStep cryptogramHash = NewCommand ClaGp InsPair P1PairingFinalStep 0 cryptogramHash"

definition NewCommandUnpair :: "byte \<Rightarrow> command" where
  "NewCommandUnpair index = NewCommand ClaGp InsUnpair index 0 []"

definition NewCommandIdentify :: "bytes \<Rightarrow> command" where
  "NewCommandIdentify challenge = NewCommand ClaGp InsIdentify 0 0 challenge"

definition NewCommandOpenSecureChannel :: "byte \<Rightarrow> bytes \<Rightarrow> command" where
  "NewCommandOpenSecureChannel pairingIndex pubKey = NewCommand ClaGp InsOpenSecureChannel pairingIndex 0 pubKey"

definition NewCommandMutuallyAuthenticate :: "bytes \<Rightarrow> command" where
  "NewCommandMutuallyAuthenticate data = NewCommand ClaGp InsMutuallyAuthenticate 0 0 data"

definition NewCommandGetStatus :: "byte \<Rightarrow> command" where
  "NewCommandGetStatus p1 = NewCommand ClaGp InsGetStatus p1 0 []"

definition NewCommandGenerateKey :: command where
  "NewCommandGenerateKey = NewCommand ClaGp InsGenerateKey 0 0 []"

definition NewCommandGenerateMnemonic :: "byte \<Rightarrow> command" where
  "NewCommandGenerateMnemonic checksumSize = NewCommand ClaGp InsGenerateMnemonic checksumSize 0 []"

definition NewCommandRemoveKey :: command where
  "NewCommandRemoveKey = NewCommand ClaGp InsRemoveKey 0 0 []"

definition NewCommandVerifyPIN :: "bytes \<Rightarrow> command" where
  "NewCommandVerifyPIN pin = NewCommand ClaGp InsVerifyPIN 0 0 pin"

definition NewCommandChangePIN :: "bytes \<Rightarrow> command" where
  "NewCommandChangePIN pin = NewCommand ClaGp InsChangePIN P1ChangePinPIN 0 pin"

definition NewCommandUnblockPIN :: "bytes \<Rightarrow> bytes \<Rightarrow> command" where
  "NewCommandUnblockPIN puk newPIN = NewCommand ClaGp InsUnblockPIN 0 0 (puk @ newPIN)"

definition NewCommandChangePUK :: "bytes \<Rightarrow> command" where
  "NewCommandChangePUK puk = NewCommand ClaGp InsChangePIN P1ChangePinPUK 0 puk"

definition NewCommandChangePairingSecret :: "bytes \<Rightarrow> command" where
  "NewCommandChangePairingSecret secret = NewCommand ClaGp InsChangePIN P1ChangePinPairingSecret 0 secret"

definition NewCommandLoadSeed :: "bytes \<Rightarrow> command" where
  "NewCommandLoadSeed seed = NewCommand ClaGp InsLoadKey P1LoadKeySeed 0 seed"

definition NewCommandLoadLEEKey :: "bytes \<Rightarrow> command" where
  "NewCommandLoadLEEKey seed = NewCommand ClaGp InsLoadKey P1LoadKeyLEE 0 seed"

definition NewCommandLoadKeyBIP32 :: "bool \<Rightarrow> bytes \<Rightarrow> command" where
  "NewCommandLoadKeyBIP32 includePublic keyTLV =
     (let p1 = P1LoadKeyEC; p1 = (if includePublic then P1LoadKeyECExtended else p1)
      in NewCommand ClaGp InsLoadKey p1 0 keyTLV)"

definition NewCommandExportLEE :: "byte \<Rightarrow> bytes \<Rightarrow> command" where
  "NewCommandExportLEE source path = NewCommand ClaGp InsExportLEE source 0 path"

definition NewCommandExportBIP85 :: "byte \<Rightarrow> bytes \<Rightarrow> command" where
  "NewCommandExportBIP85 len path = NewCommand ClaGp InsExportBIP85 len 0 path"

definition NewCommandGetData :: "byte \<Rightarrow> command" where
  "NewCommandGetData typ = NewCommand ClaGp InsGetData typ 0 []"

definition NewCommandStoreData :: "byte \<Rightarrow> bytes \<Rightarrow> command" where
  "NewCommandStoreData typ data = NewCommand ClaGp InsStoreData typ 0 data"

definition NewCommandStoreDataWithOffset :: "byte \<Rightarrow> bytes \<Rightarrow> u16 \<Rightarrow> command" where
  "NewCommandStoreDataWithOffset typ data offset = NewCommand ClaGp InsStoreData typ (ucast (offset div 4)) data"

definition NewCommandGetChallenge :: "byte \<Rightarrow> command" where
  "NewCommandGetChallenge len = NewCommand ClaGp InsGetChallenge len 0 []"

definition NewCommandFactoryReset :: command where
  "NewCommandFactoryReset = NewCommand ClaGp InsFactoryReset P1FactoryResetMagic P2FactoryResetMagic []"

section \<open>Builders with a path\<close>

fun derivationP1FromStartingPoint :: "StartingPoint \<Rightarrow> byte" where
  "derivationP1FromStartingPoint StartingPointMaster = P1DeriveKeyFromMaster"
| "derivationP1FromStartingPoint StartingPointParent = P1DeriveKeyFromParent"
| "derivationP1FromStartingPoint StartingPointCurrent = P1DeriveKeyFromCurrent"

definition NewCommandDeriveKey :: "string \<Rightarrow> command res" where
  "NewCommandDeriveKey pathStr =
     (case Decode pathStr of
        (_, _, Some e) \<Rightarrow> Inl e
      | (startingPoint, path, None) \<Rightarrow>
          Inr (NewCommand ClaGp InsDeriveKey (derivationP1FromStartingPoint startingPoint) 0
                 (concat (map be_u32 path))))"

definition NewCommandExportKey :: "byte \<Rightarrow> byte \<Rightarrow> string \<Rightarrow> command res" where
  "NewCommandExportKey p1 p2 pathStr =
     (case Decode pathStr of
        (_, _, Some e) \<Rightarrow> Inl e
      | (startingPoint, path, None) \<Rightarrow>
          Inr (NewCommand ClaGp InsExportKey (p1 OR derivationP1FromStartingPoint startingPoint) p2
                 (concat (map be_u32 path))))"

definition NewCommandSetPinlessPath :: "string \<Rightarrow> command res" where
  "NewCommandSetPinlessPath pathStr =
     (case Decode pathStr of
        (_, _, Some e) \<Rightarrow> Inl e
      | (startingPoint, path, None) \<Rightarrow>
          if 0 < length path \<and> startingPoint \<noteq> StartingPointMaster
          then Inl (Msg ''pinless path must be set with an absolute path'')
          else Inr (NewCommand ClaGp InsSetPinlessPath 0 0 (concat (map be_u32 path))))"

definition NewCommandSign :: "bytes \<Rightarrow> byte \<Rightarrow> byte \<Rightarrow> string \<Rightarrow> command res" where
  "NewCommandSign data p1 p2 pathStr =
     (if length data \<noteq> 32 then Inl (Msg ''data length must be 32'')
      else if p1 = P1SignDerive \<or> p1 = P1SignDeriveAndMakeCurrent then
        (case Decode pathStr of
           (_, _, Some e) \<Rightarrow> Inl e
         | (_, path, None) \<Rightarrow>
             Inr (NewCommand ClaGp InsSign p1 p2 (data @ concat (map be_u32 path))))
      else Inr (NewCommand ClaGp InsSign p1 p2 data))"

section \<open>Status words\<close>

definition SwAuthenticationMethodBlocked :: u16 where [simp]: "SwAuthenticationMethodBlocked = 0x6983"
definition SwCardLocked :: u16 where [simp]: "SwCardLocked = 0x6283"
definition SwReferencedDataNotFound :: u16 where [simp]: "SwReferencedDataNotFound = 0x6A88"
definition SwConditionsOfUseNotSatisfied :: u16 where [simp]: "SwConditionsOfUseNotSatisfied = 0x6985"
definition SwWrongPINMask :: u16 where [simp]: "SwWrongPINMask = 0x63C0"

text \<open>A nil response (no response but an error elsewhere) is \<open>None\<close>.\<close>

definition CheckAuthOK :: "response option \<Rightarrow> unit res" where
  "CheckAuthOK r =
     (case r of
        None \<Rightarrow> Inr ()
      | Some resp \<Rightarrow>
          if Sw resp = SwOK then Inr ()
          else if Sw resp AND 0xFF00 = SwWrongPINMask then Inl (WrongPIN (unat (Sw resp AND 0x000F)))
          else Inl (BadResponse (Sw resp)))"

text \<open>The masked word has a zero low byte and the mask has not: no response, not even 63Cx,
  becomes a \<open>WrongPINError\<close>.\<close>

lemma CheckAuthOK_never_WrongPIN:
  "CheckAuthOK r \<noteq> Inl (WrongPIN n)"
proof -
  have "sw AND 0xFF00 \<noteq> 0x63C0" for sw :: u16
  proof
    assume *: "sw AND 0xFF00 = 0x63C0"
    have "\<not> bit (sw AND 0xFF00) 6" by (simp add: bit_simps)
    moreover have "bit (0x63C0 :: u16) 6" by simp
    ultimately show False using * by simp
  qed
  then show ?thesis by (simp add: CheckAuthOK_def split: option.split)
qed

section \<open>Paths on the wire\<close>

text \<open>What the path builders of \<open>commands.go\<close> put on the wire for the text of an absolute path: the
  path's segments as four big-endian bytes each, except that a hardened last segment is
  dropped, so that the command names the parent of the key it was asked for.\<close>

theorem path_builders_wire:
  "let sent = concat (map be_u32 (if path \<noteq> [] \<and> hardenedStart \<le> unat (last path) then butlast path else path)) in
   NewCommandDeriveKey (Encode path) = Inr (NewCommand ClaGp InsDeriveKey 0 0 sent)
   \<and> NewCommandExportKey p1 p2 (Encode path) = Inr (NewCommand ClaGp InsExportKey p1 p2 sent)
   \<and> NewCommandSetPinlessPath (Encode path) = Inr (NewCommand ClaGp InsSetPinlessPath 0 0 sent)
   \<and> (length hash = 32 \<longrightarrow>
        NewCommandSign hash P1SignDerive p2 (Encode path) = Inr (NewCommand ClaGp InsSign P1SignDerive p2 (hash @ sent)))"
  by (simp add: NewCommandDeriveKey_def NewCommandExportKey_def NewCommandSetPinlessPath_def NewCommandSign_def
      Decode_Encode_lost Let_def)

theorem path_builders_wire_witness:
  "NewCommandDeriveKey (Encode [0x8000002C, 0x8000003C]) = Inr (NewCommand ClaGp InsDeriveKey 0 0 [0x80, 0, 0, 0x2C])"
proof -
  have "be_u32 0x8000002C = [0x80, 0, 0, 0x2C]" by code_simp
  then show ?thesis
    using path_builders_wire [of "[0x8000002C, 0x8000003C]" 0 0 "[]"] by (simp add: hardenedStart_def Let_def)
qed

end
