(* ===== verification/Gp_Crypto.thy ===== *)
theory Gp_Crypto
  imports Crypto
begin

text \<open>
  \<open>globalplatform/crypto/crypto.go\<close>: the DES operations of SCP02. A slice expression out of range,
  and a \<open>CryptBlocks\<close> on a partial block or into a shorter destination, are panics. The IV of
  every CBC call has one block; \<open>cipher.NewCBCEncrypter\<close> panics otherwise.
\<close>

definition DerivationPurposeEnc :: bytes where "DerivationPurposeEnc = [0x01, 0x82]"
definition DerivationPurposeMac :: bytes where "DerivationPurposeMac = [0x01, 0x01]"
definition NullBytes8 :: bytes where "NullBytes8 = [0, 0, 0, 0, 0, 0, 0, 0]"

lemma length_NullBytes8 [simp]: "length NullBytes8 = 8"
  by (simp add: NullBytes8_def)

text \<open>\<open>key[0:n]\<close>.\<close>

definition go_prefix :: "nat \<Rightarrow> bytes \<Rightarrow> bytes res" where
  "go_prefix n bs = (if length bs < n then Inl (Panic ''slice bounds out of range'') else Inr (take n bs))"

lemma go_prefix_Inr [returns_iff]: "go_prefix n bs = Inr r \<longleftrightarrow> n \<le> length bs \<and> r = take n bs"
  by (auto simp: go_prefix_def)

definition resizeKey24 :: "bytes \<Rightarrow> bytes res" where
  "resizeKey24 key = bindE (go_prefix 16 key) (\<lambda>a. bindE (go_prefix 8 key) (\<lambda>b. Inr (a @ b)))"

definition resizeKey8 :: "bytes \<Rightarrow> bytes res" where
  "resizeKey8 key = go_prefix 8 key"

text \<open>\<open>NewCBCEncrypter(block, iv).CryptBlocks(dst, src)\<close> of an 8-byte cipher into a zeroed
  \<open>dst\<close> of \<open>n\<close> bytes.\<close>

definition des_cbc :: "(bytes \<Rightarrow> bytes) \<Rightarrow> bytes \<Rightarrow> nat \<Rightarrow> bytes \<Rightarrow> bytes res" where
  "des_cbc E iv n src =
     (if length iv \<noteq> 8 then Inl (Panic ''cipher.NewCBCEncrypter: IV length must equal block size'')
      else if \<not> 8 dvd length src then Inl (Panic ''crypto/cipher: input not full blocks'')
      else if n < length src then Inl (Panic ''crypto/cipher: output smaller than input'')
      else Inr (gcopy n (cbc_encrypt E 8 iv src)))"

definition AppendDESPadding :: "bytes \<Rightarrow> bytes" where
  "AppendDESPadding data =
     (let blockSize = 8; paddingSize = blockSize - length data mod blockSize
      in (data @ replicate paddingSize 0)[length data := 0x80])"

definition Gp_DeriveKey :: "('sk, 'pk) prims \<Rightarrow> bytes \<Rightarrow> bytes \<Rightarrow> bytes \<Rightarrow> bytes res" where
  "Gp_DeriveKey P cardKey seq purpose =
     bindE (resizeKey24 cardKey) (\<lambda>key24.
     bindE (go_prefix 2 purpose) (\<lambda>p.
     bindE (go_prefix 2 seq) (\<lambda>s.
     des_cbc (des3E P key24) NullBytes8 16 (gcopy 16 (p @ s)))))"

definition Mac3DES :: "('sk, 'pk) prims \<Rightarrow> bytes \<Rightarrow> bytes \<Rightarrow> bytes \<Rightarrow> bytes res" where
  "Mac3DES P key data iv =
     bindE (resizeKey24 key) (\<lambda>key24.
     bindE (des_cbc (des3E P key24) iv 24 data) (\<lambda>ciphertext. Inr (drop 16 ciphertext)))"

definition Gp_VerifyCryptogram ::
  "('sk, 'pk) prims \<Rightarrow> bytes \<Rightarrow> bytes \<Rightarrow> bytes \<Rightarrow> bytes \<Rightarrow> bool res" where
  "Gp_VerifyCryptogram P encKey hostChallenge cardChallenge cardCryptogram =
     (let paddedData = AppendDESPadding (hostChallenge @ cardChallenge)
      in bindE (Mac3DES P encKey paddedData NullBytes8) (\<lambda>calculated. Inr (calculated = cardCryptogram)))"

definition MacFull3DES :: "('sk, 'pk) prims \<Rightarrow> bytes \<Rightarrow> bytes \<Rightarrow> bytes \<Rightarrow> bytes res" where
  "MacFull3DES P key data iv =
     (let data = AppendDESPadding data in
      bindE (resizeKey8 key) (\<lambda>key8.
      bindE (resizeKey24 key) (\<lambda>key24.
      bindE (if 8 < length data then
               let len = length data - 8
               in bindE (des_cbc (desE P key8) iv len (take len data)) (\<lambda>tmp. Inr (drop (len - 8) tmp))
             else Inr iv) (\<lambda>des3IV.
      des_cbc (des3E P key24) des3IV 8 (drop (length data - 8) data)))))"

definition EncryptICV :: "('sk, 'pk) prims \<Rightarrow> bytes \<Rightarrow> bytes \<Rightarrow> bytes res" where
  "EncryptICV P macKey icv =
     bindE (resizeKey8 macKey) (\<lambda>key8. des_cbc (desE P key8) NullBytes8 8 icv)"

section \<open>Sizes and the retail MAC\<close>

text \<open>DES and triple DES map 8-byte blocks to 8-byte blocks.\<close>

definition des_ok :: "('sk, 'pk) prims \<Rightarrow> bool" where
  "des_ok P \<longleftrightarrow> (\<forall>k b. length b = 8 \<longrightarrow> length (desE P k b) = 8 \<and> length (des3E P k b) = 8)"

lemma toy_prims_des_ok [simp]: "des_ok toy_prims"
  by (simp add: des_ok_def toy_prims_def)

lemma AppendDESPadding_eq: "AppendDESPadding data = appendPadding 8 data"
proof -
  obtain k where k: "8 - length data mod 8 = Suc k"
    by (metis Suc_pred' mod_less_divisor zero_less_diff zero_less_numeral)
  show ?thesis by (simp add: AppendDESPadding_def appendPadding_def Let_def k)
qed

text \<open>Padding method 2 of ISO 9797-1: a byte \<open>80\<close> and zeros up to the next full block.\<close>

definition iso_pad8 :: "bytes \<Rightarrow> bytes" where
  "iso_pad8 d = d @ 0x80 # replicate (7 - length d mod 8) 0"

lemma AppendDESPadding_iso: "AppendDESPadding d = iso_pad8 d"
proof -
  have "length d mod 8 < 8" by simp
  then have "8 - length d mod 8 = Suc (7 - length d mod 8)" by linarith
  then show ?thesis by (simp add: AppendDESPadding_def iso_pad8_def Let_def)
qed

lemma length_AppendDESPadding [simp]: "length (AppendDESPadding data) = (length data div 8 + 1) * 8"
  by (simp add: AppendDESPadding_eq length_appendPadding)

lemma AppendDESPadding_not_Nil [simp]: "AppendDESPadding data \<noteq> []"
  by (simp add: AppendDESPadding_eq)

lemma des_cbc_Inr:
  assumes "\<And>b. length b = 8 \<Longrightarrow> length (E b) = 8" "length iv = 8" "length src = n" "8 dvd n"
  shows "des_cbc E iv n src = Inr (cbc_encrypt E 8 iv src)"
  using assms length_cbc_encrypt [of 8 E iv src] by (simp add: des_cbc_def)

lemma resizeKeys:
  assumes "16 \<le> length key"
  shows "resizeKey24 key = Inr (take 16 key @ take 8 key)" "resizeKey8 key = Inr (take 8 key)"
  using assms by (simp_all add: resizeKey24_def resizeKey8_def go_prefix_def)

text \<open>The retail MAC (ISO 9797-1, algorithm 3) over padded data: single DES up to the last block,
  triple DES on it.\<close>

definition retail_mac :: "('sk, 'pk) prims \<Rightarrow> bytes \<Rightarrow> bytes \<Rightarrow> bytes \<Rightarrow> bytes" where
  "retail_mac P key iv padded =
     (let n = length padded - 8
      in mac_blocks (des3E P (take 16 key @ take 8 key)) 8
           (mac_blocks (desE P (take 8 key)) 8 iv (take n padded)) (drop n padded))"

lemma mac_blocks_length:
  assumes "\<And>b. length b = 8 \<Longrightarrow> length (E b) = 8" "length iv = 8" "8 dvd length bs"
  shows "length (mac_blocks E 8 iv bs) = 8"
  using mac_blocks_append [of 8 E iv bs "[]"] assms by simp

lemma cbc_last8:
  assumes "\<And>b. length b = 8 \<Longrightarrow> length (E b) = 8" "length iv = 8" "8 dvd length bs" "bs \<noteq> []"
  shows "drop (length bs - 8) (cbc_encrypt E 8 iv bs) = mac_blocks E 8 iv bs"
  using cbc_encrypt_last [of 8 E iv bs] length_cbc_encrypt [of 8 E iv bs] assms
  by (auto simp: cbc_next_iv_def split: if_splits)

lemma MacFull3DES_retail:
  assumes des: "des_ok P" and "16 \<le> length key" "length iv = 8"
  shows "MacFull3DES P key data iv = Inr (retail_mac P key iv (AppendDESPadding data))"
    and "length (retail_mac P key iv (AppendDESPadding data)) = 8"
proof -
  let ?p = "AppendDESPadding data" and ?k8 = "take 8 key" and ?k24 = "take 16 key @ take 8 key"
  define n where "n = length ?p - 8"
  have n: "length ?p = n + 8" "8 dvd n" by (simp_all add: n_def)
  have E: "length (desE P k b) = 8" "length (des3E P k b) = 8" if "length b = 8" for k b
    using des that by (simp_all add: des_ok_def)
  let ?m = "mac_blocks (desE P ?k8) 8 iv (take n ?p)"
  have ltk: "length (take n ?p) = n" and ldr: "length (drop n ?p) = 8" using n(1) by simp_all
  have m: "length ?m = 8" using E assms(3) n(2) ltk by (intro mac_blocks_length) simp_all
  have des3IV: "(if 8 < length ?p then bindE (des_cbc (desE P ?k8) iv n (take n ?p)) (\<lambda>tmp. Inr (drop (n - 8) tmp)) else Inr iv)
      = Inr ?m"
  proof (cases "n = 0")
    case True
    then show ?thesis using n(1) by (simp add: mac_blocks.simps [of _ _ _ "[]"])
  next
    case False
    then have "take n ?p \<noteq> []" using n(1) by auto
    with False show ?thesis
      using des_cbc_Inr [of "desE P ?k8" iv "take n ?p" n] cbc_last8 [of "desE P ?k8" iv "take n ?p"] E n ltk assms(3)
      by simp
  qed
  have "drop n ?p \<noteq> []" using ldr by auto
  then have last: "cbc_encrypt (des3E P ?k24) 8 ?m (drop n ?p) = retail_mac P key iv ?p"
    using cbc_last8 [of "des3E P ?k24" ?m "drop n ?p"] E m ldr
    by (simp add: retail_mac_def Let_def n_def)
  show "MacFull3DES P key data iv = Inr (retail_mac P key iv ?p)"
    unfolding MacFull3DES_def Let_def resizeKeys [OF assms(2)] bindE_simps n_def [symmetric] des3IV
    using des_cbc_Inr [of "des3E P ?k24" ?m "drop n ?p" 8] E m ldr last by simp
  show "length (retail_mac P key iv ?p) = 8"
    using last length_cbc_encrypt [of 8 "des3E P ?k24" ?m "drop n ?p"] E m ldr by simp
qed

end
