(* ===== verification/Gp_Commands.thy ===== *)
theory Gp_Commands
  imports Gp_Crypto Constants
begin

text \<open>
  \<open>globalplatform/commands.go\<close>: the GlobalPlatform and ISO 7816 command builders. The package's
  \<open>NewCommandGetStatus\<close> is \<open>Gp_NewCommandGetStatus\<close> here. Appending to a \<open>bytes\<close> slice keeps
  whole lengths, but a length byte is the length modulo 256.
\<close>

definition InsSelect :: byte where [simp]: "InsSelect = 0xA4"
definition InsInitializeUpdate :: byte where [simp]: "InsInitializeUpdate = 0x50"
definition InsExternalAuthenticate :: byte where [simp]: "InsExternalAuthenticate = 0x82"
definition InsGetResponse :: byte where [simp]: "InsGetResponse = 0xC0"
definition InsDelete :: byte where [simp]: "InsDelete = 0xE4"
definition InsLoad :: byte where [simp]: "InsLoad = 0xE8"
definition InsInstall :: byte where [simp]: "InsInstall = 0xE6"
definition Gp_InsGetStatus :: byte where [simp]: "Gp_InsGetStatus = 0xF2"

definition P1ExternalAuthenticateCMAC :: byte where [simp]: "P1ExternalAuthenticateCMAC = 0x01"
definition P1InstallForLoad :: byte where [simp]: "P1InstallForLoad = 0x02"
definition P1InstallForInstall :: byte where [simp]: "P1InstallForInstall = 0x04"
definition P1InstallForMakeSelectable :: byte where [simp]: "P1InstallForMakeSelectable = 0x08"
definition P1LoadMoreBlocks :: byte where [simp]: "P1LoadMoreBlocks = 0x00"
definition P1LoadLastBlock :: byte where [simp]: "P1LoadLastBlock = 0x80"
definition P1GetStatusIssuerSecurityDomain :: byte where [simp]: "P1GetStatusIssuerSecurityDomain = 0x80"
definition P1GetStatusApplications :: byte where [simp]: "P1GetStatusApplications = 0x40"
definition P1GetStatusExecLoadFiles :: byte where [simp]: "P1GetStatusExecLoadFiles = 0x20"
definition P1GetStatusExecLoadFilesAndModules :: byte where [simp]: "P1GetStatusExecLoadFilesAndModules = 0x10"
definition P2GetStatusTLVData :: byte where [simp]: "P2GetStatusTLVData = 0x02"
definition P2DeleteObject :: byte where [simp]: "P2DeleteObject = 0x00"
definition P2DeleteObjectAndRelatedObject :: byte where [simp]: "P2DeleteObjectAndRelatedObject = 0x80"
definition Sw1ResponseDataIncomplete :: byte where [simp]: "Sw1ResponseDataIncomplete = 0x61"
definition SwFileNotFound :: u16 where [simp]: "SwFileNotFound = 0x6A82"
definition Gp_SwReferencedDataNotFound :: u16 where [simp]: "Gp_SwReferencedDataNotFound = 0x6A88"
definition Gp_SwSecurityConditionNotSatisfied :: u16 where [simp]: "Gp_SwSecurityConditionNotSatisfied = 0x6982"
definition Gp_SwAuthenticationMethodBlocked :: u16 where [simp]: "Gp_SwAuthenticationMethodBlocked = 0x6983"
definition tagDeleteAID :: byte where [simp]: "tagDeleteAID = 0x4F"
definition tagLoadFileDataBlock :: byte where [simp]: "tagLoadFileDataBlock = 0xC4"
definition tagGetStatusAID :: byte where [simp]: "tagGetStatusAID = 0x4F"

definition NewCommandSelect :: "bytes \<Rightarrow> command" where
  "NewCommandSelect aid = NewCommand ClaISO7816 InsSelect 0x04 0 aid"

definition NewCommandInitializeUpdate :: "bytes \<Rightarrow> command" where
  "NewCommandInitializeUpdate challenge = SetLe 0x00 (NewCommand ClaGp InsInitializeUpdate 0 0 challenge)"

definition calculateHostCryptogram :: "('sk, 'pk) prims \<Rightarrow> bytes \<Rightarrow> bytes \<Rightarrow> bytes \<Rightarrow> bytes res" where
  "calculateHostCryptogram P encKey cardChallenge hostChallenge =
     Mac3DES P encKey (AppendDESPadding (cardChallenge @ hostChallenge)) NullBytes8"

definition NewCommandExternalAuthenticate ::
  "('sk, 'pk) prims \<Rightarrow> bytes \<Rightarrow> bytes \<Rightarrow> bytes \<Rightarrow> command res" where
  "NewCommandExternalAuthenticate P encKey cardChallenge hostChallenge =
     bindE (calculateHostCryptogram P encKey cardChallenge hostChallenge) (\<lambda>hostCryptogram.
     Inr (NewCommand ClaMac InsExternalAuthenticate P1ExternalAuthenticateCMAC 0 hostCryptogram))"

definition NewCommandGetResponse :: "byte \<Rightarrow> command" where
  "NewCommandGetResponse len = SetLe len (NewCommand ClaISO7816 InsGetResponse 0 0 [])"

text \<open>A length byte before the bytes it counts.\<close>

definition lv :: "bytes \<Rightarrow> bytes" where
  "lv bs = of_nat (length bs) # bs"

definition NewCommandDelete :: "bytes \<Rightarrow> byte \<Rightarrow> command" where
  "NewCommandDelete aid p2 = NewCommand ClaGp InsDelete 0 p2 ([tagDeleteAID, of_nat (length aid)] @ aid)"

definition NewCommandInstallForLoad :: "bytes \<Rightarrow> bytes \<Rightarrow> command" where
  "NewCommandInstallForLoad aid sdaid =
     NewCommand ClaGp InsInstall P1InstallForLoad 0 (lv aid @ lv sdaid @ [0x00, 0x00, 0x00])"

definition NewCommandInstallForInstall :: "bytes \<Rightarrow> bytes \<Rightarrow> bytes \<Rightarrow> bytes \<Rightarrow> command" where
  "NewCommandInstallForInstall pkgAID appletAID instanceAID params =
     (let priv = [0x00];
          fullParams = [0xC9, of_nat (length params)] @ params
      in NewCommand ClaGp InsInstall (P1InstallForInstall OR P1InstallForMakeSelectable) 0
           (lv pkgAID @ lv appletAID @ lv instanceAID @ lv priv @ lv fullParams @ [0x00]))"

definition Gp_NewCommandGetStatus :: "bytes \<Rightarrow> byte \<Rightarrow> command" where
  "Gp_NewCommandGetStatus aid p1 =
     NewCommand ClaGp Gp_InsGetStatus p1 P2GetStatusTLVData ([tagGetStatusAID] @ lv aid)"

section \<open>What a card reads back\<close>

text \<open>The fields of an INSTALL command, as the card reads them: a length byte, that many bytes.\<close>

fun read_lv :: "bytes \<Rightarrow> (bytes \<times> bytes) option" where
  "read_lv [] = None"
| "read_lv (n # rest) = (if unat n \<le> length rest then Some (take (unat n) rest, drop (unat n) rest) else None)"

interpretation lv: prefix_codec lv read_lv "\<lambda>bs. length bs < 256"
proof
  show "read_lv (lv x @ rest) = Some (x, rest)" if "length x < 256" for x rest
    using that by (simp add: lv_def unat_of_nat)
  show "length rest < length bs" if "read_lv bs = Some (x, rest)" for bs x rest
    using that by (cases bs) (auto split: if_splits)
qed

lemma read_lv_lv [simp]: "length x < 256 \<Longrightarrow> read_lv (lv x @ rest) = Some (x, rest)"
  by (rule lv.dec_enc)

end
