(* ===== verification/Identifiers.thy ===== *)
theory Identifiers
  imports Prelude
begin

text \<open>
  \<open>identifiers/identifiers.go\<close>: the default keys and the application identifiers of the Keycard
  packages. The package repeats some identifiers of \<open>constants.go\<close>; its names carry the prefix
  \<open>id_\<close> here. The appended slice is a fresh one, as the literal's capacity is its length.
\<close>

definition GlobalPlatformDefaultKey :: bytes where
  "GlobalPlatformDefaultKey =
     [0x40, 0x41, 0x42, 0x43, 0x44, 0x45, 0x46, 0x47, 0x48, 0x49, 0x4a, 0x4b, 0x4c, 0x4d, 0x4e, 0x4f]"

definition KeycardDevelopmentKey :: bytes where
  "KeycardDevelopmentKey =
     [0xc2, 0x12, 0xe0, 0x73, 0xff, 0x8b, 0x4b, 0xbf, 0xaf, 0xf4, 0xde, 0x8a, 0xb6, 0x55, 0x22, 0x1f]"

definition id_PackageAID :: bytes where "id_PackageAID = [0xA0, 0x00, 0x00, 0x08, 0x04, 0x00, 0x01]"
definition id_KeycardAID :: bytes where "id_KeycardAID = [0xA0, 0x00, 0x00, 0x08, 0x04, 0x00, 0x01, 0x01]"
definition NdefAID :: bytes where "NdefAID = [0xA0, 0x00, 0x00, 0x08, 0x04, 0x00, 0x01, 0x02]"
definition NdefInstanceAID :: bytes where "NdefInstanceAID = [0xD2, 0x76, 0x00, 0x00, 0x85, 0x01, 0x01]"
definition CashAID :: bytes where "CashAID = [0xA0, 0x00, 0x00, 0x08, 0x04, 0x00, 0x01, 0x03]"
definition CashInstanceAID :: bytes where "CashInstanceAID = [0xA0, 0x00, 0x00, 0x08, 0x04, 0x00, 0x01, 0x03, 0x01]"
definition IdentAID :: bytes where "IdentAID = [0xA0, 0x00, 0x00, 0x08, 0x04, 0x00, 0x01, 0x04]"
definition IdentInstanceAID :: bytes where "IdentInstanceAID = [0xA0, 0x00, 0x00, 0x08, 0x04, 0x00, 0x01, 0x04, 0x01]"

definition KeycardDefaultInstanceIndex :: int where [simp]: "KeycardDefaultInstanceIndex = 1"

definition id_KeycardInstanceAID :: "int \<Rightarrow> bytes res" where
  "id_KeycardInstanceAID index =
     (if index < 0x01 \<or> 0xFF < index then Inl InvalidInstanceIndex
      else Inr (id_KeycardAID @ [of_int index]))"

lemma default_keys_length [simp]: "length GlobalPlatformDefaultKey = 16" "length KeycardDevelopmentKey = 16"
  by (simp_all add: GlobalPlatformDefaultKey_def KeycardDevelopmentKey_def)

lemma id_KeycardInstanceAID_default [simp]:
  "id_KeycardInstanceAID 1 = Inr [0xA0, 0x00, 0x00, 0x08, 0x04, 0x00, 0x01, 0x01, 0x01]"
  by (simp add: id_KeycardInstanceAID_def id_KeycardAID_def)

text \<open>Different instances have different identifiers.\<close>

lemma id_KeycardInstanceAID_inj:
  assumes "id_KeycardInstanceAID i = Inr a" "id_KeycardInstanceAID j = Inr a"
  shows "i = j"
proof -
  have b: "1 \<le> i" "i \<le> 255" "1 \<le> j" "j \<le> 255" and eq: "(of_int i :: byte) = of_int j"
    using assms by (auto simp: id_KeycardInstanceAID_def split: if_splits)
  have "uint (of_int i :: byte) = i" "uint (of_int j :: byte) = j"
    using b by (simp_all add: uint_word_of_int)
  with eq show ?thesis by metis
qed

end
