(* ===== verification/Command_Set.thy ===== *)
theory Command_Set
  imports Channel_Dispatch Commands Gp_Commands Identifiers Types_Info
begin

text \<open>
  \<open>command_set.go\<close>: the client of a Keycard. Its state is the record \<open>command_set\<close>; the transport
  and the randomness are the environment's. \<open>ApplicationInfo\<close> is an exported pointer, so it can be
  nil (\<open>None\<close>). Go strings (PIN, PUK, passwords) are byte lists, a path is a \<open>string\<close>. A call that
  fails has no response.
\<close>

section \<open>State\<close>

record ('sk, 'pk) command_set =
  sc :: "('sk, 'pk) channel"
  applicationInfo :: "ApplicationInfo option"
  csCaPublicKeys :: "bytes list"
  csWhitelistedKeys :: "bytes list"

text \<open>\<open>&types.ApplicationInfo{}\<close>.\<close>

definition zero_info :: ApplicationInfo where
  "zero_info = empty_info\<lparr>Installed := False\<rparr>"

definition NewCommandSetWithCAs :: "bytes list \<Rightarrow> bytes list \<Rightarrow> ('sk, 'pk) command_set" where
  "NewCommandSetWithCAs cas cards =
     \<lparr>sc = SC2 (NewSecureChannelV2 cas cards), applicationInfo = Some zero_info,
      csCaPublicKeys = cas, csWhitelistedKeys = cards\<rparr>"

definition NewCommandSetWithCA :: "bytes \<Rightarrow> ('sk, 'pk) command_set" where
  "NewCommandSetWithCA ca = NewCommandSetWithCAs [ca] []"

definition NewCommandSet :: "('sk, 'pk) command_set" where
  "NewCommandSet = NewCommandSetWithCA DefaultCAPublicKey"

text \<open>A method of the channel, on the command set.\<close>

definition with_sc :: "(('sk, 'pk) channel \<times> 'w, 'a) st \<Rightarrow> (('sk, 'pk) command_set \<times> 'w, 'a) st" where
  "with_sc m = (\<lambda>(cs, w). let (r, ch, w') = m (sc cs, w) in (r, cs\<lparr>sc := ch\<rparr>, w'))"

text \<open>The command is sent to the transport as it is.\<close>

definition send_plain :: "('w, 'sk) env \<Rightarrow> command \<Rightarrow> (('sk, 'pk) command_set \<times> 'w, response) st" where
  "send_plain env cmd = checked [] (worldS (env_send env cmd))"

section \<open>Selection\<close>

definition isSecureChannelV2 :: "ApplicationInfo \<Rightarrow> bool" where
  "isSecureChannelV2 info \<longleftrightarrow> AppVersion info \<ge> 0x0400"

definition install_v2 :: "('sk, 'pk) prims \<Rightarrow> ApplicationInfo \<Rightarrow> (('sk, 'pk) command_set, unit) st" where
  "install_v2 P info = (\<lambda>cs.
     let scV2 = NewSecureChannelV2 (csCaPublicKeys cs) (csWhitelistedKeys cs) in
     if 0 < length (CertData info) then
       (case SetCardCertificate P (CertData info) scV2 of
          (Inl e, _) \<Rightarrow> (Inl (Wrap ''failed to set card certificate'' e), cs)
        | (Inr _, scV2) \<Rightarrow> (Inr (), cs\<lparr>sc := SC2 scV2\<rparr>))
     else (Inr (), cs\<lparr>sc := SC2 scV2\<rparr>))"

definition install_v1 ::
  "('sk, 'pk) prims \<Rightarrow> ('w, 'sk) env \<Rightarrow> ApplicationInfo \<Rightarrow> (('sk, 'pk) command_set \<times> 'w, unit) st" where
  "install_v1 P env info = (\<lambda>(cs, w).
     case GenerateSecret P env (SecureChannelPublicKey info) (NewSecureChannel, w) of
       (Inl e, _, w') \<Rightarrow> (Inl e, cs, w')
     | (Inr _, scV1, w') \<Rightarrow> (Inr (), cs\<lparr>sc := SC1 (V1_Reset scV1)\<rparr>, w'))"

definition selectWithIndex ::
  "('sk, 'pk) prims \<Rightarrow> ('w, 'sk) env \<Rightarrow> byte \<Rightarrow> (('sk, 'pk) command_set \<times> 'w, unit) st" where
  "selectWithIndex P env instanceIdx =
     bindS (liftS (id_KeycardInstanceAID (int (unat instanceIdx)))) (\<lambda>instanceAID.
     bindS (send_plain env (SetLe 0 (NewCommandSelect instanceAID))) (\<lambda>resp.
     bindS (liftS (ParseApplicationInfo (RData resp))) (\<lambda>appInfo.
     bindS (localS (modifyS (\<lambda>cs. cs\<lparr>applicationInfo := Some appInfo\<rparr>))) (\<lambda>_.
     if HasSecureChannelCapability appInfo then
       (if isSecureChannelV2 appInfo then localS (install_v2 P appInfo) else install_v1 P env appInfo)
     else returnS ()))))"

definition Select :: "('sk, 'pk) prims \<Rightarrow> ('w, 'sk) env \<Rightarrow> (('sk, 'pk) command_set \<times> 'w, unit) st" where
  "Select P env = selectWithIndex P env (of_int KeycardDefaultInstanceIndex)"

section \<open>Protected calls\<close>

definition sendProtected ::
  "('sk, 'pk) prims \<Rightarrow> ('w, 'sk) env \<Rightarrow> byte \<Rightarrow> byte \<Rightarrow> byte \<Rightarrow> bytes \<Rightarrow> (('sk, 'pk) command_set \<times> 'w, response) st" where
  "sendProtected P env ins p1 p2 data =
     with_sc (bindS (localS (sc_ProtectedCommand P ClaGp ins p1 p2 data)) (sc_Transmit P env))"

text \<open>\<open>sendProtected\<close> followed by \<open>apdu.CheckOK\<close>.\<close>

definition call ::
  "('sk, 'pk) prims \<Rightarrow> ('w, 'sk) env \<Rightarrow> byte \<Rightarrow> byte \<Rightarrow> byte \<Rightarrow> bytes \<Rightarrow> (('sk, 'pk) command_set \<times> 'w, response) st" where
  "call P env ins p1 p2 data = checked [] (sendProtected P env ins p1 p2 data)"

definition call_unit ::
  "('sk, 'pk) prims \<Rightarrow> ('w, 'sk) env \<Rightarrow> byte \<Rightarrow> byte \<Rightarrow> byte \<Rightarrow> bytes \<Rightarrow> (('sk, 'pk) command_set \<times> 'w, unit) st" where
  "call_unit P env ins p1 p2 data = ignore (call P env ins p1 p2 data)"

definition call_parse ::
  "('sk, 'pk) prims \<Rightarrow> ('w, 'sk) env \<Rightarrow> byte \<Rightarrow> byte \<Rightarrow> byte \<Rightarrow> bytes \<Rightarrow> (bytes \<Rightarrow> 'a res)
    \<Rightarrow> (('sk, 'pk) command_set \<times> 'w, 'a) st" where
  "call_parse P env ins p1 p2 data parse_data =
     bindS (call P env ins p1 p2 data) (\<lambda>resp. liftS (parse_data (RData resp)))"

section \<open>Initialisation\<close>

definition buildInitData :: "bytes \<Rightarrow> bytes \<Rightarrow> bytes \<Rightarrow> bytes option \<Rightarrow> byte \<Rightarrow> byte \<Rightarrow> bytes" where
  "buildInitData pinB pukB sharedSecret altPin pinRetries pukRetries =
     (let extLen = (if altPin \<noteq> None \<and> altPin \<noteq> Some [] then 2 + length (opt_bytes altPin)
                    else if pinRetries \<noteq> 0 \<or> pukRetries \<noteq> 0 then 2 else 0);
          initData = pinB @ pukB @ sharedSecret
      in if 0 < extLen then
           let initData = initData @ [pinRetries, pukRetries]
           in if altPin \<noteq> None \<and> altPin \<noteq> Some [] then initData @ opt_bytes altPin else initData
         else initData)"

text \<open>The payload a version-1 channel encrypts for INIT, and its sending.\<close>

definition init_v1 ::
  "('w, 'sk) env \<Rightarrow> ('pk sc1 \<times> 'w, bytes) st \<Rightarrow> (('sk, 'pk) command_set \<times> 'w, unit) st" where
  "init_v1 env encrypt =
     bindS (with_sc (on_version_env encrypt (failS (Msg ''expected SecureChannelV1 for init with secret'')))) (\<lambda>payload.
     ignore (send_plain env (NewCommandInit payload)))"

definition init_v2 :: "('sk, 'pk) prims \<Rightarrow> ('w, 'sk) env \<Rightarrow> bytes \<Rightarrow> (('sk, 'pk) command_set \<times> 'w, unit) st" where
  "init_v2 P env initData =
     bindS (with_sc (sc_AutoOpen P env)) (\<lambda>_. call_unit P env InsInit 0 0 initData)"

definition CS_Init :: "('sk, 'pk) prims \<Rightarrow> ('w, 'sk) env \<Rightarrow> Secrets \<Rightarrow> (('sk, 'pk) command_set \<times> 'w, unit) st" where
  "CS_Init P env secrets = getS (\<lambda>cs.
     case sc cs of
       SC1 _ \<Rightarrow> init_v1 env (V1_OneShotEncrypt P env secrets)
     | SC2 _ \<Rightarrow> init_v2 P env (buildInitData (pin secrets) (puk secrets) (pairingToken secrets) None 0 0))"

definition CS_initWithSecret ::
  "('sk, 'pk) prims \<Rightarrow> ('w, 'sk) env \<Rightarrow> bytes \<Rightarrow> bytes option \<Rightarrow> bytes \<Rightarrow> bytes \<Rightarrow> byte \<Rightarrow> byte
    \<Rightarrow> (('sk, 'pk) command_set \<times> 'w, unit) st" where
  "CS_initWithSecret P env pinB altPin pukB sharedSecret pinRetries pukRetries =
     (let initData = buildInitData pinB pukB sharedSecret altPin pinRetries pukRetries in
      getS (\<lambda>cs. case sc cs of
        SC2 _ \<Rightarrow> init_v2 P env initData
      | SC1 _ \<Rightarrow> init_v1 env (encryptedInitPayload P env initData)))"

definition InitWithSecret ::
  "('sk, 'pk) prims \<Rightarrow> ('w, 'sk) env \<Rightarrow> bytes \<Rightarrow> bytes \<Rightarrow> bytes \<Rightarrow> (('sk, 'pk) command_set \<times> 'w, unit) st" where
  "InitWithSecret P env pinB pukB sharedSecret = CS_initWithSecret P env pinB None pukB sharedSecret 0 0"

definition InitV2 :: "('sk, 'pk) prims \<Rightarrow> ('w, 'sk) env \<Rightarrow> bytes \<Rightarrow> bytes \<Rightarrow> (('sk, 'pk) command_set \<times> 'w, unit) st" where
  "InitV2 P env pinB pukB = CS_initWithSecret P env pinB None pukB [] 0 0"

definition InitWithOptionsV2 ::
  "('sk, 'pk) prims \<Rightarrow> ('w, 'sk) env \<Rightarrow> bytes \<Rightarrow> bytes \<Rightarrow> bytes \<Rightarrow> byte \<Rightarrow> byte \<Rightarrow> (('sk, 'pk) command_set \<times> 'w, unit) st" where
  "InitWithOptionsV2 P env pinB altPin pukB pinRetries pukRetries =
     CS_initWithSecret P env pinB (Some altPin) pukB [] pinRetries pukRetries"

definition PairingPasswordToSecret :: "('sk, 'pk) prims \<Rightarrow> bytes \<Rightarrow> bytes" where
  "PairingPasswordToSecret P password = generatePairingToken P password"

definition InitWithOptions ::
  "('sk, 'pk) prims \<Rightarrow> ('w, 'sk) env \<Rightarrow> bytes \<Rightarrow> bytes \<Rightarrow> bytes \<Rightarrow> bytes \<Rightarrow> byte \<Rightarrow> byte
    \<Rightarrow> (('sk, 'pk) command_set \<times> 'w, unit) st" where
  "InitWithOptions P env pinB altPin pukB pairingPassB pinRetries pukRetries =
     CS_initWithSecret P env pinB (Some altPin) pukB (PairingPasswordToSecret P pairingPassB) pinRetries pukRetries"

section \<open>Pairing\<close>

text \<open>The deprecated \<open>Pair\<close>. The slices \<open>resp.Data[:32]\<close> and \<open>resp.Data[1:]\<close> are unchecked.\<close>

definition CS_Pair :: "('sk, 'pk) prims \<Rightarrow> ('w, 'sk) env \<Rightarrow> bytes \<Rightarrow> (('sk, 'pk) command_set \<times> 'w, unit) st" where
  "CS_Pair P env pairingPassB =
     bindS (worldS (env_rand env 32)) (\<lambda>challenge.
     bindS (worldS (env_send env (NewCommandPairFirstStep challenge))) (\<lambda>resp.
     if Sw resp = SwNoAvailablePairingSlots then failS NoAvailablePairingSlots
     else
       bindS (expect_ok resp) (\<lambda>_.
       if length (RData resp) < 32 then failS (Panic ''slice bounds out of range'')
       else
         let cardCryptogram = take 32 (RData resp); cardCh = drop 32 (RData resp) in
         bindS (liftS (VerifyCryptogram P challenge pairingPassB cardCryptogram)) (\<lambda>secretHash.
         bindS (send_plain env (NewCommandPairFinalStep (sha256 P (secretHash @ cardCh)))) (\<lambda>resp.
         if RData resp = [] then failS (Panic ''slice bounds out of range'')
         else
           let pairingKey = sha256 P (secretHash @ drop 1 (RData resp));
               pairingIndex = RData resp ! 0;
               keyArr = gcopy 32 pairingKey
           in localS (modifyS (\<lambda>cs. cs\<lparr>sc := sc_SetPairing (Some (NewPairing keyArr pairingIndex)) (sc cs)\<rparr>)))))))"

definition AutoPairWithSecretAndMode ::
  "('sk, 'pk) prims \<Rightarrow> ('w, 'sk) env \<Rightarrow> bytes \<Rightarrow> byte \<Rightarrow> (('sk, 'pk) command_set \<times> 'w, unit) st" where
  "AutoPairWithSecretAndMode P env sharedSecret mode = with_sc (sc_AutoPair P env mode sharedSecret)"

definition AutoPairWithMode ::
  "('sk, 'pk) prims \<Rightarrow> ('w, 'sk) env \<Rightarrow> bytes \<Rightarrow> byte \<Rightarrow> (('sk, 'pk) command_set \<times> 'w, unit) st" where
  "AutoPairWithMode P env pairingPassB mode =
     AutoPairWithSecretAndMode P env (PairingPasswordToSecret P pairingPassB) mode"

definition AutoPairWithSecret ::
  "('sk, 'pk) prims \<Rightarrow> ('w, 'sk) env \<Rightarrow> bytes \<Rightarrow> (('sk, 'pk) command_set \<times> 'w, unit) st" where
  "AutoPairWithSecret P env sharedSecret = AutoPairWithSecretAndMode P env sharedSecret P2PairAny"

text \<open>The response of \<open>Unpair\<close> is not looked at.\<close>

definition CS_Unpair :: "('sk, 'pk) prims \<Rightarrow> ('w, 'sk) env \<Rightarrow> byte \<Rightarrow> (('sk, 'pk) command_set \<times> 'w, unit) st" where
  "CS_Unpair P env index = ignore (with_sc (sc_Unpair P env index))"

definition CS_UnpairOthers :: "('sk, 'pk) prims \<Rightarrow> ('w, 'sk) env \<Rightarrow> (('sk, 'pk) command_set \<times> 'w, unit) st" where
  "CS_UnpairOthers P env = with_sc (sc_UnpairOthers P env)"

section \<open>Opening\<close>

definition Identify :: "('sk, 'pk) prims \<Rightarrow> ('w, 'sk) env \<Rightarrow> (('sk, 'pk) command_set \<times> 'w, bytes) st" where
  "Identify P env =
     bindS (worldS (env_rand env 32)) (\<lambda>challenge.
     call_parse P env InsIdentify 0 0 challenge (VerifyIdentity P challenge))"

definition mutualAuthenticate :: "('sk, 'pk) prims \<Rightarrow> ('w, 'sk) env \<Rightarrow> (('sk, 'pk) command_set \<times> 'w, unit) st" where
  "mutualAuthenticate P env = call_unit P env InsMutuallyAuthenticate 0 0 []"

definition CS_OpenSecureChannel :: "('sk, 'pk) prims \<Rightarrow> ('w, 'sk) env \<Rightarrow> (('sk, 'pk) command_set \<times> 'w, unit) st" where
  "CS_OpenSecureChannel P env = getS (\<lambda>cs.
     if applicationInfo cs = None then failS (Msg ''cannot open secure channel without application info'')
     else case sc cs of
       SC2 _ \<Rightarrow> failS (Msg ''OpenSecureChannel is for V1 cards; use AutoOpenSecureChannel for V2'')
     | SC1 scV1 \<Rightarrow>
         (case pairing1 scV1 of
            None \<Rightarrow> failS (Msg ''cannot open secure channel without pairing'')
          | Some pairing \<Rightarrow>
              bindS (send_plain env (NewCommandOpenSecureChannel (pairingIndex pairing) (RawPublicKey P scV1))) (\<lambda>resp.
              bindS (liftS (wrapE ''OPEN_SECURE_CHANNEL''
                (DeriveSessionKeys P (opt_bytes (secret1 scV1)) (pairingKey pairing) (RData resp)))) (\<lambda>(encKey, macKey, iv).
              bindS (localS (modifyS (\<lambda>cs. cs\<lparr>sc := SC1 (V1_Init iv encKey macKey scV1)\<rparr>))) (\<lambda>_.
              mutualAuthenticate P env)))))"

definition AutoOpenSecureChannel :: "('sk, 'pk) prims \<Rightarrow> ('w, 'sk) env \<Rightarrow> (('sk, 'pk) command_set \<times> 'w, unit) st" where
  "AutoOpenSecureChannel P env = with_sc (sc_AutoOpen P env)"

section \<open>Status and credentials\<close>

definition CS_GetStatus ::
  "('sk, 'pk) prims \<Rightarrow> ('w, 'sk) env \<Rightarrow> byte \<Rightarrow> (('sk, 'pk) command_set \<times> 'w, ApplicationStatus) st" where
  "CS_GetStatus P env info = call_parse P env InsGetStatus info 0 [] ParseApplicationStatus"

definition GetStatusApplication ::
  "('sk, 'pk) prims \<Rightarrow> ('w, 'sk) env \<Rightarrow> (('sk, 'pk) command_set \<times> 'w, ApplicationStatus) st" where
  "GetStatusApplication P env = CS_GetStatus P env P1GetStatusApplication"

definition GetStatusKeyPath ::
  "('sk, 'pk) prims \<Rightarrow> ('w, 'sk) env \<Rightarrow> (('sk, 'pk) command_set \<times> 'w, ApplicationStatus) st" where
  "GetStatusKeyPath P env = CS_GetStatus P env P1GetStatusKeyPath"

text \<open>The retry counter in a bad status word.\<close>

definition check_retries :: "(nat \<Rightarrow> go_error) \<Rightarrow> response res \<Rightarrow> unit res" where
  "check_retries wrong r =
     (case r of
        Inl e \<Rightarrow> Inl e
      | Inr resp \<Rightarrow>
          (case CheckOK (Inr resp) [] of
             Inr _ \<Rightarrow> Inr ()
           | Inl e \<Rightarrow>
               if Sw resp AND 0x63C0 = 0x63C0 then Inl (wrong (unat (Sw resp AND 0x000F))) else Inl e))"

definition VerifyPIN :: "('sk, 'pk) prims \<Rightarrow> ('w, 'sk) env \<Rightarrow> bytes \<Rightarrow> (('sk, 'pk) command_set \<times> 'w, unit) st" where
  "VerifyPIN P env pinB = (\<lambda>s. let (r, s') = sendProtected P env InsVerifyPIN 0 0 pinB s in (check_retries WrongPIN r, s'))"

definition ChangePIN :: "('sk, 'pk) prims \<Rightarrow> ('w, 'sk) env \<Rightarrow> bytes \<Rightarrow> (('sk, 'pk) command_set \<times> 'w, unit) st" where
  "ChangePIN P env pinB = call_unit P env InsChangePIN P1ChangePinPIN 0 pinB"

definition UnblockPIN ::
  "('sk, 'pk) prims \<Rightarrow> ('w, 'sk) env \<Rightarrow> bytes \<Rightarrow> bytes \<Rightarrow> (('sk, 'pk) command_set \<times> 'w, unit) st" where
  "UnblockPIN P env pukB newPIN =
     (\<lambda>s. let (r, s') = sendProtected P env InsUnblockPIN 0 0 (pukB @ newPIN) s in (check_retries WrongPUK r, s'))"

definition ChangePUK :: "('sk, 'pk) prims \<Rightarrow> ('w, 'sk) env \<Rightarrow> bytes \<Rightarrow> (('sk, 'pk) command_set \<times> 'w, unit) st" where
  "ChangePUK P env pukB = call_unit P env InsChangePIN P1ChangePinPUK 0 pukB"

definition ChangePairingSecret ::
  "('sk, 'pk) prims \<Rightarrow> ('w, 'sk) env \<Rightarrow> bytes \<Rightarrow> (('sk, 'pk) command_set \<times> 'w, unit) st" where
  "ChangePairingSecret P env password =
     call_unit P env InsChangePIN P1ChangePinPairingSecret 0 (generatePairingToken P password)"

definition ChangePairingPassword ::
  "('sk, 'pk) prims \<Rightarrow> ('w, 'sk) env \<Rightarrow> bytes \<Rightarrow> (('sk, 'pk) command_set \<times> 'w, unit) st" where
  "ChangePairingPassword P env password =
     call_unit P env InsChangePIN P1ChangePinPairingSecret 0 (PairingPasswordToSecret P password)"

section \<open>Keys\<close>

definition GenerateKey :: "('sk, 'pk) prims \<Rightarrow> ('w, 'sk) env \<Rightarrow> (('sk, 'pk) command_set \<times> 'w, bytes) st" where
  "GenerateKey P env = call_parse P env InsGenerateKey 0 0 [] Inr"

text \<open>The loop of \<open>parseMnemonicResponse\<close>; an odd last byte is dropped.\<close>

fun mnemonic_pairs :: "bytes \<Rightarrow> int list" where
  "mnemonic_pairs (a # b # rest) = (int (unat a) * 256 + int (unat b)) # mnemonic_pairs rest"
| "mnemonic_pairs _ = []"

definition parseMnemonicResponse :: "bytes \<Rightarrow> int list res" where
  "parseMnemonicResponse data = Inr (mnemonic_pairs data)"

definition GenerateMnemonic ::
  "('sk, 'pk) prims \<Rightarrow> ('w, 'sk) env \<Rightarrow> int \<Rightarrow> (('sk, 'pk) command_set \<times> 'w, int list) st" where
  "GenerateMnemonic P env checksumSize =
     (if checksumSize < 4 \<or> 8 < checksumSize then failS BadChecksumSize
      else call_parse P env InsGenerateMnemonic (of_int checksumSize) 0 [] parseMnemonicResponse)"

definition RemoveKey :: "('sk, 'pk) prims \<Rightarrow> ('w, 'sk) env \<Rightarrow> (('sk, 'pk) command_set \<times> 'w, unit) st" where
  "RemoveKey P env = call_unit P env InsRemoveKey 0 0 []"

definition DeriveKey :: "('sk, 'pk) prims \<Rightarrow> ('w, 'sk) env \<Rightarrow> string \<Rightarrow> (('sk, 'pk) command_set \<times> 'w, unit) st" where
  "DeriveKey P env path =
     bindS (liftS (KeyPathFromString path)) (\<lambda>kp. call_unit P env InsDeriveKey (kpSource kp) 0 (kpData kp))"

definition LoadSeed :: "('sk, 'pk) prims \<Rightarrow> ('w, 'sk) env \<Rightarrow> bytes \<Rightarrow> (('sk, 'pk) command_set \<times> 'w, bytes) st" where
  "LoadSeed P env seed = call_parse P env InsLoadKey P1LoadKeySeed 0 seed Inr"

definition loadKeyBIP32Inner ::
  "('sk, 'pk) prims \<Rightarrow> ('w, 'sk) env \<Rightarrow> Bip32KeyPair \<Rightarrow> bool \<Rightarrow> (('sk, 'pk) command_set \<times> 'w, unit) st" where
  "loadKeyBIP32Inner P env keyPair omitPublic =
     (let includePublic = (\<not> omitPublic);
          p1 = (if IsExtended keyPair then P1LoadKeyECExtended else P1LoadKeyEC)
      in call_unit P env InsLoadKey p1 0 (Bip32_ToTLV includePublic keyPair))"

definition LoadKeyBIP32 ::
  "('sk, 'pk) prims \<Rightarrow> ('w, 'sk) env \<Rightarrow> Bip32KeyPair \<Rightarrow> (('sk, 'pk) command_set \<times> 'w, unit) st" where
  "LoadKeyBIP32 P env keyPair = loadKeyBIP32Inner P env keyPair False"

definition LoadKeyBIP32OmitPublic ::
  "('sk, 'pk) prims \<Rightarrow> ('w, 'sk) env \<Rightarrow> Bip32KeyPair \<Rightarrow> (('sk, 'pk) command_set \<times> 'w, unit) st" where
  "LoadKeyBIP32OmitPublic P env keyPair = loadKeyBIP32Inner P env keyPair True"

definition LoadLEEKey :: "('sk, 'pk) prims \<Rightarrow> ('w, 'sk) env \<Rightarrow> bytes \<Rightarrow> (('sk, 'pk) command_set \<times> 'w, unit) st" where
  "LoadLEEKey P env seed = call_unit P env InsLoadKey P1LoadKeyLEE 0 seed"

definition ExportKeyWithP2 ::
  "('sk, 'pk) prims \<Rightarrow> ('w, 'sk) env \<Rightarrow> bool \<Rightarrow> bool \<Rightarrow> byte \<Rightarrow> string \<Rightarrow> (('sk, 'pk) command_set \<times> 'w, ExportedKey) st" where
  "ExportKeyWithP2 P env derive makeCurrent p2 path =
     bindS (liftS (KeyPathFromString path)) (\<lambda>kp.
     let p1 = kpSource kp;
         p1 = (if derive then
                 (if makeCurrent then p1 OR P1ExportKeyDeriveAndMakeCurrent else p1 OR P1ExportKeyDerive)
               else p1)
     in call_parse P env InsExportKey p1 p2 (kpData kp) (ParseExportKeyResponse P))"

definition ExportKeyExtended ::
  "('sk, 'pk) prims \<Rightarrow> ('w, 'sk) env \<Rightarrow> bool \<Rightarrow> bool \<Rightarrow> byte \<Rightarrow> string \<Rightarrow> (('sk, 'pk) command_set \<times> 'w, ExportedKey) st" where
  "ExportKeyExtended P env derive makeCurrent p2 path = ExportKeyWithP2 P env derive makeCurrent p2 path"

definition ExportKey ::
  "('sk, 'pk) prims \<Rightarrow> ('w, 'sk) env \<Rightarrow> bool \<Rightarrow> bool \<Rightarrow> bool \<Rightarrow> string
    \<Rightarrow> (('sk, 'pk) command_set \<times> 'w, bytes \<times> bytes) st" where
  "ExportKey P env derive makeCurrent onlyPublic path =
     (let p2 = (if onlyPublic then P2ExportKeyPublicOnly else P2ExportKeyPrivateAndPublic) in
      bindS (ExportKeyExtended P env derive makeCurrent p2 path) (\<lambda>key. returnS (ekPrivKey key, ekPubKey key)))"

definition ExportCurrentKey ::
  "('sk, 'pk) prims \<Rightarrow> ('w, 'sk) env \<Rightarrow> bool \<Rightarrow> (('sk, 'pk) command_set \<times> 'w, ExportedKey) st" where
  "ExportCurrentKey P env publicOnly =
     (let p2 = (if publicOnly then P2ExportKeyPublicOnly else P2ExportKeyPrivateAndPublic) in
      call_parse P env InsExportKey P1ExportKeyCurrent p2 [] (ParseExportKeyResponse P))"

definition ExportLEEKey :: "('sk, 'pk) prims \<Rightarrow> ('w, 'sk) env \<Rightarrow> string \<Rightarrow> (('sk, 'pk) command_set \<times> 'w, bytes) st" where
  "ExportLEEKey P env keypath =
     bindS (liftS (KeyPathFromString keypath)) (\<lambda>kp. call_parse P env InsExportLEE (kpSource kp) 0 (kpData kp) Inr)"

definition ExportLEEKeyParsed ::
  "('sk, 'pk) prims \<Rightarrow> ('w, 'sk) env \<Rightarrow> string \<Rightarrow> (('sk, 'pk) command_set \<times> 'w, LeeKey) st" where
  "ExportLEEKeyParsed P env keypath = bindS (ExportLEEKey P env keypath) (\<lambda>data. liftS (ParseLeeKey data))"

definition ECDHRaw ::
  "('sk, 'pk) prims \<Rightarrow> ('w, 'sk) env \<Rightarrow> bytes \<Rightarrow> bytes \<Rightarrow> (('sk, 'pk) command_set \<times> 'w, bytes) st" where
  "ECDHRaw P env peerPublicKey path =
     (if length peerPublicKey \<noteq> Secp256k1UncompressedPubKeySize \<or> peerPublicKey ! 0 \<noteq> UncompressedPointTag
      then failS (Msg ''peer public key must be an uncompressed point'')
      else call_parse P env InsECDH P1SignDerive P2ECDHRawSecret (peerPublicKey @ path) Inr)"

definition ECDH ::
  "('sk, 'pk) prims \<Rightarrow> ('w, 'sk) env \<Rightarrow> bytes \<Rightarrow> string \<Rightarrow> (('sk, 'pk) command_set \<times> 'w, bytes) st" where
  "ECDH P env peerPublicKey keypath =
     bindS (liftS (KeyPathFromString keypath)) (\<lambda>kp.
     if kpSource kp \<noteq> SourceMaster then failS (Msg ''ECDH requires an absolute path derived from the master key'')
     else ECDHRaw P env peerPublicKey (kpData kp))"

definition ExportBIP85 ::
  "('sk, 'pk) prims \<Rightarrow> ('w, 'sk) env \<Rightarrow> string \<Rightarrow> byte \<Rightarrow> (('sk, 'pk) command_set \<times> 'w, bytes) st" where
  "ExportBIP85 P env keypath len =
     bindS (liftS (KeyPathFromString keypath)) (\<lambda>kp. call_parse P env InsExportBIP85 len 0 (kpData kp) Inr)"

definition SetPinlessPath :: "('sk, 'pk) prims \<Rightarrow> ('w, 'sk) env \<Rightarrow> string \<Rightarrow> (('sk, 'pk) command_set \<times> 'w, unit) st" where
  "SetPinlessPath P env path =
     bindS (liftS (KeyPathFromString path)) (\<lambda>kp.
     if kpSource kp \<noteq> SourceMaster then failS (Msg ''pinless path must be set with an absolute path'')
     else call_unit P env InsSetPinlessPath 0 0 (kpData kp))"

definition ResetPinlessPath :: "('sk, 'pk) prims \<Rightarrow> ('w, 'sk) env \<Rightarrow> (('sk, 'pk) command_set \<times> 'w, unit) st" where
  "ResetPinlessPath P env = call_unit P env InsSetPinlessPath 0 0 []"

section \<open>Signing\<close>

definition Sign :: "('sk, 'pk) prims \<Rightarrow> ('w, 'sk) env \<Rightarrow> bytes \<Rightarrow> (('sk, 'pk) command_set \<times> 'w, Signature) st" where
  "Sign P env data = call_parse P env InsSign P1SignCurrentKey P2SignECDSA data (ParseSignature P data)"

definition SignWithPathAndAlgo ::
  "('sk, 'pk) prims \<Rightarrow> ('w, 'sk) env \<Rightarrow> bytes \<Rightarrow> string \<Rightarrow> byte \<Rightarrow> (('sk, 'pk) command_set \<times> 'w, Signature) st" where
  "SignWithPathAndAlgo P env data path algo =
     bindS (if algo = P2SignBIP340Schnorr then
              (if length data = 32 then returnS (data @ replicate 32 0)
               else if length data \<noteq> 64 then failS (Msg ''data length must be 32 or 64 when using Schnorr'')
               else returnS data)
            else if length data \<noteq> 32 then failS (Msg ''data length must be 32'') else returnS data) (\<lambda>data.
     bindS (liftS (KeyPathFromString path)) (\<lambda>kp.
     let cmdData = data @ kpData kp;
         p1 = kpSource kp OR P1SignDerive
     in call_parse P env InsSign p1 algo cmdData (ParseSignature P data)))"

definition SignWithPath ::
  "('sk, 'pk) prims \<Rightarrow> ('w, 'sk) env \<Rightarrow> bytes \<Rightarrow> string \<Rightarrow> (('sk, 'pk) command_set \<times> 'w, Signature) st" where
  "SignWithPath P env data path = SignWithPathAndAlgo P env data path P2SignECDSA"

definition SignBIP341Schnorr ::
  "('sk, 'pk) prims \<Rightarrow> ('w, 'sk) env \<Rightarrow> bytes \<Rightarrow> bytes \<Rightarrow> string \<Rightarrow> (('sk, 'pk) command_set \<times> 'w, Signature) st" where
  "SignBIP341Schnorr P env hash tweak path =
     (if length hash \<noteq> 32 then failS (Msg ''hash length must be 32'')
      else if length tweak \<noteq> 32 then failS (Msg ''tweak length must be 32'')
      else SignWithPathAndAlgo P env (hash @ tweak) path P2SignBIP340Schnorr)"

definition SignPinless :: "('sk, 'pk) prims \<Rightarrow> ('w, 'sk) env \<Rightarrow> bytes \<Rightarrow> (('sk, 'pk) command_set \<times> 'w, Signature) st" where
  "SignPinless P env data =
     (if length data \<noteq> 32 then failS (Msg ''data length must be 32'')
      else bindS (send_plain env (NewCommand ClaGp InsSign P1SignPinless P2SignECDSA data)) (\<lambda>resp.
           liftS (ParseSignature P data (RData resp))))"

section \<open>Data\<close>

definition CS_GetData :: "('sk, 'pk) prims \<Rightarrow> ('w, 'sk) env \<Rightarrow> byte \<Rightarrow> (('sk, 'pk) command_set \<times> 'w, bytes) st" where
  "CS_GetData P env typ = call_parse P env InsGetData typ 0 [] Inr"

definition CS_StoreData :: "('sk, 'pk) prims \<Rightarrow> ('w, 'sk) env \<Rightarrow> byte \<Rightarrow> bytes \<Rightarrow> (('sk, 'pk) command_set \<times> 'w, unit) st" where
  "CS_StoreData P env typ data = call_unit P env InsStoreData typ 0 data"

definition StoreDataWithOffset ::
  "('sk, 'pk) prims \<Rightarrow> ('w, 'sk) env \<Rightarrow> byte \<Rightarrow> bytes \<Rightarrow> u16 \<Rightarrow> (('sk, 'pk) command_set \<times> 'w, unit) st" where
  "StoreDataWithOffset P env typ data offset = call_unit P env InsStoreData typ (ucast (offset div 4)) data"

text \<open>The two-byte length that NDEF data carries: it is added unless it is there.\<close>

definition ndef_prefixed :: "bytes \<Rightarrow> bytes" where
  "ndef_prefixed ndef =
     (if 2 \<le> length ndef \<and> unat (ndef ! 0) * 256 + unat (ndef ! 1) = length ndef - 2 then ndef
      else [of_nat (length ndef div 256), of_nat (length ndef mod 256)] @ ndef)"

text \<open>The loop over the chunks, from offset \<open>off\<close>.\<close>

function store_chunks ::
  "(bytes \<Rightarrow> u16 \<Rightarrow> ('s, unit) st) \<Rightarrow> bytes \<Rightarrow> nat \<Rightarrow> 's \<Rightarrow> unit res \<times> 's" where
  "store_chunks store data off s =
     (if length data \<le> off then (Inr (), s)
      else
        let chunkSize = min NDEFMaxChunkSize (length data - off)
        in case store (gslice off (off + chunkSize) data) (of_nat off) s of
             (Inl e, s') \<Rightarrow> (Inl e, s')
           | (Inr _, s') \<Rightarrow> store_chunks store data (off + chunkSize) s')"
  by pat_completeness auto
termination
  by (relation "measure (\<lambda>(st, data, off, s). length data - off)") auto

declare store_chunks.simps [simp del]

definition SetNDEF :: "('sk, 'pk) prims \<Rightarrow> ('w, 'sk) env \<Rightarrow> bytes \<Rightarrow> (('sk, 'pk) command_set \<times> 'w, unit) st" where
  "SetNDEF P env ndef = getS (\<lambda>cs.
     let appMajor = (case applicationInfo cs of None \<Rightarrow> 0 | Some info \<Rightarrow> (ucast (drop_bit 8 (AppVersion info)) :: byte)) in
     if 2 < appMajor
     then store_chunks (\<lambda>chunk off. StoreDataWithOffset P env P1StoreDataNDEF chunk off) (ndef_prefixed ndef) 0
     else call_unit P env InsSetNDEF 0 0 ndef)"

definition GetChallenge :: "('sk, 'pk) prims \<Rightarrow> ('w, 'sk) env \<Rightarrow> byte \<Rightarrow> (('sk, 'pk) command_set \<times> 'w, bytes) st" where
  "GetChallenge P env len = call_parse P env InsGetChallenge len 0 [] Inr"

definition FactoryReset :: "('w, 'sk) env \<Rightarrow> (('sk, 'pk) command_set \<times> 'w, unit) st" where
  "FactoryReset env = ignore (send_plain env NewCommandFactoryReset)"

section \<open>Accessors\<close>

definition CS_SecureChannelVersion :: "('sk, 'pk) command_set \<Rightarrow> SecureChannelVersion \<times> bool" where
  "CS_SecureChannelVersion cs =
     (case applicationInfo cs of
        None \<Rightarrow> (VersionV1, False)
      | Some info \<Rightarrow> if \<not> HasSecureChannelCapability info then (VersionV1, False) else (sc_Version (sc cs), True))"

definition CS_Pairing :: "('sk, 'pk) command_set \<Rightarrow> Pairing option" where
  "CS_Pairing cs = sc_Pairing (sc cs)"

definition CS_SetPairing :: "Pairing option \<Rightarrow> ('sk, 'pk) command_set \<Rightarrow> ('sk, 'pk) command_set" where
  "CS_SetPairing p cs = cs\<lparr>sc := sc_SetPairing p (sc cs)\<rparr>"

end
