(* ===== verification/Command_Set_Runs.thy ===== *)
theory Command_Set_Runs
  imports Command_Set
begin

text \<open>
  Sequences of calls of a command set. An invariant of the secure channel that the channel's
  methods keep is kept by every call; the interpretations give it for the well-formedness of the
  channel, for an established version-1 channel and for the version in use.
\<close>

section \<open>Calls\<close>

text \<open>The operations of \<open>command_set.go\<close> other than \<open>Select\<close>, which replaces the channel.\<close>

inductive api_call ::
  "('sk, 'pk) prims \<Rightarrow> ('w, 'sk) env \<Rightarrow> (('sk, 'pk) command_set \<times> 'w, unit) st \<Rightarrow> bool"
  for P :: "('sk, 'pk) prims" and env :: "('w, 'sk) env" where
  "api_call P env (CS_Init P env secrets)"
| "api_call P env (InitWithSecret P env pinB pukB secret)"
| "api_call P env (InitV2 P env pinB pukB)"
| "api_call P env (InitWithOptionsV2 P env pinB alt pukB pr kr)"
| "api_call P env (InitWithOptions P env pinB alt pukB pass pr kr)"
| "api_call P env (CS_Pair P env pass)"
| "api_call P env (AutoPairWithMode P env pass mode)"
| "api_call P env (AutoPairWithSecret P env secret)"
| "api_call P env (AutoPairWithSecretAndMode P env secret mode)"
| "api_call P env (CS_Unpair P env index)"
| "api_call P env (CS_UnpairOthers P env)"
| "api_call P env (ignore (Identify P env))"
| "api_call P env (CS_OpenSecureChannel P env)"
| "api_call P env (AutoOpenSecureChannel P env)"
| "api_call P env (ignore (CS_GetStatus P env info))"
| "api_call P env (VerifyPIN P env pinB)"
| "api_call P env (ChangePIN P env pinB)"
| "api_call P env (UnblockPIN P env pukB pinB)"
| "api_call P env (ChangePUK P env pukB)"
| "api_call P env (ChangePairingSecret P env pass)"
| "api_call P env (ChangePairingPassword P env pass)"
| "api_call P env (ignore (GenerateKey P env))"
| "api_call P env (ignore (GenerateMnemonic P env n))"
| "api_call P env (RemoveKey P env)"
| "api_call P env (DeriveKey P env path)"
| "api_call P env (ignore (LoadSeed P env seed))"
| "api_call P env (LoadKeyBIP32 P env kp)"
| "api_call P env (LoadKeyBIP32OmitPublic P env kp)"
| "api_call P env (LoadLEEKey P env seed)"
| "api_call P env (ignore (ExportKey P env derive current only path))"
| "api_call P env (ignore (ExportKeyExtended P env derive current p2 path))"
| "api_call P env (ignore (ExportCurrentKey P env only))"
| "api_call P env (ignore (ExportLEEKey P env path))"
| "api_call P env (ignore (ExportLEEKeyParsed P env path))"
| "api_call P env (ignore (ECDH P env peer path))"
| "api_call P env (ignore (ECDHRaw P env peer raw))"
| "api_call P env (ignore (ExportBIP85 P env path len))"
| "api_call P env (SetPinlessPath P env path)"
| "api_call P env (ResetPinlessPath P env)"
| "api_call P env (ignore (Sign P env data))"
| "api_call P env (ignore (SignWithPathAndAlgo P env data path algo))"
| "api_call P env (ignore (SignBIP341Schnorr P env hash tweak path))"
| "api_call P env (ignore (SignPinless P env data))"
| "api_call P env (ignore (CS_GetData P env typ))"
| "api_call P env (CS_StoreData P env typ data)"
| "api_call P env (StoreDataWithOffset P env typ data off)"
| "api_call P env (SetNDEF P env ndef)"
| "api_call P env (ignore (GetChallenge P env len))"
| "api_call P env (FactoryReset env)"
| "api_call P env (localS (modifyS (CS_SetPairing p)))"

definition cs_step ::
  "('sk, 'pk) prims \<Rightarrow> ('w, 'sk) env \<Rightarrow> ('sk, 'pk) command_set \<times> 'w \<Rightarrow> ('sk, 'pk) command_set \<times> 'w \<Rightarrow> bool" where
  "cs_step P env s s' \<longleftrightarrow> (\<exists>m. api_call P env m \<and> s' = snd (m s))"

section \<open>Invariants of the channel\<close>

text \<open>The channel satisfies \<open>Q\<close> and the trust anchors of the command set are \<open>k\<close>.\<close>

definition on_sc ::
  "(('sk, 'pk) channel \<Rightarrow> bool) \<Rightarrow> bytes list \<times> bytes list \<Rightarrow> ('sk, 'pk) command_set \<Rightarrow> bool" where
  "on_sc Q k cs \<longleftrightarrow> Q (sc cs) \<and> (csCaPublicKeys cs, csWhitelistedKeys cs) = k"

lemma on_sc_update [simp]: "on_sc Q k (cs\<lparr>sc := ch\<rparr>) \<longleftrightarrow> Q ch \<and> (csCaPublicKeys cs, csWhitelistedKeys cs) = k"
  by (simp add: on_sc_def)

lemma keepsL_with_sc: "keepsL Q m \<Longrightarrow> keepsL (on_sc Q k) (with_sc m)"
  by (auto simp: keepsL_def keeps_def with_sc_def on_sc_def split_def Let_def)

lemma keepsL_send_plain [keepsL_intros]: "keepsL Q (send_plain env cmd)"
  unfolding send_plain_def by (intro keepsL_intros)

lemma keepsL_getS_world: "keepsL Q (getS (\<lambda>c. worldS (f c)))"
  by (intro keepsL_intros)

lemma init_payload_keeps:
  "keepsL Q (on_version_env (V1_OneShotEncrypt P env secrets) (failS e))"
  "keepsL Q (on_version_env (encryptedInitPayload P env data) (failS e))"
  by (auto simp: keepsL_def keeps_def on_version_env_def V1_OneShotEncrypt_def encryptedInitPayload_def
      split_def Let_def split: channel.split)

lemma store_chunks_state:
  "(\<And>chunk o' s. Q s \<Longrightarrow> Q (snd (store chunk o' s))) \<Longrightarrow> Q s \<Longrightarrow> Q (snd (store_chunks store data off s))"
proof (induction store data off s rule: store_chunks.induct)
  case (1 store data off s)
  let ?n = "min NDEFMaxChunkSize (length data - off)"
  obtain r s' where st: "store (gslice off (off + ?n) data) (of_nat off) s = (r, s')"
    by (cases "store (gslice off (off + ?n) data) (of_nat off) s")
  have s': "Q s'" using "1.prems"(1) [OF "1.prems"(2), of "gslice off (off + ?n) data" "of_nat off"] st by simp
  show ?case
  proof (cases "length data \<le> off")
    case True
    then show ?thesis using "1.prems"(2) by (simp add: store_chunks.simps)
  next
    case False
    show ?thesis
    proof (cases r)
      case (Inl e)
      then show ?thesis using False st s' by (subst store_chunks.simps) (simp add: Let_def)
    next
      case (Inr u)
      have "Q (snd (store_chunks store data (off + ?n) s'))"
        by (rule "1.IH" [OF False refl st [symmetric] Inr "1.prems"(1) s'])
      then show ?thesis using False st Inr by (subst store_chunks.simps) (simp add: Let_def)
    qed
  qed
qed

lemma keepsL_store_chunks:
  assumes "\<And>chunk off. keepsL Q (store chunk off)"
  shows "keepsL Q (store_chunks store data off)"
proof -
  have "Q (fst s) \<Longrightarrow> Q (fst (snd (store chunk o' s)))" for chunk o' s
    using assms by (cases s) (simp add: keepsL_def keeps_def)
  then show ?thesis
    unfolding keepsL_def by (intro keepsI store_chunks_state [where Q = "\<lambda>s. Q (fst s)"])
qed

text \<open>What an invariant of the channel has to satisfy: the methods of the channel keep it, and the
  two writes of the command set itself, \<open>SetPairing\<close> and \<open>Init\<close> with derived keys.\<close>

locale channel_invariant =
  fixes P :: "('sk, 'pk) prims" and env :: "('w, 'sk) env" and Q :: "('sk, 'pk) channel \<Rightarrow> bool"
  assumes protect: "keeps Q (sc_ProtectedCommand P cla ins p1 p2 data)"
    and transmit: "keepsL Q (sc_Transmit P env cmd)"
    and auto_open: "keepsL Q (sc_AutoOpen P env)"
    and auto_pair: "keepsL Q (sc_AutoPair P env mode secret)"
    and unpair: "keepsL Q (sc_Unpair P env index)"
    and unpair_others: "keepsL Q (sc_UnpairOthers P env)"
    and set_pairing: "Q ch \<Longrightarrow> Q (sc_SetPairing p ch)"
    and init_keys: "Q (SC1 c) \<Longrightarrow> DeriveSessionKeys P secret key data = Inr (enc, mac, iv) \<Longrightarrow> Q (SC1 (V1_Init iv enc mac c))"
begin

lemma send_keeps: "keepsL (on_sc Q k) (sendProtected P env ins p1 p2 data)"
  unfolding sendProtected_def by (intro keepsL_with_sc keepsL_intros protect transmit)

lemma call_keeps:
  "keepsL (on_sc Q k) (call P env ins p1 p2 data)"
  "keepsL (on_sc Q k) (call_unit P env ins p1 p2 data)"
  "keepsL (on_sc Q k) (call_parse P env ins p1 p2 data f)"
  unfolding call_def call_unit_def call_parse_def by (intro keepsL_intros send_keeps)+

lemma retries_keeps: "keepsL (on_sc Q k) (\<lambda>s. let (r, s') = sendProtected P env ins p1 p2 data s in (f r, s'))"
  using send_keeps [where ins = ins and ?p1.0 = p1 and ?p2.0 = p2 and data = data] by (simp add: keepsL_def keeps_def split_def Let_def)

lemma init_keeps:
  "keepsL (on_sc Q k) (init_v1 env (V1_OneShotEncrypt P env secrets))"
  "keepsL (on_sc Q k) (init_v1 env (encryptedInitPayload P env data))"
  "keepsL (on_sc Q k) (init_v2 P env data)"
  unfolding init_v1_def init_v2_def
  by (intro keepsL_intros keepsL_with_sc init_payload_keeps auto_open call_keeps)+

lemma channel_case_keeps:
  "(\<And>c. keepsL R (f c)) \<Longrightarrow> (\<And>c. keepsL R (g c)) \<Longrightarrow> keepsL R (case ch of SC1 c \<Rightarrow> f c | SC2 c \<Rightarrow> g c)"
  by (simp split: channel.split)

lemma init_secret_keeps: "keepsL (on_sc Q k) (CS_initWithSecret P env a b c d e f)"
  unfolding CS_initWithSecret_def by (intro keepsL_intros channel_case_keeps init_keeps)

lemma inits_keep:
  "keepsL (on_sc Q k) (CS_Init P env secrets)"
  "keepsL (on_sc Q k) (InitWithSecret P env pinB pukB secret)"
  "keepsL (on_sc Q k) (InitV2 P env pinB pukB)"
  "keepsL (on_sc Q k) (InitWithOptionsV2 P env pinB alt pukB pr kr)"
  "keepsL (on_sc Q k) (InitWithOptions P env pinB alt pukB pass pr kr)"
  unfolding CS_Init_def InitWithSecret_def InitV2_def InitWithOptionsV2_def InitWithOptions_def
  by (intro keepsL_intros channel_case_keeps init_keeps init_secret_keeps)+

lemma pairing_keeps: "keepsL (on_sc Q k) (localS (modifyS (\<lambda>cs. cs\<lparr>sc := sc_SetPairing p (sc cs)\<rparr>)))"
  by (intro keepsL_local keeps_modify) (simp add: on_sc_def set_pairing)

lemma pairings_keep:
  "keepsL (on_sc Q k) (CS_Pair P env pass)"
  "keepsL (on_sc Q k) (AutoPairWithMode P env pass mode)"
  "keepsL (on_sc Q k) (AutoPairWithSecret P env secret)"
  "keepsL (on_sc Q k) (AutoPairWithSecretAndMode P env secret mode)"
  "keepsL (on_sc Q k) (CS_Unpair P env index)"
  "keepsL (on_sc Q k) (CS_UnpairOthers P env)"
  "keepsL (on_sc Q k) (localS (modifyS (CS_SetPairing p)))"
  unfolding CS_Pair_def AutoPairWithMode_def AutoPairWithSecret_def AutoPairWithSecretAndMode_def CS_Unpair_def
    CS_UnpairOthers_def CS_SetPairing_def
  by (intro keepsL_intros pairing_keeps keepsL_with_sc auto_pair unpair unpair_others)+

lemma open_keeps: "keepsL (on_sc Q k) (CS_OpenSecureChannel P env)"
proof -
  have auth: "on_sc Q k (fst (snd (mutualAuthenticate P env s)))" if "on_sc Q k (fst s)" for s
    using keepsLD [OF call_keeps(2), where s = s] that unfolding mutualAuthenticate_def by blast
  have "on_sc Q k (fst (snd (CS_OpenSecureChannel P env (cs, w))))" if q: "on_sc Q k cs" for cs w
  proof (cases "sc cs")
    case (SC1 c)
    show ?thesis
    proof (cases "applicationInfo cs = None \<or> pairing1 c = None")
      case True
      then show ?thesis using SC1 q by (auto simp: CS_OpenSecureChannel_def split: option.split)
    next
      case False
      then obtain info p where some: "applicationInfo cs = Some info" "pairing1 c = Some p" by auto
      obtain r w1 where r: "send_plain env (NewCommandOpenSecureChannel (pairingIndex p) (RawPublicKey P c)) (cs, w) = (r, cs, w1)"
        unfolding send_plain_def checked_def by (simp add: split_def Let_def)
      show ?thesis
      proof (cases r)
        case (Inl e)
        then show ?thesis using SC1 some r q by (simp add: CS_OpenSecureChannel_def bindS_def)
      next
        case (Inr resp)
        let ?keys = "DeriveSessionKeys P (opt_bytes (secret1 c)) (pairingKey p) (RData resp)"
        show ?thesis
        proof (cases ?keys)
          case (Inl e)
          then show ?thesis using SC1 some r Inr q by (simp add: CS_OpenSecureChannel_def bindS_def)
        next
          case keys: (Inr ks)
          obtain enc mac iv where k: "ks = (enc, mac, iv)" by (cases ks)
          have "Q (SC1 (V1_Init iv enc mac c))" using init_keys q SC1 keys k unfolding on_sc_def by metis
          then have "on_sc Q k (cs\<lparr>sc := SC1 (V1_Init iv enc mac c)\<rparr>)" using q by (simp add: on_sc_def)
          then show ?thesis using SC1 some r Inr keys k by (simp add: CS_OpenSecureChannel_def bindS_def auth)
        qed
      qed
    qed
  qed (use q in \<open>simp add: CS_OpenSecureChannel_def\<close>)
  then show ?thesis by (simp add: keepsL_def keeps_def)
qed

lemma others_keep:
  "keepsL (on_sc Q k) (AutoOpenSecureChannel P env)"
  "keepsL (on_sc Q k) (VerifyPIN P env pinB)" "keepsL (on_sc Q k) (UnblockPIN P env pukB pinB)"
  "keepsL (on_sc Q k) (ignore (GenerateMnemonic P env n))"
  "keepsL (on_sc Q k) (SetNDEF P env ndef)"
  unfolding AutoOpenSecureChannel_def VerifyPIN_def UnblockPIN_def GenerateMnemonic_def SetNDEF_def StoreDataWithOffset_def
  by (intro keepsL_intros keepsL_with_sc auto_open call_keeps retries_keeps keepsL_store_chunks)+

lemmas command_keeps = inits_keep pairings_keep open_keeps others_keep

theorem api_call_keeps:
  assumes "api_call P env m"
  shows "keepsL (on_sc Q k) m"
  using assms
proof cases
qed (simp_all only: command_keeps,
  unfold Identify_def CS_GetStatus_def ChangePIN_def ChangePUK_def ChangePairingSecret_def ChangePairingPassword_def
    GenerateKey_def RemoveKey_def DeriveKey_def LoadSeed_def LoadKeyBIP32_def LoadKeyBIP32OmitPublic_def
    loadKeyBIP32Inner_def LoadLEEKey_def ExportKey_def ExportKeyExtended_def ExportKeyWithP2_def ExportCurrentKey_def
    ExportLEEKeyParsed_def ExportLEEKey_def ECDH_def ECDHRaw_def ExportBIP85_def SetPinlessPath_def ResetPinlessPath_def
    Sign_def SignWithPathAndAlgo_def SignBIP341Schnorr_def SignPinless_def CS_GetData_def CS_StoreData_def
    StoreDataWithOffset_def GetChallenge_def FactoryReset_def,
  (intro keepsL_intros call_keeps)+)

lemma step_keeps: "cs_step P env s s' \<Longrightarrow> on_sc Q k (fst s) \<Longrightarrow> on_sc Q k (fst s')"
  unfolding cs_step_def using keepsLD api_call_keeps by blast

lemma steps_keep: "(cs_step P env)\<^sup>*\<^sup>* s s' \<Longrightarrow> on_sc Q k (fst s) \<Longrightarrow> on_sc Q k (fst s')"
  by (induction rule: rtranclp_induct) (auto dest: step_keeps)

end

section \<open>Interpretations\<close>

text \<open>The channel is well formed, whatever its version.\<close>

definition sc_inv :: "('sk, 'pk) channel \<Rightarrow> bool" where
  "sc_inv ch = (case ch of SC1 c \<Rightarrow> v1_inv c | SC2 c \<Rightarrow> v2_inv c)"

text \<open>An established version-1 channel.\<close>

definition sc_est :: "('sk, 'pk) channel \<Rightarrow> bool" where
  "sc_est ch = (case ch of SC1 c \<Rightarrow> established1 c \<and> v1_inv c | SC2 c \<Rightarrow> False)"

lemma sc_inv_simps [simp]: "sc_inv (SC1 c1) = v1_inv c1" "sc_inv (SC2 c2) = v2_inv c2"
  by (simp_all add: sc_inv_def)

lemma sc_est_simps [simp]: "sc_est (SC1 c1) \<longleftrightarrow> established1 c1 \<and> v1_inv c1" "\<not> sc_est (SC2 c2)"
  by (simp_all add: sc_est_def)

lemma keepsL_on_version_env:
  assumes "keepsL Q1 m1" "keepsL Q2 m2"
  shows "keepsL (\<lambda>ch. case ch of SC1 c \<Rightarrow> Q1 c | SC2 c \<Rightarrow> Q2 c) (on_version_env m1 m2)"
  using keepsLD [OF assms(1), of "(_, _)"] keepsLD [OF assms(2), of "(_, _)"]
  by (auto simp: keepsL_def keeps_def split: channel.splits)

lemma keeps_on_version:
  assumes "keeps Q1 m1" "keeps Q2 m2"
  shows "keeps (\<lambda>ch. case ch of SC1 c \<Rightarrow> Q1 c | SC2 c \<Rightarrow> Q2 c) (on_version m1 m2)"
  using assms by (auto simp: keeps_def split: channel.split)

lemma keeps_conj: "keeps Q m \<Longrightarrow> keeps R m \<Longrightarrow> keeps (\<lambda>s. Q s \<and> R s) m"
  by (simp add: keeps_def)

lemma keepsL_conj: "keepsL Q m \<Longrightarrow> keepsL R m \<Longrightarrow> keepsL (\<lambda>s. Q s \<and> R s) m"
  by (simp add: keepsL_def keeps_def)

lemma keepsL_refuse: "keepsL Q V2_AutoPair" "keepsL Q V2_Unpair" "keepsL Q V2_UnpairOthers"
  unfolding V2_AutoPair_def V2_Unpair_def V2_UnpairOthers_def by (rule keepsL_basic)+

lemma keeps_False: "keeps (\<lambda>s. False) m" "keepsL (\<lambda>s. False) n"
  by (simp_all add: keepsL_def keeps_def)

lemmas channel_methods = sc_ProtectedCommand_def sc_Transmit_def sc_AutoOpen_def sc_AutoPair_def sc_Unpair_def
  sc_UnpairOthers_def

lemmas method_keeps = keeps_on_version keepsL_on_version_env keepsL_refuse v1_keeps v2_keeps

text \<open>The interpretations hold for sound primitives, so the invariants are under that condition.\<close>

definition prims_ok :: "('sk, 'pk) prims \<Rightarrow> bool" where
  "prims_ok P \<longleftrightarrow> aes_ok P \<and> hashes_ok P"

lemma keeps_imp: "(A \<Longrightarrow> keeps Q m) \<Longrightarrow> keeps (\<lambda>s. A \<longrightarrow> Q s) m"
  by (auto simp: keeps_def)

lemma keepsL_imp: "(A \<Longrightarrow> keepsL Q m) \<Longrightarrow> keepsL (\<lambda>s. A \<longrightarrow> Q s) m"
  by (auto simp: keepsL_def keeps_def)

lemma sc_inv_methods:
  fixes P :: "('sk, 'pk) prims" and env :: "('w, 'sk) env"
  assumes "prims_ok P"
  shows "keeps sc_inv (sc_ProtectedCommand P cla ins p1 p2 data)" "keepsL sc_inv (sc_Transmit P env cmd)"
    "keepsL sc_inv (sc_AutoOpen P env)" "keepsL sc_inv (sc_AutoPair P env mode secret)"
    "keepsL sc_inv (sc_Unpair P env index)" "keepsL sc_inv (sc_UnpairOthers P env)"
proof -
  have e: "sc_inv = (\<lambda>ch :: ('sk, 'pk) channel. case ch of SC1 c \<Rightarrow> v1_inv c | SC2 c \<Rightarrow> v2_inv c)"
    by (rule ext) (rule sc_inv_def)
  have ok: "aes_ok P" "hashes_ok P" using assms by (simp_all add: prims_ok_def)
  show "keeps sc_inv (sc_ProtectedCommand P cla ins p1 p2 data)" "keepsL sc_inv (sc_Transmit P env cmd)"
    "keepsL sc_inv (sc_AutoOpen P env)" "keepsL sc_inv (sc_AutoPair P env mode secret)"
    "keepsL sc_inv (sc_Unpair P env index)" "keepsL sc_inv (sc_UnpairOthers P env)"
    unfolding e channel_methods by (intro method_keeps ok)+
qed

lemma sc_est_methods:
  fixes P :: "('sk, 'pk) prims" and env :: "('w, 'sk) env"
  assumes "prims_ok P"
  shows "keeps sc_est (sc_ProtectedCommand P cla ins p1 p2 data)" "keepsL sc_est (sc_Transmit P env cmd)"
    "keepsL sc_est (sc_AutoOpen P env)" "keepsL sc_est (sc_AutoPair P env mode secret)"
    "keepsL sc_est (sc_Unpair P env index)" "keepsL sc_est (sc_UnpairOthers P env)"
proof -
  have e: "sc_est = (\<lambda>ch :: ('sk, 'pk) channel. case ch of SC1 c \<Rightarrow> established1 c \<and> v1_inv c | SC2 c \<Rightarrow> False)"
    by (rule ext) (rule sc_est_def)
  have ok: "aes_ok P" "hashes_ok P" using assms by (simp_all add: prims_ok_def)
  show "keeps sc_est (sc_ProtectedCommand P cla ins p1 p2 data)" "keepsL sc_est (sc_Transmit P env cmd)"
    "keepsL sc_est (sc_AutoOpen P env)" "keepsL sc_est (sc_AutoPair P env mode secret)"
    "keepsL sc_est (sc_Unpair P env index)" "keepsL sc_est (sc_UnpairOthers P env)"
    unfolding e channel_methods
    by (intro keeps_on_version keepsL_on_version_env keeps_conj keepsL_conj keeps_False v1_keeps est_keeps ok)+
qed

lemma sc_invariants_SetPairing:
  "sc_inv ch \<Longrightarrow> sc_inv (sc_SetPairing p ch)" "sc_est ch \<Longrightarrow> sc_est (sc_SetPairing p ch)"
  by (cases ch; simp add: sc_SetPairing_def V1_SetPairing_def v1_inv_def)+

lemma sc_invariants_Init:
  assumes "prims_ok P" "DeriveSessionKeys P secret key data = Inr (enc, mac, iv)"
  shows "sc_est (SC1 (V1_Init iv enc mac c))"
  using DeriveSessionKeys_lengths [OF _ assms(2)] assms(1) by (simp add: prims_ok_def v1_inv_def V1_Init_def)

interpretation wf: channel_invariant P env "\<lambda>ch. prims_ok P \<longrightarrow> sc_inv ch"
  for P :: "('sk, 'pk) prims" and env :: "('w, 'sk) env"
  by unfold_locales
    (auto intro!: keeps_imp keepsL_imp sc_inv_methods sc_invariants_SetPairing dest: sc_invariants_Init)

interpretation est: channel_invariant P env "\<lambda>ch. prims_ok P \<longrightarrow> sc_est ch"
  for P :: "('sk, 'pk) prims" and env :: "('w, 'sk) env"
  by unfold_locales
    (auto intro!: keeps_imp keepsL_imp sc_est_methods sc_invariants_SetPairing dest: sc_invariants_Init)

text \<open>The identity key of a version-2 channel is one that the trust anchors vouch for: it is
  whitelisted, or some certificate with that key recovers to a trusted CA key.\<close>

definition vouched :: "('sk, 'pk) prims \<Rightarrow> bytes list \<Rightarrow> bytes list \<Rightarrow> bytes \<Rightarrow> bool" where
  "vouched P cas cards ident \<longleftrightarrow> ident \<in> set cards \<or>
     (\<exists>certData cert. ParseCertificate P certData = Inr cert \<and> IdentPub cert = ident
       \<and> length (CAPublicKey cert) = 33 \<and> CAPublicKey cert \<in> set cas)"

definition sc_trusted :: "('sk, 'pk) prims \<Rightarrow> bytes list \<times> bytes list \<Rightarrow> ('sk, 'pk) channel \<Rightarrow> bool" where
  "sc_trusted P k ch =
     (case ch of SC1 c \<Rightarrow> True | SC2 c \<Rightarrow> \<forall>p. cardIdentPub c = Some p \<longrightarrow> vouched P (fst k) (snd k) p)"

lemma sc_trusted_simps [simp]:
  "sc_trusted P k (SC1 c1)"
  "sc_trusted P k (SC2 c2) \<longleftrightarrow> (\<forall>p. cardIdentPub c2 = Some p \<longrightarrow> vouched P (fst k) (snd k) p)"
  by (simp_all add: sc_trusted_def)

text \<open>No method of the version-2 channel changes the identity key.\<close>

lemma incrementNonce_ident [simp]: "cardIdentPub (incrementNonce c) = cardIdentPub c"
  by (simp add: incrementNonce_def Let_def split: prod.split)

lemma ident_kept:
  "keeps (\<lambda>c. I (cardIdentPub c)) (V2_ProtectedCommand P cla ins p1 p2 data)"
  "keeps (\<lambda>c. I (cardIdentPub c)) (V2_receive P r)"
  "keeps (\<lambda>c. I (cardIdentPub c)) (processHandshakeResponse P salt priv resp)"
  by (auto simp: keeps_def V2_ProtectedCommand_def V2_receive_def processHandshakeResponse_def zeroizeKeys_def
      Let_def split: sum.split)

lemma ident_kept_world:
  "keepsL (\<lambda>c. I (cardIdentPub c)) (V2_Transmit P env cmd)"
  "keepsL (\<lambda>c. I (cardIdentPub c)) (V2_AutoOpen P env)"
  unfolding V2_Transmit_def V2_AutoOpen_def
  by (intro keepsL_intros keeps_modify ident_kept; simp)+

lemma keeps_True: "keeps (\<lambda>s. True) m" "keepsL (\<lambda>s. True) n"
  by (simp_all add: keepsL_def keeps_def)

lemma sc_trusted_methods:
  fixes P :: "('sk, 'pk) prims" and env :: "('w, 'sk) env"
  shows "keeps (sc_trusted P k) (sc_ProtectedCommand P cla ins p1 p2 data)" "keepsL (sc_trusted P k) (sc_Transmit P env cmd)"
    "keepsL (sc_trusted P k) (sc_AutoOpen P env)" "keepsL (sc_trusted P k) (sc_AutoPair P env mode secret)"
    "keepsL (sc_trusted P k) (sc_Unpair P env index)" "keepsL (sc_trusted P k) (sc_UnpairOthers P env)"
proof -
  have e: "sc_trusted P k = (\<lambda>ch. case ch of SC1 c \<Rightarrow> True
      | SC2 c \<Rightarrow> (\<lambda>i. \<forall>p. i = Some p \<longrightarrow> vouched P (fst k) (snd k) p) (cardIdentPub c))"
    by (rule ext) (simp add: sc_trusted_def)
  show "keeps (sc_trusted P k) (sc_ProtectedCommand P cla ins p1 p2 data)" "keepsL (sc_trusted P k) (sc_Transmit P env cmd)"
    "keepsL (sc_trusted P k) (sc_AutoOpen P env)" "keepsL (sc_trusted P k) (sc_AutoPair P env mode secret)"
    "keepsL (sc_trusted P k) (sc_Unpair P env index)" "keepsL (sc_trusted P k) (sc_UnpairOthers P env)"
    unfolding e channel_methods
    by (intro keeps_on_version keepsL_on_version_env keeps_True keepsL_refuse ident_kept ident_kept_world)+
qed

interpretation trust: channel_invariant P env "sc_trusted P k"
  for P :: "('sk, 'pk) prims" and env :: "('w, 'sk) env" and k
  by unfold_locales (auto intro!: sc_trusted_methods simp: sc_SetPairing_def split: channel.split)

end
