(* ===== verification/Command_Set_Props.thy ===== *)
theory Command_Set_Props
  imports Command_Set_Runs
begin

text \<open>The properties of the command set: confidentiality over runs, selection and trust.\<close>

section \<open>Runs\<close>

lemma sendProtected_established:
  assumes "aes_ok P" "sc cs = SC1 c" "established1 c" "v1_inv c"
  shows "(\<exists>e cs'. sendProtected P env ins p1 p2 data (cs, w) = (Inl e, cs', w)) \<or>
    (\<exists>mac enc c1. open1 c \<and> EncryptData P data (opt_bytes (encKey1 c)) (iv1 c) = Inr enc
      \<and> CalculateMAC P (v1_meta ClaGp ins p1 p2 (length enc)) enc (opt_bytes (macKey1 c)) = Inr mac
      \<and> sendProtected P env ins p1 p2 data (cs, w)
          = with_sc (sc_Transmit P env (NewCommand ClaGp ins p1 p2 (mac @ enc))) (cs\<lparr>sc := SC1 c1\<rparr>, w))"
  using V1_established_exchange [OF assms(1,3,4), of ClaGp ins p1 p2 data]
proof (elim disjE exE conjE)
  fix e c' assume "V1_ProtectedCommand P ClaGp ins p1 p2 data c = (Inl e, c')"
  then show ?thesis
    by (simp add: sendProtected_def with_sc_def assms(2) sc_ProtectedCommand_def bindS_def)
next
  fix mac enc c1
  assume "V1_ProtectedCommand P ClaGp ins p1 p2 data c = (Inr (NewCommand ClaGp ins p1 p2 (mac @ enc)), c1)"
  then have "sendProtected P env ins p1 p2 data (cs, w)
      = with_sc (sc_Transmit P env (NewCommand ClaGp ins p1 p2 (mac @ enc))) (cs\<lparr>sc := SC1 c1\<rparr>, w)"
    by (simp add: sendProtected_def with_sc_def assms(2) sc_ProtectedCommand_def bindS_def split_def Let_def)
  moreover assume "open1 c" "EncryptData P data (opt_bytes (encKey1 c)) (iv1 c) = Inr enc"
    "CalculateMAC P (v1_meta ClaGp ins p1 p2 (length enc)) enc (opt_bytes (macKey1 c)) = Inr mac"
  ultimately show ?thesis by blast
qed

text \<open>C2. The command set never leaks a protected payload: from a command set whose version-1 channel
  is established on, after any sequence of its calls (initialisation, pairing, opening, PIN,
  key, signing and data commands; everything but a new \<open>Select\<close>), whatever the card answered,
  a protected command fails before anything is sent, or what it hands to the transport is the
  payload encrypted under the session key with the MAC of the encrypted command in front.\<close>

theorem CommandSet_never_plaintext:
  assumes "aes_ok P" "hashes_ok P" "(cs_step P env)\<^sup>*\<^sup>* (cs0, w0) (cs, w)"
    "sc cs0 = SC1 c0" "established1 c0" "v1_inv c0"
  shows "\<exists>c. sc cs = SC1 c \<and>
    ((\<exists>e cs'. sendProtected P env ins p1 p2 data (cs, w) = (Inl e, cs', w)) \<or>
     (\<exists>mac enc c1. open1 c \<and> EncryptData P data (opt_bytes (encKey1 c)) (iv1 c) = Inr enc
      \<and> CalculateMAC P (v1_meta ClaGp ins p1 p2 (length enc)) enc (opt_bytes (macKey1 c)) = Inr mac
      \<and> sendProtected P env ins p1 p2 data (cs, w)
          = with_sc (sc_Transmit P env (NewCommand ClaGp ins p1 p2 (mac @ enc))) (cs\<lparr>sc := SC1 c1\<rparr>, w)))"
proof -
  have "sc_est (sc cs)" using est.steps_keep [OF assms(3)] assms(1,2,4-6) by (simp add: prims_ok_def on_sc_def)
  then obtain c where c: "sc cs = SC1 c" "established1 c" "v1_inv c"
    by (cases "sc cs") simp_all
  show ?thesis by (intro exI [where x = c] conjI c(1) sendProtected_established [OF assms(1) c])
qed

definition toy_cs1 :: "(unit, unit) command_set" where
  "toy_cs1 = NewCommandSet\<lparr>sc := SC1 (V1_Init (replicate 16 1) (replicate 32 2) (replicate 32 3) NewSecureChannel)\<rparr>"

theorem CommandSet_never_plaintext_witness:
  "\<exists>cs c. VerifyPIN toy_prims toy_env [1, 2] (toy_cs1, ()) = (fst (VerifyPIN toy_prims toy_env [1, 2] (toy_cs1, ())), cs, ())
    \<and> sc cs = SC1 c"
proof -
  obtain r cs where v: "VerifyPIN toy_prims toy_env [1, 2] (toy_cs1, ()) = (r, cs, ())"
    by (cases "VerifyPIN toy_prims toy_env [1, 2] (toy_cs1, ())") auto
  have "(cs_step toy_prims toy_env)\<^sup>*\<^sup>* (toy_cs1, ()) (cs, ())"
    by (rule r_into_rtranclp) (auto simp: cs_step_def v intro!: exI [of _ "VerifyPIN toy_prims toy_env [1, 2]"] api_call.intros)
  from CommandSet_never_plaintext [OF toy_prims_ok(1) _ this,
        of "V1_Init (replicate 16 1) (replicate 32 2) (replicate 32 3) NewSecureChannel" 0 0 0 "[]"]
  have "\<exists>c. sc cs = SC1 c"
    using toy_prims_ok by (auto simp: toy_cs1_def v1_inv_def V1_Init_def)
  then show ?thesis using v by auto
qed

section \<open>Runs with selections\<close>

definition session_step ::
  "('sk, 'pk) prims \<Rightarrow> ('w, 'sk) env \<Rightarrow> ('sk, 'pk) command_set \<times> 'w \<Rightarrow> ('sk, 'pk) command_set \<times> 'w \<Rightarrow> bool" where
  "session_step P env s s' \<longleftrightarrow> cs_step P env s s' \<or> s' = snd (Select P env s)"

lemma NewSecureChannelV2_inv [simp]: "v2_inv (NewSecureChannelV2 cas cards)"
  by (simp add: NewSecureChannelV2_def v2_inv_def zero_nonce_def)

lemma SetCardCertificate_accepts:
  assumes "SetCardCertificate P d (NewSecureChannelV2 cas cards) = (Inr u, c)"
  shows "\<exists>cert. ParseCertificate P d = Inr cert
    \<and> c = (NewSecureChannelV2 cas cards)\<lparr>cardIdentPub := Some (IdentPub cert)\<rparr>
    \<and> (length (CAPublicKey cert) = 33 \<and> CAPublicKey cert \<in> set cas \<or> IdentPub cert \<in> set cards)"
  using assms
  by (auto simp: SetCardCertificate_def Let_def isCATrusted_def isCardWhitelisted_def list_ex_iff
      NewSecureChannelV2_def split: sum.splits if_splits)

text \<open>What installing a channel does: it fails and changes nothing, or installs a fresh one.\<close>

definition fresh_v2 :: "('sk, 'pk) prims \<Rightarrow> bytes list \<Rightarrow> bytes list \<Rightarrow> bytes \<Rightarrow> 'sk sc2 \<Rightarrow> bool" where
  "fresh_v2 P cas cards certData c \<longleftrightarrow>
     (if certData = [] then c = NewSecureChannelV2 cas cards
      else \<exists>cert. ParseCertificate P certData = Inr cert
        \<and> c = (NewSecureChannelV2 cas cards)\<lparr>cardIdentPub := Some (IdentPub cert)\<rparr>
        \<and> (length (CAPublicKey cert) = 33 \<and> CAPublicKey cert \<in> set cas \<or> IdentPub cert \<in> set cards))"

lemma install_v2_cases:
  assumes "install_v2 P info cs = (r, cs')"
  shows "case r of Inl e \<Rightarrow> cs' = cs
    | Inr _ \<Rightarrow> \<exists>c. cs' = cs\<lparr>sc := SC2 c\<rparr> \<and> fresh_v2 P (csCaPublicKeys cs) (csWhitelistedKeys cs) (CertData info) c"
  using assms
  by (auto simp: install_v2_def fresh_v2_def Let_def split: if_splits sum.splits prod.splits
      dest: SetCardCertificate_accepts)

definition fresh_v1 :: "('sk, 'pk) prims \<Rightarrow> bytes \<Rightarrow> 'pk sc1 \<Rightarrow> bool" where
  "fresh_v1 P cardKey c \<longleftrightarrow> (\<exists>key cardPub. ec_unmarshal P cardKey = Inr cardPub
     \<and> c = NewSecureChannel\<lparr>publicKey1 := Some (ec_public P key), secret1 := Some (GenerateECDHSharedSecret P key cardPub)\<rparr>)"

lemma install_v1_cases:
  assumes "install_v1 P env info (cs, w) = (r, cs', w')"
  shows "case r of Inl e \<Rightarrow> cs' = cs
    | Inr _ \<Rightarrow> \<exists>c. cs' = cs\<lparr>sc := SC1 c\<rparr> \<and> fresh_v1 P (SecureChannelPublicKey info) c"
  using assms
  by (auto simp: install_v1_def fresh_v1_def GenerateSecret_def returns_iff NewSecureChannel_def V1_Reset_def
      split: sum.splits prod.splits)

definition keycardAID :: bytes where
  "keycardAID = [0xA0, 0x00, 0x00, 0x08, 0x04, 0x00, 0x01, 0x01, 0x01]"

text \<open>The channel part of a selection, on the answer's application info.\<close>

definition install_channel ::
  "('sk, 'pk) prims \<Rightarrow> ('w, 'sk) env \<Rightarrow> ApplicationInfo \<Rightarrow> (('sk, 'pk) command_set \<times> 'w, unit) st" where
  "install_channel P env info =
     (if HasSecureChannelCapability info then
        (if isSecureChannelV2 info then localS (install_v2 P info) else install_v1 P env info)
      else returnS ())"

definition selected :: "('sk, 'pk) prims \<Rightarrow> ApplicationInfo \<Rightarrow> ('sk, 'pk) command_set \<Rightarrow> ('sk, 'pk) channel \<Rightarrow> bool" where
  "selected P info cs ch \<longleftrightarrow>
     (if \<not> HasSecureChannelCapability info then ch = sc cs
      else if AppVersion info \<ge> 0x0400
      then \<exists>c. ch = SC2 c \<and> fresh_v2 P (csCaPublicKeys cs) (csWhitelistedKeys cs) (CertData info) c
      else \<exists>c. ch = SC1 c \<and> fresh_v1 P (SecureChannelPublicKey info) c)"

lemma install_channel_cases:
  assumes "install_channel P env info (cs, w) = (r, cs', w')"
  shows "case r of Inl e \<Rightarrow> cs' = cs | Inr _ \<Rightarrow> \<exists>ch. cs' = cs\<lparr>sc := ch\<rparr> \<and> selected P info cs ch"
proof (cases "HasSecureChannelCapability info")
  case cap: True
  show ?thesis
  proof (cases "isSecureChannelV2 info")
    case True
    then have "install_v2 P info cs = (r, cs')" using assms cap by (simp add: install_channel_def prod_eq_iff)
    from install_v2_cases [OF this] show ?thesis
      using True cap by (auto simp: selected_def isSecureChannelV2_def split: sum.splits)
  next
    case False
    then have "install_v1 P env info (cs, w) = (r, cs', w')" using assms cap by (simp add: install_channel_def)
    from install_v1_cases [OF this] show ?thesis
      using False cap by (auto simp: selected_def isSecureChannelV2_def split: sum.splits)
  qed
next
  case False
  then have "r = Inr ()" "cs' = cs" using assms by (simp_all add: install_channel_def)
  then show ?thesis using False by (auto simp: selected_def intro: exI [where x = "sc cs"])
qed

lemma Select_eq:
  "Select P env = bindS (send_plain env (SetLe 0 (NewCommandSelect keycardAID))) (\<lambda>resp.
     bindS (liftS (ParseApplicationInfo (RData resp))) (\<lambda>info.
     bindS (localS (modifyS (\<lambda>cs. cs\<lparr>applicationInfo := Some info\<rparr>))) (\<lambda>_. install_channel P env info)))"
  by (simp add: Select_def selectWithIndex_def install_channel_def keycardAID_def bindS_def liftS_def)

lemma Select_cases:
  assumes "Select P env (cs, w) = (r, cs', w')"
  shows "case r of
      Inl e \<Rightarrow> \<exists>i. cs' = cs\<lparr>applicationInfo := i\<rparr>
    | Inr _ \<Rightarrow> \<exists>resp w1 info ch. env_send env (SetLe 0 (NewCommandSelect keycardAID)) w = (Inr resp, w1)
        \<and> Sw resp = SwOK \<and> ParseApplicationInfo (RData resp) = Inr info
        \<and> cs' = cs\<lparr>applicationInfo := Some info, sc := ch\<rparr> \<and> selected P info cs ch"
proof -
  have same: "\<exists>i. c = c\<lparr>applicationInfo := i\<rparr>" for c :: "('a, 'b) command_set"
    by (rule exI [where x = "applicationInfo c"]) simp
  obtain x w1 where send: "env_send env (SetLe 0 (NewCommandSelect keycardAID)) w = (x, w1)" by fastforce
  have sel: "selected P info (cs\<lparr>applicationInfo := Some info\<rparr>) ch = selected P info cs ch" for info ch
    by (simp add: selected_def)
  show ?thesis
  proof (cases "send_plain env (SetLe 0 (NewCommandSelect keycardAID)) (cs, w)")
    case Pair: (fields y cs1 w2)
    show ?thesis
    proof (cases y)
      case (Inl e)
      have "cs1 = cs" using Pair send by (simp add: send_plain_def checked_def split_def Let_def)
      then show ?thesis using assms Pair Inl by (auto simp: Select_eq intro: same)
    next
      case (Inr resp)
      then have ok: "x = Inr resp" "cs1 = cs" "w2 = w1" "Sw resp = SwOK"
        using Pair send by (auto simp: send_plain_def checked_Inr_iff)
      show ?thesis
      proof (cases "ParseApplicationInfo (RData resp)")
        case (Inl e)
        then show ?thesis using assms Pair Inr ok by (auto simp: Select_eq bindS_def intro: same)
      next
        case info: (Inr info)
        then have "install_channel P env info (cs\<lparr>applicationInfo := Some info\<rparr>, w1) = (r, cs', w')"
          using assms Pair Inr ok by (simp add: Select_eq bindS_def)
        from install_channel_cases [OF this] show ?thesis
          using ok send info unfolding sel by (auto split: sum.splits)
      qed
    qed
  qed
qed

text \<open>C17. Selection. If \<open>Select\<close> succeeds, the application info is the parsed answer of the card and
  the channel follows from it: none of the old one's state survives. With the secure-channel
  capability the new channel is closed and unpaired, of version 2 exactly for an application
  version of at least 4.0; a version-2 channel has the identity key of a certificate that the
  trust anchors accept, or none when the card sent no certificate. Without the capability the
  old channel stays. If it fails, the old channel and the trust anchors stay; the application
  info may by then be the new card's.\<close>

theorem Select_result:
  assumes "Select P env (cs, w) = (r, cs', w')"
  shows "case r of
      Inl e \<Rightarrow> \<exists>i. cs' = cs\<lparr>applicationInfo := i\<rparr>
    | Inr _ \<Rightarrow> \<exists>aid resp w1 info ch. id_KeycardInstanceAID 1 = Inr aid
        \<and> env_send env (SetLe 0 (NewCommandSelect aid)) w = (Inr resp, w1)
        \<and> Sw resp = SwOK \<and> ParseApplicationInfo (RData resp) = Inr info
        \<and> cs' = cs\<lparr>applicationInfo := Some info, sc := ch\<rparr>
        \<and> (if \<not> HasSecureChannelCapability info then ch = sc cs
           else if AppVersion info \<ge> 0x0400
           then \<exists>c. ch = SC2 c \<and> fresh_v2 P (csCaPublicKeys cs) (csWhitelistedKeys cs) (CertData info) c
           else \<exists>c. ch = SC1 c \<and> fresh_v1 P (SecureChannelPublicKey info) c)"
proof (cases r)
  case (Inl e)
  then show ?thesis using Select_cases [OF assms] by simp
next
  case (Inr u)
  then obtain resp w1 info ch where "env_send env (SetLe 0 (NewCommandSelect keycardAID)) w = (Inr resp, w1)"
      "Sw resp = SwOK" "ParseApplicationInfo (RData resp) = Inr info"
      "cs' = cs\<lparr>applicationInfo := Some info, sc := ch\<rparr>" "selected P info cs ch"
    using Select_cases [OF assms] by auto
  moreover have "id_KeycardInstanceAID 1 = Inr keycardAID" by (simp add: keycardAID_def)
  ultimately show ?thesis unfolding Inr sum.case selected_def by blast
qed

section \<open>Trust over all runs\<close>

lemma fresh_v2_trusted:
  assumes "fresh_v2 P cas cards d c"
  shows "v2_inv c" "sc_trusted P (cas, cards) (SC2 c)"
  using assms by (auto simp: fresh_v2_def vouched_def v2_inv_def NewSecureChannelV2_def zero_nonce_def split: if_splits)

lemma Select_keeps:
  assumes "on_sc (sc_trusted P k) k cs" "sc_inv (sc cs)" "Select P env (cs, w) = (r, cs', w')"
  shows "on_sc (sc_trusted P k) k cs' \<and> sc_inv (sc cs')"
proof -
  have new: "sc_trusted P k ch \<and> sc_inv ch" if "selected P info cs ch" for info ch
    using that assms(1,2) fresh_v2_trusted [of P "fst k" "snd k"]
    by (auto simp: selected_def on_sc_def fresh_v1_def NewSecureChannel_def split: if_splits)
  show ?thesis using Select_cases [OF assms(3)] assms(1,2) by (auto simp: on_sc_def dest: new split: sum.splits)
qed

lemma session_reach:
  assumes "prims_ok P" "(session_step P env)\<^sup>*\<^sup>* (NewCommandSetWithCAs cas cards, w0) (cs, w)"
  shows "on_sc (sc_trusted P (cas, cards)) (cas, cards) cs \<and> sc_inv (sc cs)"
proof -
  let ?k = "(cas, cards)"
  have "on_sc (sc_trusted P ?k) ?k (fst s) \<and> sc_inv (sc (fst s))"
    if "(session_step P env)\<^sup>*\<^sup>* (NewCommandSetWithCAs cas cards, w0) s" for s
    using that
  proof (induction rule: rtranclp_induct)
    case base
    show ?case by (simp add: NewCommandSetWithCAs_def on_sc_def NewSecureChannelV2_def v2_inv_def zero_nonce_def)
  next
    case (step y z)
    from step.hyps(2) show ?case unfolding session_step_def
    proof
      assume s: "cs_step P env y z"
      have "on_sc sc_inv ?k (fst z)"
        using wf.step_keeps [OF s, of ?k] step.IH assms(1) by (simp add: on_sc_def)
      then show ?case using trust.step_keeps [OF s, of ?k ?k] step.IH by (simp add: on_sc_def)
    next
      assume z: "z = snd (Select P env y)"
      obtain cs1 w1 where y: "y = (cs1, w1)" by (cases y)
      obtain r cs2 w2 where sel: "Select P env (cs1, w1) = (r, cs2, w2)" by (cases "Select P env (cs1, w1)")
      have "on_sc (sc_trusted P ?k) ?k cs1" "sc_inv (sc cs1)" using step.IH y by simp_all
      from Select_keeps [OF this sel] show ?case using y z sel by simp
    qed
  qed
  from this [OF assms(2)] show ?thesis by simp
qed

text \<open>C10. From a new command set on, \<open>Select\<close> and every other call keep the secure channel well
  formed, whichever version the card selects and whatever it answers: an open version-1 channel
  has two 32-byte session keys and a 16-byte IV, a version-2 channel a 13-byte nonce and, when
  open, two 16-byte keys; and the identity key of a version-2 channel is always one that the
  configured trust anchors vouch for.\<close>

theorem CommandSet_invariant:
  assumes "aes_ok P" "hashes_ok P" "(session_step P env)\<^sup>*\<^sup>* (NewCommandSetWithCAs cas cards, w0) (cs, w)"
  shows "csCaPublicKeys cs = cas \<and> csWhitelistedKeys cs = cards \<and>
    (case sc cs of
       SC1 c \<Rightarrow> v1_inv c
     | SC2 c \<Rightarrow> v2_inv c \<and> (case cardIdentPub c of None \<Rightarrow> True | Some ident \<Rightarrow> vouched P cas cards ident))"
  using session_reach [of P, OF _ assms(3)] assms(1,2)
  by (auto simp: prims_ok_def on_sc_def split: channel.split option.split)

theorem CommandSet_invariant_witness:
  "\<exists>cs. snd (FactoryReset toy_env (NewCommandSet :: (unit, unit) command_set, ())) = (cs, ())
    \<and> csCaPublicKeys cs = [DefaultCAPublicKey]"
proof -
  obtain cs where r: "snd (FactoryReset toy_env (NewCommandSet :: (unit, unit) command_set, ())) = (cs, ())"
    by (cases "snd (FactoryReset toy_env (NewCommandSet :: (unit, unit) command_set, ()))") auto
  have n: "(NewCommandSet :: (unit, unit) command_set) = NewCommandSetWithCAs [DefaultCAPublicKey] []"
    by (simp add: NewCommandSet_def NewCommandSetWithCA_def)
  have "(session_step toy_prims toy_env)\<^sup>*\<^sup>* (NewCommandSetWithCAs [DefaultCAPublicKey] [], ()) (cs, ())"
    using r by (intro r_into_rtranclp) (auto simp: session_step_def cs_step_def n [symmetric] intro!: exI [of _ "FactoryReset toy_env"] api_call.intros)
  from CommandSet_invariant [OF toy_prims_ok this] show ?thesis using r by simp
qed

text \<open>C1. A version-2 card is authenticated to the trust anchors: in any state that calls and
  selections reach from a new command set, \<open>AutoOpenSecureChannel\<close> succeeds on a version-2
  channel only if the answer to the fresh salt and ephemeral key carries a signature, over both
  ephemeral keys, that recovers to an identity key which is whitelisted or stands in a
  certificate of a trusted CA; the channel is then open under keys derived from that exchange.\<close>

theorem CommandSet_opens_trusted:
  assumes "aes_ok P" "hashes_ok P" "(session_step P env)\<^sup>*\<^sup>* (NewCommandSetWithCAs cas cards, w0) (cs, w)"
    and "sc cs = SC2 c" "AutoOpenSecureChannel P env (cs, w) = (Inr u, cs', w')"
  shows "\<exists>ident identPub salt priv resp cardPub r s v okm c'.
    vouched P cas cards ident \<and> ec_decompress P ident = Inr identPub
    \<and> handshake P env salt priv resp w w' \<and> ec_unmarshal P (take 65 (RData resp)) = Inr cardPub
    \<and> parseDERSignature (drop 65 (RData resp)) = Inr (r, s) \<and> v \<le> 3
    \<and> ecrecover P (sha256 P (scV2ProtocolLabel @ salt @ ec_marshal P (ec_public P priv) @ ec_marshal P cardPub))
        (r @ s @ [of_nat v]) = Inr (ec_marshal P identPub)
    \<and> hkdfDerive P scV2ProtocolLabel salt (GenerateECDHSharedSecret P priv cardPub) = Inr okm
    \<and> sc cs' = SC2 c' \<and> open2 c' \<and> keyH2C c' = Some (gcopy 16 (take 16 okm)) \<and> keyC2H c' = Some (gcopy 16 (drop 16 okm))"
proof -
  have tr: "cardIdentPub c = Some ident \<Longrightarrow> vouched P cas cards ident" for ident
    using session_reach [of P, OF _ assms(3)] assms(1,2,4) by (simp add: prims_ok_def on_sc_def)
  obtain c' where a: "V2_AutoOpen P env (c, w) = (Inr u, c', w')" and c': "cs' = cs\<lparr>sc := SC2 c'\<rparr>"
    using assms(4,5) by (auto simp: AutoOpenSecureChannel_def with_sc_def sc_AutoOpen_def split_def Let_def prod_eq_iff)
  have "sc cs' = SC2 c'" using c' by simp
  with V2_AutoOpen_Inr [OF a] tr show ?thesis by (elim conjE exE) (intro exI conjI; assumption)
qed

text \<open>A version-2 card: it answers SELECT with a certificate and everything else with a handshake.\<close>

definition toy_cert :: bytes where "toy_cert = replicate 97 2 @ [0]"

definition toy_info :: bytes where
  "toy_info = [0xA4, 0x81, 111, 0x02, 2, 4, 0, 0x8E, 1, 7, 0x8D, 1, 0x1F, 0x8A, 98] @ toy_cert"

definition toy_card :: "(unit, unit) env" where
  "toy_card = toy_env\<lparr>env_send := (\<lambda>cmd. returnS \<lparr>RData = (if Ins cmd = 0xA4 then toy_info else toy_open_answer),
     Sw1 = 0x90, Sw2 = 0, Sw = 0x9000\<rparr>)\<rparr>"

lemma toy_info_parses:
  "\<exists>i. ParseApplicationInfo toy_info = Inr i \<and> HasSecureChannelCapability i \<and> isSecureChannelV2 i \<and> CertData i = toy_cert"
proof -
  have "case ParseApplicationInfo toy_info of Inl e \<Rightarrow> False
    | Inr i \<Rightarrow> HasSecureChannelCapability i \<and> isSecureChannelV2 i \<and> CertData i = toy_cert" by code_simp
  then show ?thesis by (simp split: sum.splits)
qed

lemma toy_cert_parses: "\<exists>cert. ParseCertificate toy_prims toy_cert = Inr cert \<and> IdentPub cert = replicate 33 2"
proof -
  have "case ParseCertificate toy_prims toy_cert of Inl e \<Rightarrow> False | Inr cert \<Rightarrow> IdentPub cert = replicate 33 2" by code_simp
  then show ?thesis by (simp split: sum.splits)
qed

lemma toy_select:
  "\<exists>cs c. Select toy_prims toy_card (NewCommandSetWithCAs [] [replicate 33 2], ()) = (Inr (), cs, ())
     \<and> sc cs = SC2 c \<and> cardIdentPub c = Some (replicate 33 2)"
proof -
  obtain i where i: "ParseApplicationInfo toy_info = Inr i" "HasSecureChannelCapability i" "isSecureChannelV2 i" "CertData i = toy_cert"
    using toy_info_parses by blast
  obtain cert where c: "ParseCertificate toy_prims toy_cert = Inr cert" "IdentPub cert = replicate 33 2"
    using toy_cert_parses by blast
  have ne: "0 < length toy_cert" by (simp add: toy_cert_def)
  have set: "SetCardCertificate toy_prims toy_cert (NewSecureChannelV2 cas [replicate 33 2])
      = (Inr (), (NewSecureChannelV2 cas [replicate 33 2])\<lparr>cardIdentPub := Some (replicate 33 2)\<rparr>)" for cas
    by (simp add: SetCardCertificate_def c Let_def isCardWhitelisted_def NewSecureChannelV2_def)
  show ?thesis
    by (simp add: Select_eq send_plain_def checked_def toy_card_def SetLe_def NewCommandSelect_def NewCommand_def
        bindS_def CheckOK_def i install_channel_def install_v2_def NewCommandSetWithCAs_def ne [simplified] set Let_def)
qed

lemma toy_open: "sc cs = SC2 c \<Longrightarrow> cardIdentPub c = Some (replicate 33 2) \<Longrightarrow> \<exists>cs'. AutoOpenSecureChannel toy_prims toy_card (cs, ()) = (Inr (), cs', ())"
proof -
  assume a: "sc cs = SC2 c" "cardIdentPub c = Some (replicate 33 2)"
  have "cardIdentPub (c\<lparr>open2 := False, clientEphPrivKey := Some ()\<rparr>) = Some (replicate 33 2)" using a by simp
  from toy_handshake [OF this, of "replicate 32 0"] 
  show ?thesis using a
    by (auto simp: AutoOpenSecureChannel_def with_sc_def sc_AutoOpen_def V2_AutoOpen_def toy_card_def toy_env_def
        NewCommand_def Let_def bindS_def)
qed
theorem Select_result_witness:
  "\<exists>cs c. Select toy_prims toy_card (NewCommandSetWithCAs [] [replicate 33 2], ()) = (Inr (), cs, ())
     \<and> sc cs = SC2 c \<and> applicationInfo cs \<noteq> None"
proof -
  obtain cs c where sel: "Select toy_prims toy_card (NewCommandSetWithCAs [] [replicate 33 2], ()) = (Inr (), cs, ())"
    "sc cs = SC2 c" using toy_select by blast
  show ?thesis using Select_result [OF sel(1)] sel by auto
qed

theorem CommandSet_opens_trusted_witness:
  "\<exists>cs u cs' cs''. Select toy_prims toy_card (NewCommandSetWithCAs [] [replicate 33 2], ()) = (Inr u, cs, ())
     \<and> AutoOpenSecureChannel toy_prims toy_card (cs, ()) = (Inr u, cs', ())
     \<and> (\<exists>ident c'. vouched toy_prims [] [replicate 33 2] ident \<and> sc cs' = SC2 c' \<and> open2 c')"
proof -
  obtain cs c where sel: "Select toy_prims toy_card (NewCommandSetWithCAs [] [replicate 33 2], ()) = (Inr (), cs, ())"
    "sc cs = SC2 c" "cardIdentPub c = Some (replicate 33 2)" using toy_select by blast
  obtain cs' where op: "AutoOpenSecureChannel toy_prims toy_card (cs, ()) = (Inr (), cs', ())"
    using toy_open [OF sel(2,3)] by blast
  have "(session_step toy_prims toy_card)\<^sup>*\<^sup>* (NewCommandSetWithCAs [] [replicate 33 2], ()) (cs, ())"
    by (intro r_into_rtranclp) (simp add: session_step_def sel)
  from CommandSet_opens_trusted [OF toy_prims_ok this sel(2) op] show ?thesis using sel(1) op by blast
qed

section \<open>Failures\<close>

text \<open>An answer that authenticates under the channel it was sent for and decrypts to less than a status
  word: for version 1 the 16-byte MAC is that of the ciphertext, for version 2 the CCM tag is right.\<close>

definition short_answer :: "('sk, 'pk) prims \<Rightarrow> ('sk, 'pk) channel \<Rightarrow> response \<Rightarrow> bool" where
  "short_answer P ch resp = (case ch of
     SC1 c \<Rightarrow> 16 \<le> length (RData resp)
       \<and> CalculateMAC P (v1_rmeta (length (RData resp))) (drop 16 (RData resp)) (opt_bytes (macKey1 c)) = Inr (take 16 (RData resp))
       \<and> (case DecryptData P (drop 16 (RData resp)) (opt_bytes (encKey1 c)) (iv1 c) of
            Inl _ \<Rightarrow> False | Inr plain \<Rightarrow> length plain < 2)
   | SC2 c \<Rightarrow> Sw resp = SwOK \<and> (case keyC2H c of None \<Rightarrow> False | Some key \<Rightarrow>
        (case AESCCMDecrypt P key (nonceCounter c) (RData resp) of Inl _ \<Rightarrow> False | Inr plain \<Rightarrow> length plain < 2)))"

lemma ParseResponse_Inl: "ParseResponse d = Inl e \<longleftrightarrow> length d < 2 \<and> e = BadRawResponse"
  by (auto simp: ParseResponse_def Let_def)

lemma V1_receive_Inl:
  assumes "V1_receive P r c = (Inl e, c')" "open1 c'"
  shows "e = BadRawResponse \<and> (\<exists>resp. r = Inr resp \<and> open1 c \<and> short_answer P (SC1 c) resp)"
proof -
  obtain resp where r: "r = Inr resp" using assms by (cases r) (auto simp: V1_receive_def)
  show ?thesis
    using assms unfolding r
    by (auto simp: V1_receive_def V1_updateIV_def ParseResponse_Inl short_answer_def v1_rmeta_def ConstantTimeCompare_def Let_def
        split: sum.splits if_splits)
qed

lemma V2_receive_Inl:
  assumes "V2_receive P r c = (Inl e, c')" "open2 c'"
  shows "e = BadRawResponse \<and> (\<exists>resp. r = Inr resp \<and> open2 c \<and> short_answer P (SC2 c) resp)"
proof -
  obtain resp where r: "r = Inr resp" using assms by (cases r) (auto simp: V2_receive_def)
  show ?thesis
    using assms unfolding r
    by (auto simp: V2_receive_def decryptCCM_def ParseResponse_Inl short_answer_def split: sum.splits if_splits option.splits)
qed

lemma sc_receive_Inl:
  "sc_receive P r ch = (Inl e, ch') \<Longrightarrow> sc_IsOpen ch' \<Longrightarrow>
   e = BadRawResponse \<and> (\<exists>resp. r = Inr resp \<and> sc_IsOpen ch \<and> short_answer P ch resp)"
  using V1_receive_Inl [of P r _ e] V2_receive_Inl [of P r _ e]
  by (cases ch) (fastforce simp: sc_receive_def sc_IsOpen_def prod_eq_iff)+

lemma sc_ProtectedCommand_Inl: "sc_ProtectedCommand P cla ins p1 p2 data ch = (Inl e, ch') \<Longrightarrow> ch' = ch"
  by (cases ch) (auto simp: sc_ProtectedCommand_def V1_ProtectedCommand_def V2_ProtectedCommand_def Let_def
      split: if_splits option.splits sum.splits)

text \<open>C11. A protected command fails closed, on either channel version: when it returns an error, either
  nothing was sent and the command set is exactly what it was, or the channel is closed, whatever
  went wrong in between (transport, length, decryption, MAC). The one exception is an answer of the card that
  passed authentication under the channel's keys (the MAC of version 1, the CCM tag of version 2) and
  whose plaintext has less than two bytes; its error is the one for a raw response that is too short.
  After a failure that closed an established version-1 channel every further protected command is
  refused unsent.\<close>

theorem sendProtected_fails_closed:
  assumes "sendProtected P env ins p1 p2 data (cs, w) = (Inl e, cs', w')"
  shows "((cs' = cs \<and> w' = w) \<or> \<not> sc_IsOpen (sc cs')
      \<or> (\<exists>cmd ch resp. e = BadRawResponse
            \<and> sc_ProtectedCommand P ClaGp ins p1 p2 data (sc cs) = (Inr cmd, ch) \<and> sc_IsOpen ch
            \<and> env_send env cmd w = (Inr resp, w') \<and> short_answer P ch resp)) \<and>
    (\<forall>c. sc cs' = SC1 c \<and> established1 c \<and> \<not> open1 c \<longrightarrow>
      (\<exists>e'. sendProtected P env ins' p1' p2' data' (cs', w'') = (Inl e', cs', w'')))"
proof (intro conjI allI impI)
  show "(cs' = cs \<and> w' = w) \<or> \<not> sc_IsOpen (sc cs')
      \<or> (\<exists>cmd ch resp. e = BadRawResponse
            \<and> sc_ProtectedCommand P ClaGp ins p1 p2 data (sc cs) = (Inr cmd, ch) \<and> sc_IsOpen ch
            \<and> env_send env cmd w = (Inr resp, w') \<and> short_answer P ch resp)"
  proof (cases "sc_ProtectedCommand P ClaGp ins p1 p2 data (sc cs)")
    case (Pair r ch1)
    show ?thesis
    proof (cases r)
      case (Inl e1)
      then have "ch1 = sc cs" using Pair sc_ProtectedCommand_Inl by blast
      then show ?thesis using assms Pair Inl by (auto simp: sendProtected_def with_sc_def)
    next
      case (Inr cmd)
      obtain x ch2 where x: "sc_receive P (fst (env_send env cmd w)) ch1 = (x, ch2)" by fastforce
      then have res: "x = Inl e" "cs' = cs\<lparr>sc := ch2\<rparr>" "w' = snd (env_send env cmd w)"
        using assms Pair Inr by (auto simp: sendProtected_def with_sc_def sc_Transmit_via transmit_via_apply)
      with x have "sc_IsOpen ch2 \<longrightarrow> e = BadRawResponse
          \<and> (\<exists>resp. fst (env_send env cmd w) = Inr resp \<and> sc_IsOpen ch1 \<and> short_answer P ch1 resp)"
        using sc_receive_Inl [of P _ ch1 e ch2] by blast
      then show ?thesis using Pair Inr res by (cases "env_send env cmd w") auto
    qed
  qed
next
  fix c assume "sc cs' = SC1 c \<and> established1 c \<and> \<not> open1 c"
  moreover from this have "cs'\<lparr>sc := SC1 c\<rparr> = cs'" by simp
  ultimately show "\<exists>e'. sendProtected P env ins' p1' p2' data' (cs', w'') = (Inl e', cs', w'')"
    by (simp add: sendProtected_def with_sc_def sc_ProtectedCommand_def V1_ProtectedCommand_def bindS_def)
qed

lemma toy_refusal:
  "\<exists>m cs. sendProtected toy_prims toy_env 0x20 0 0 [1] (toy_cs1, ()) = (Inl (Msg m), cs, ()) \<and> \<not> sc_IsOpen (sc cs)
     \<and> (case sc cs of SC1 c \<Rightarrow> established1 c | SC2 c \<Rightarrow> False)"
proof -
  have "case sendProtected toy_prims toy_env 0x20 0 0 [1] (toy_cs1, ()) of
      (Inl (Msg m), cs, _) \<Rightarrow> \<not> sc_IsOpen (sc cs) \<and> (case sc cs of SC1 c \<Rightarrow> established1 c | SC2 c \<Rightarrow> False)
    | _ \<Rightarrow> False"
    by code_simp
  then show ?thesis by (auto split: prod.splits sum.splits go_error.splits)
qed

theorem sendProtected_fails_closed_witness:
  "\<exists>e cs e'. sendProtected toy_prims toy_env 0x20 0 0 [1] (toy_cs1, ()) = (Inl e, cs, ())
     \<and> sendProtected toy_prims toy_env 0x20 0 0 [1] (cs, ()) = (Inl e', cs, ())"
proof -
  obtain m cs where r: "sendProtected toy_prims toy_env 0x20 0 0 [1] (toy_cs1, ()) = (Inl (Msg m), cs, ())"
      "\<not> sc_IsOpen (sc cs)" "case sc cs of SC1 c \<Rightarrow> established1 c | SC2 c \<Rightarrow> False"
    using toy_refusal by blast
  then obtain c where "sc cs = SC1 c \<and> established1 c \<and> \<not> open1 c" by (auto simp: sc_IsOpen_def split: channel.splits)
  with sendProtected_fails_closed [OF r(1), of "0x20" 0 0 "[1]" "()"] r(1) show ?thesis by blast
qed

section \<open>A closed version-2 channel\<close>

text \<open>A closed version-2 channel protects nothing: whether it was never opened or a failure closed
  it, every protected command of the command set (the PIN of \<open>VerifyPIN\<close>, the seed of \<open>LoadSeed\<close>)
  is handed to the transport in the clear and its answer returned as it is. Version 1 refuses once
  it was established, and the comment on \<open>ProtectedCommand\<close> promises the same for version 2.\<close>

lemma V2_closed_sends_plaintext:
  assumes "sc cs = SC2 c" "\<not> open2 c"
  shows "fst (sendProtected P env ins p1 p2 data (cs, w)) = fst (env_send env (NewCommand ClaGp ins p1 p2 data) w)
    \<and> snd (snd (sendProtected P env ins p1 p2 data (cs, w))) = snd (env_send env (NewCommand ClaGp ins p1 p2 data) w)
    \<and> \<not> sc_IsOpen (sc (fst (snd (sendProtected P env ins p1 p2 data (cs, w)))))"
proof -
  let ?r = "fst (env_send env (NewCommand ClaGp ins p1 p2 data) w)"
  have "\<exists>c'. V2_receive P r c = (r, c') \<and> \<not> open2 c'" for r
    using v2.receive_closed [OF assms(2), where P = P] v2.receive_error [where P = P and c = c] by (cases r) auto
  then obtain c' where c': "V2_receive P ?r c = (?r, c')" "\<not> open2 c'" by blast
  have "sc_ProtectedCommand P ClaGp ins p1 p2 data (SC2 c) = (Inr (NewCommand ClaGp ins p1 p2 data), SC2 c)"
    using assms(2) by (simp add: sc_ProtectedCommand_def V2_ProtectedCommand_def)
  then show ?thesis
    using c' by (simp add: sendProtected_def with_sc_def assms(1) sc_Transmit_via transmit_via_apply sc_receive_def
        sc_IsOpen_def bindS_def split_def Let_def)
qed

lemma V2_closed_sends_plaintext_example:
  "fst (sendProtected toy_prims toy_env 0x20 0 0 [0x31, 0x32] (NewCommandSet, ()))
     = fst (env_send toy_env (NewCommand 0x80 0x20 0 0 [0x31, 0x32]) ())"
  using V2_closed_sends_plaintext [where cs = NewCommandSet and P = toy_prims and env = toy_env
      and ins = "0x20" and ?p1.0 = 0 and ?p2.0 = 0 and data = "[0x31, 0x32]" and w = "()"]
  by (simp add: NewCommandSet_def NewCommandSetWithCA_def NewCommandSetWithCAs_def NewSecureChannelV2_def)

end
