(* ===== verification/Command_Set_Flows.thy ===== *)
theory Command_Set_Flows
  imports Command_Set
begin

text \<open>
  Single commands of the command set against reference flows: the deprecated pairing against the
  channel's own, the chunks of \<open>SetNDEF\<close> against the memory they fill, the status words of the
  PIN commands.
\<close>

section \<open>The two pairings\<close>

lemma V1_receive_closed: "\<not> open1 c \<Longrightarrow> V1_receive P r c = (r, c)"
proof -
  assume a: "\<not> open1 c"
  have "c\<lparr>open1 := False\<rparr> = c" using a by (cases c) simp
  then show ?thesis using a by (simp add: V1_receive_def Let_def split: sum.split)
qed

lemma V1_Pair_closed:
  "\<not> open1 c \<Longrightarrow> V1_Pair P env p1 p2 data (c, w) =
     (fst (env_send env (NewCommand ClaGp InsPair p1 p2 data) w), c, snd (env_send env (NewCommand ClaGp InsPair p1 p2 data) w))"
  by (simp add: V1_Pair_def V1_Transmit_def transmit_via_apply V1_receive_closed)

text \<open>A card whose successful answers to the two pairing commands are long enough.\<close>

definition pairing_card :: "('w, 'sk) env \<Rightarrow> bool" where
  "pairing_card env \<longleftrightarrow> (\<forall>data w r w'. 
     (env_send env (NewCommand ClaGp InsPair 0 0 data) w = (Inr r, w') \<and> Sw r = SwOK \<longrightarrow> 64 \<le> length (RData r)) \<and>
     (env_send env (NewCommand ClaGp InsPair 1 0 data) w = (Inr r, w') \<and> Sw r = SwOK \<longrightarrow> 2 \<le> length (RData r)))"

text \<open>C24. The deprecated \<open>Pair\<close> and \<open>AutoPairWithMode\<close> with any slot are the same on a closed
  version-1 channel, for a card whose successful answers have the length of the protocol: they
  succeed together, and leave the same pairing, the same command set and the same transport
  state behind, failures included. (On shorter answers \<open>Pair\<close> slices out of range.)\<close>

theorem pairing_flows_agree:
  assumes "sc cs = SC1 c" "\<not> open1 c" "pairing_card env"
  shows "snd (CS_Pair P env pass (cs, w)) = snd (AutoPairWithMode P env pass P2PairAny (cs, w))
    \<and> (fst (CS_Pair P env pass (cs, w)) = Inr () \<longleftrightarrow> fst (AutoPairWithMode P env pass P2PairAny (cs, w)) = Inr ())"
proof -
  have same: "cs\<lparr>sc := SC1 c\<rparr> = cs" using assms(1) by simp
  let ?secret = "PairingPasswordToSecret P pass"
  let ?auto = "V1_AutoPair P env 0 ?secret (c, w)"
  have auto: "AutoPairWithMode P env pass P2PairAny (cs, w) = (fst ?auto, cs\<lparr>sc := SC1 (fst (snd ?auto))\<rparr>, snd (snd ?auto))"
    by (simp add: AutoPairWithMode_def AutoPairWithSecretAndMode_def with_sc_def assms(1) sc_AutoPair_def split_def Let_def)
  obtain rc w1 where rand: "env_rand env 32 w = (rc, w1)" by fastforce
  show ?thesis
  proof (cases rc)
    case (Inl e)
    then show ?thesis unfolding auto using rand same by (simp add: CS_Pair_def V1_AutoPair_def bindS_def)
  next
    case challenge: (Inr ch)
    obtain r1 w2 where s1: "env_send env (NewCommand ClaGp InsPair 0 0 ch) w1 = (r1, w2)" by fastforce
    show ?thesis
    proof (cases r1)
      case (Inl e)
      then show ?thesis unfolding auto using rand challenge s1 same
        by (simp add: CS_Pair_def V1_AutoPair_def bindS_def V1_Pair_closed assms(2) NewCommandPairFirstStep_def)
    next
      case resp1: (Inr resp1)
      show ?thesis
      proof (cases "Sw resp1 = SwOK")
        case False
        then show ?thesis unfolding auto using rand challenge s1 same resp1
          by (simp add: CS_Pair_def V1_AutoPair_def bindS_def V1_Pair_closed assms(2) NewCommandPairFirstStep_def expect_ok_def)
      next
        case True
        then have l1: "64 \<le> length (RData resp1)" "\<not> length (RData resp1) < 32"
          using assms(3) s1 resp1 unfolding pairing_card_def by force+
        let ?expected = "sha256 P (?secret @ ch)"
        show ?thesis
        proof (cases "take 32 (RData resp1) = ?expected")
          case False
          then show ?thesis unfolding auto using rand challenge s1 same resp1 l1 True
            by (simp add: CS_Pair_def V1_AutoPair_def bindS_def V1_Pair_closed assms(2) NewCommandPairFirstStep_def
                expect_ok_def VerifyCryptogram_def PairingPasswordToSecret_def generatePairingToken_def Let_def)
        next
          case good: True
          let ?cmd = "NewCommand ClaGp InsPair 1 0 (sha256 P (?secret @ drop 32 (RData resp1)))"
          obtain r2 w3 where s2: "env_send env ?cmd w2 = (r2, w3)" by fastforce
          show ?thesis
          proof (cases "\<exists>resp2. r2 = Inr resp2 \<and> Sw resp2 = SwOK")
            case False
            then show ?thesis unfolding auto using rand challenge s1 same resp1 l1 True good s2
              by (cases r2) (simp_all add: CS_Pair_def V1_AutoPair_def bindS_def V1_Pair_closed assms(2) NewCommandPairFirstStep_def
                expect_ok_def VerifyCryptogram_def PairingPasswordToSecret_def generatePairingToken_def Let_def
                NewCommandPairFinalStep_def send_plain_def checked_def CheckOK_def)
          next
            case ok: True
            then obtain resp2 where resp2: "r2 = Inr resp2" "Sw resp2 = SwOK" by blast
            then have "2 \<le> length (RData resp2)"
              using assms(3) s2 unfolding pairing_card_def by blast
            then have l2: "RData resp2 \<noteq> []" "\<not> length (RData resp2) < 2" by auto
            show ?thesis unfolding auto using rand challenge s1 same resp1 l1 True good s2 resp2 l2
              by (simp add: CS_Pair_def V1_AutoPair_def bindS_def V1_Pair_closed assms(1,2) NewCommandPairFirstStep_def
                expect_ok_def VerifyCryptogram_def PairingPasswordToSecret_def generatePairingToken_def Let_def
                NewCommandPairFinalStep_def send_plain_def checked_def CheckOK_def sc_SetPairing_def V1_SetPairing_def)
          qed
        qed
      qed
    qed
  qed
qed

theorem pairing_flows_agree_witness:
  "let cs = NewCommandSet\<lparr>sc := SC1 (NewSecureChannel :: unit sc1)\<rparr>;
       env = answering_env (replicate 64 0)
   in snd (CS_Pair toy_prims env [1, 2] (cs, ())) = snd (AutoPairWithMode toy_prims env [1, 2] P2PairAny (cs, ()))
    \<and> (fst (CS_Pair toy_prims env [1, 2] (cs, ())) = Inr ()
       \<longleftrightarrow> fst (AutoPairWithMode toy_prims env [1, 2] P2PairAny (cs, ())) = Inr ())"
  unfolding Let_def
  by (rule pairing_flows_agree [where c = NewSecureChannel])
    (auto simp: pairing_card_def answering_env_def NewSecureChannel_def)

section \<open>NDEF data in chunks\<close>

text \<open>The STORE DATA commands for a message, as pairs of P2, which counts units of four bytes, and data.\<close>

definition ndef_commands :: "bytes \<Rightarrow> (byte \<times> bytes) list" where
  "ndef_commands data =
     map (\<lambda>k. (of_nat (55 * k), gslice (220 * k) (220 * k + 220) data)) [0..<(length data + 219) div 220]"

fun send_all :: "('sk, 'pk) prims \<Rightarrow> ('w, 'sk) env \<Rightarrow> (byte \<times> bytes) list \<Rightarrow> (('sk, 'pk) command_set \<times> 'w, unit) st" where
  "send_all P env [] = returnS ()"
| "send_all P env ((p2, chunk) # cmds) =
     bindS (call_unit P env InsStoreData P1StoreDataNDEF p2 chunk) (\<lambda>_. send_all P env cmds)"

text \<open>What the card does with such a command.\<close>

definition card_write :: "bytes \<Rightarrow> byte \<times> bytes \<Rightarrow> bytes" where
  "card_write mem cmd = (let off = 4 * unat (fst cmd) in take off mem @ snd cmd @ drop (off + length (snd cmd)) mem)"

lemma offset_div4:
  assumes "220 * k < 65536"
  shows "(ucast ((of_nat (220 * k) :: u16) div 4) :: byte) = of_nat (55 * k)"
proof -
  have "unat ((of_nat (220 * k) :: u16) div 4) = 220 * k div 4"
    using assms by (simp add: unat_div unat_of_nat del: of_nat_mult)
  then have "unat ((of_nat (220 * k) :: u16) div 4) = 55 * k" by simp
  then show ?thesis using ucast_byte_of_nat [of "(of_nat (220 * k) :: u16) div 4"] by (simp del: of_nat_mult)
qed

lemma store_chunks_sends:
  assumes "length data \<le> 65535" "n = (length data + 219) div 220" "k \<le> n"
  shows "store_chunks (StoreDataWithOffset P env 1) data (220 * k) s
    = send_all P env (map (\<lambda>k. (of_nat (55 * k), gslice (220 * k) (220 * k + 220) data)) [k..<n]) s"
  using assms(3)
proof (induction "n - k" arbitrary: k s)
  case 0
  then have "length data \<le> 220 * k" using assms(2) by auto
  then show ?case using 0 by (subst store_chunks.simps) simp
next
  case (Suc m)
  let ?store = "StoreDataWithOffset P env 1"
  have k: "k < n" and lt: "220 * k < length data" using Suc.hyps(2) assms(2) by auto
  have slice: "gslice (220 * k) (220 * k + min 220 (length data - 220 * k)) data = gslice (220 * k) (220 * k + 220) data"
    by (cases "220 \<le> length data - 220 * k") (simp_all add: gslice_def min_def)
  have IH: "store_chunks ?store data (220 + 220 * k) s'
      = send_all P env (map (\<lambda>k. (of_nat (55 * k), gslice (220 * k) (220 * k + 220) data)) [Suc k..<n]) s'" for s'
    using Suc.hyps(1) [of "Suc k"] Suc.hyps(2) k by simp
  have next_chunk: "store_chunks ?store data (220 * k + min 220 (length data - 220 * k)) s'
      = store_chunks ?store data (220 + 220 * k) s'" for s'
  proof (cases "220 \<le> length data - 220 * k")
    case False
    then have "length data \<le> 220 * k + min 220 (length data - 220 * k)" "length data \<le> 220 * Suc k" using lt by auto
    then show ?thesis by (simp add: store_chunks.simps)
  qed (simp add: add.commute)
  have call: "StoreDataWithOffset P env 1 (gslice (220 * k) (220 * k + 220) data) (of_nat (220 * k))
      = call_unit P env 0xE2 1 (of_nat (55 * k)) (gslice (220 * k) (220 * k + 220) data)"
    using offset_div4 [of k] lt assms(1) by (simp add: StoreDataWithOffset_def del: of_nat_mult)
  have split: "[k..<n] = k # [Suc k..<n]" using k by (rule upt_conv_Cons)
  show ?case
    unfolding split
    by (subst store_chunks.simps)
      (use lt in \<open>simp add: Let_def slice next_chunk IH call bindS_def del: of_nat_mult upt_Suc split: prod.split sum.split\<close>)
qed

lemma drop_version:
  assumes "0x0300 \<le> (v :: u16)"
  shows "(2 :: byte) < ucast (drop_bit 8 v)"
proof -
  have "768 \<le> unat v" using assms by (simp add: word_le_nat_alt)
  then have "3 \<le> unat v div 256" by (simp add: le_div_geq less_eq_div_iff_mult_less_eq)
  moreover have "unat v div 256 < 256" using unat_u16_lt [of v] by auto
  ultimately have "2 < unat (ucast (drop_bit 8 v) :: byte)" using ucast_drop_bit_of_nat [of 8 v] by simp
  then show ?thesis by (simp add: word_less_nat_alt)
qed

lemma SetNDEF_sends:
  assumes "applicationInfo cs = Some info" "0x0300 \<le> AppVersion info" "length (ndef_prefixed ndef) \<le> 65535"
  shows "SetNDEF P env ndef (cs, w) = send_all P env (ndef_commands (ndef_prefixed ndef)) (cs, w)"
proof -
  have "(2 :: byte) < ucast (drop_bit 8 (AppVersion info))"
    using drop_version [OF assms(2)] .
  then show ?thesis
    using store_chunks_sends [OF assms(3) refl, of 0 P env "(cs, w)"] assms(1)
    by (simp add: SetNDEF_def ndef_commands_def)
qed

lemma card_writes:
  assumes "length data \<le> 1100" "length data \<le> length mem" "k \<le> (length data + 219) div 220"
  shows "foldl card_write mem (map (\<lambda>k. (of_nat (55 * k), gslice (220 * k) (220 * k + 220) data)) [0..<k])
    = take (220 * k) data @ drop (min (220 * k) (length data)) mem"
  using assms(3)
proof (induction k)
  case (Suc k)
  have k: "220 * k < length data" "k \<le> 4" using Suc.prems assms(1) by auto
  have u: "4 * unat (of_nat (55 * k) :: byte) = 220 * k" using k(2) by (simp del: of_nat_mult)
  have tk: "take (220 * k) data @ gslice (220 * k) (220 * k + 220) data = take (220 * Suc k) data"
    using take_add [of "220 * k" 220 data] by (simp add: gslice_def add.commute)
  have len: "220 * k + length (gslice (220 * k) (220 * k + 220) data) = min (220 * Suc k) (length data)"
    using k by simp
  let ?chunk = "gslice (220 * k) (220 * k + 220) data"
  let ?mem = "take (220 * k) data @ drop (220 * k) mem"
  have IH: "foldl card_write mem (map (\<lambda>k. (of_nat (55 * k), gslice (220 * k) (220 * k + 220) data)) [0..<k]) = ?mem"
    using Suc k by simp
  have "card_write ?mem (of_nat (55 * k), ?chunk) = take (220 * k) data @ ?chunk @ drop (220 * k + length ?chunk) mem"
    using k by (simp add: card_write_def u Let_def add.commute del: of_nat_mult length_gslice)
  also have "\<dots> = (take (220 * k) data @ ?chunk) @ drop (220 * k + length ?chunk) mem" by simp
  also have "\<dots> = take (220 * Suc k) data @ drop (min (220 * Suc k) (length data)) mem"
    unfolding tk len ..
  finally show ?case using IH by (simp del: of_nat_mult)
qed simp

lemma ndef_prefixed_length:
  assumes "length ndef < 65536"
  shows "be_nat (take 2 (ndef_prefixed ndef)) = length (drop 2 (ndef_prefixed ndef))"
proof (cases "2 \<le> length ndef \<and> unat (ndef ! 0) * 256 + unat (ndef ! 1) = length ndef - 2")
  case True
  then obtain a b rest where "ndef = a # b # rest" by (cases ndef; cases "tl ndef") auto
  then show ?thesis using True by (simp add: ndef_prefixed_def be_nat_def)
next
  case False
  have "length ndef div 256 < 256" using assms by auto
  moreover have "ndef_prefixed ndef = [of_nat (length ndef div 256), of_nat (length ndef mod 256)] @ ndef"
    unfolding ndef_prefixed_def using False by (rule if_not_P)
  ultimately show ?thesis by (simp add: be_nat_def)
qed

text \<open>C25. From application version 3.0 on, \<open>SetNDEF\<close> is the sequence of STORE DATA commands over
  220-byte chunks of the length-prefixed message, stopping at the first failure; every chunk
  fits a protected command of either channel. For a prefixed message of at most 1100 bytes the
  commands of a complete run, replayed on the card's memory (P2 counts four bytes), write
  exactly the message from offset 0, and its first two bytes are the length of the rest.\<close>

theorem SetNDEF_writes_message:
  assumes "applicationInfo cs = Some info" "0x0300 \<le> AppVersion info" "length (ndef_prefixed ndef) \<le> 1100"
  shows "SetNDEF P env ndef (cs, w) = send_all P env (ndef_commands (ndef_prefixed ndef)) (cs, w)
    \<and> list_all (\<lambda>(p2, chunk). length chunk \<le> 220) (ndef_commands (ndef_prefixed ndef))
    \<and> (length (ndef_prefixed ndef) \<le> length mem \<longrightarrow> 
        foldl card_write mem (ndef_commands (ndef_prefixed ndef))
          = ndef_prefixed ndef @ drop (length (ndef_prefixed ndef)) mem)
    \<and> be_nat (take 2 (ndef_prefixed ndef)) = length (drop 2 (ndef_prefixed ndef))"
proof (intro conjI impI)
  let ?data = "ndef_prefixed ndef"
  show "SetNDEF P env ndef (cs, w) = send_all P env (ndef_commands ?data) (cs, w)"
    by (rule SetNDEF_sends [OF assms(1,2)]) (use assms(3) in simp)
  show "list_all (\<lambda>(p2, chunk). length chunk \<le> 220) (ndef_commands ?data)"
    by (simp add: ndef_commands_def list_all_iff)
  have "length ndef \<le> length ?data" by (simp add: ndef_prefixed_def)
  then show "be_nat (take 2 ?data) = length (drop 2 ?data)" by (intro ndef_prefixed_length) (use assms(3) in simp)
  assume mem: "length ?data \<le> length mem"
  have all: "length ?data \<le> 220 * ((length ?data + 219) div 220)" by auto
  then have "min (220 * ((length ?data + 219) div 220)) (length ?data) = length ?data" by simp
  with all show "foldl card_write mem (ndef_commands ?data) = ?data @ drop (length ?data) mem"
    using card_writes [OF assms(3) mem order_refl] unfolding ndef_commands_def by simp
qed

lemma toy_version: "0x0300 \<le> AppVersion (zero_info\<lparr>Version := [3, 0]\<rparr>)"
  by code_simp

theorem SetNDEF_writes_message_witness:
  "let cs = NewCommandSet\<lparr>applicationInfo := Some (zero_info\<lparr>Version := [3, 0]\<rparr>)\<rparr> :: (unit, unit) command_set
   in SetNDEF toy_prims toy_env (replicate 300 7) (cs, ())
      = send_all toy_prims toy_env (ndef_commands (ndef_prefixed (replicate 300 7))) (cs, ())"
  unfolding Let_def
  by (rule conjunct1 [OF SetNDEF_writes_message [where info = "zero_info\<lparr>Version := [3, 0]\<rparr>" and mem = "[]"]])
    (use toy_version in \<open>simp_all add: ndef_prefixed_def\<close>)

text \<open>Beyond that the offset byte wraps: the sixth chunk of a 1101-byte message lands at offset 76.\<close>

lemma ndef_offset_wraps: "ndef_commands (replicate 1101 b) ! 5 = (19, [b])"
  by (simp add: ndef_commands_def gslice_def)

section \<open>Retry counters\<close>

text \<open>A \<open>63Cx\<close> status word gives the counter, but the mask lets other words through as well.\<close>

lemma retry_words:
  "x < 16 \<Longrightarrow> Sw resp = 0x63C0 + of_nat x \<Longrightarrow> check_retries WrongPIN (Inr resp) = Inl (WrongPIN x)"
  "Sw resp = 0x73D5 \<Longrightarrow> check_retries WrongPIN (Inr resp) = Inl (WrongPIN 5)"
proof -
  assume x: "x < 16" and sw: "Sw resp = 0x63C0 + of_nat x"
  have "x \<in> set [0..<16]" using x by simp
  moreover have "list_all (\<lambda>x. (0x63C0 + of_nat x :: u16) AND 0x63C0 = 0x63C0 \<and> unat ((0x63C0 + of_nat x :: u16) AND 0xF) = x
      \<and> (0x63C0 + of_nat x :: u16) \<noteq> 0x9000) [0..<16]"
    by code_simp
  ultimately show "check_retries WrongPIN (Inr resp) = Inl (WrongPIN x)"
    unfolding list_all_iff by (auto simp: check_retries_def CheckOK_def sw)
next
  assume "Sw resp = 0x73D5"
  then show "check_retries WrongPIN (Inr resp) = Inl (WrongPIN 5)" by (simp add: check_retries_def CheckOK_def)
qed

end
