(* ===== verification/Sessions.thy ===== *)
theory Sessions
  imports Prelude
begin

text \<open>
  Two parties that stay in step: if from every state in which they agree one message is delivered
  and leaves them agreeing again, then a session of any number of messages delivers all of them.
  The interface is the step and the agreement; the channels of the program and their peers
  provide it.
\<close>

fun run_session :: "('m \<Rightarrow> 's \<Rightarrow> ('y \<times> 's) option) \<Rightarrow> 'm list \<Rightarrow> 's \<Rightarrow> ('y list \<times> 's) option" where
  "run_session step [] s = Some ([], s)"
| "run_session step (m # ms) s =
     (case step m s of
        None \<Rightarrow> None
      | Some (y, s') \<Rightarrow> map_option (\<lambda>(ys, t). (y # ys, t)) (run_session step ms s'))"

locale lockstep =
  fixes step :: "'m \<Rightarrow> 's \<Rightarrow> ('y \<times> 's) option"
    and agree :: "'s \<Rightarrow> bool"
    and sendable :: "'m \<Rightarrow> bool"
    and delivered :: "'m \<Rightarrow> 'y"
  assumes step_delivers: "agree s \<Longrightarrow> sendable m \<Longrightarrow> \<exists>s'. step m s = Some (delivered m, s') \<and> agree s'"
begin

lemma session_delivers:
  "agree s \<Longrightarrow> list_all sendable ms \<Longrightarrow>
   \<exists>s'. run_session step ms s = Some (map delivered ms, s') \<and> agree s'"
proof (induction ms arbitrary: s)
  case (Cons m ms)
  then obtain s1 where "step m s = Some (delivered m, s1)" "agree s1" using step_delivers [of s m] by auto
  with Cons show ?case by fastforce
qed simp

text \<open>A session can be interrupted anywhere and resumed.\<close>

lemma session_append:
  "run_session step (ms @ ns) s =
     Option.bind (run_session step ms s) (\<lambda>(ys, t). map_option (\<lambda>(zs, u). (ys @ zs, u)) (run_session step ns t))"
  by (induction ms arbitrary: s)
    (auto simp: option.map_comp comp_def split_def option.map_ident split: option.split prod.split bind_split)

end

end
