(* ===== verification/Requests.thy ===== *)
theory Requests
  imports Command_Set Sessions
begin

text \<open>
  The requests of a client to the card's application, as data: the operations of \<open>command_set.go\<close>
  that go through the secure channel and leave the management of the channel alone. A request
  has an answer, a bound on the exchanges it takes, and a largest payload.
\<close>

datatype request =
    GetStatusR byte
  | IdentifyR
  | VerifyPinR bytes
  | ChangePinR bytes
  | UnblockPinR bytes bytes
  | ChangePukR bytes
  | ChangePairingSecretR bytes
  | GenerateKeyR
  | GenerateMnemonicR int
  | RemoveKeyR
  | DeriveKeyR string
  | LoadSeedR bytes
  | LoadKeyR Bip32KeyPair
  | LoadPrivateKeyR Bip32KeyPair
  | LoadLeeKeyR bytes
  | ExportKeyR bool bool bool string
  | ExportKeyExtendedR bool bool byte string
  | ExportCurrentKeyR bool
  | ExportLeeKeyR string
  | ExportLeeKeyParsedR string
  | EcdhR bytes string
  | EcdhRawR bytes bytes
  | ExportBip85R string byte
  | SetPinlessPathR string
  | ResetPinlessPathR
  | SignR bytes
  | SignWithPathR bytes string byte
  | SignTaprootR bytes bytes string
  | GetDataR byte
  | StoreDataR byte bytes
  | StoreDataAtR byte bytes u16
  | SetNdefR bytes
  | GetChallengeR byte

datatype answer =
    Done_Answer
  | Bytes_Answer bytes
  | Words_Answer "int list"
  | Status_Answer ApplicationStatus
  | Keys_Answer "bytes \<times> bytes"
  | Exported_Answer ExportedKey
  | Lee_Answer LeeKey
  | Signature_Answer Signature

definition answered :: "('a \<Rightarrow> answer) \<Rightarrow> ('s, 'a) st \<Rightarrow> ('s, answer) st" where
  "answered f m = (\<lambda>s. (map_sum id f (fst (m s)), snd (m s)))"

definition acknowledged :: "('s, unit) st \<Rightarrow> ('s, answer) st" where
  "acknowledged = answered (\<lambda>_. Done_Answer)"

primrec perform ::
  "('sk, 'pk) prims \<Rightarrow> ('w, 'sk) env \<Rightarrow> request \<Rightarrow> (('sk, 'pk) command_set \<times> 'w, answer) st" where
  "perform P env (GetStatusR info) = answered Status_Answer (CS_GetStatus P env info)"
| "perform P env IdentifyR = answered Bytes_Answer (Identify P env)"
| "perform P env (VerifyPinR pinB) = acknowledged (VerifyPIN P env pinB)"
| "perform P env (ChangePinR pinB) = acknowledged (ChangePIN P env pinB)"
| "perform P env (UnblockPinR pukB pinB) = acknowledged (UnblockPIN P env pukB pinB)"
| "perform P env (ChangePukR pukB) = acknowledged (ChangePUK P env pukB)"
| "perform P env (ChangePairingSecretR pass) = acknowledged (ChangePairingSecret P env pass)"
| "perform P env GenerateKeyR = answered Bytes_Answer (GenerateKey P env)"
| "perform P env (GenerateMnemonicR n) = answered Words_Answer (GenerateMnemonic P env n)"
| "perform P env RemoveKeyR = acknowledged (RemoveKey P env)"
| "perform P env (DeriveKeyR path) = acknowledged (DeriveKey P env path)"
| "perform P env (LoadSeedR seed) = answered Bytes_Answer (LoadSeed P env seed)"
| "perform P env (LoadKeyR kp) = acknowledged (LoadKeyBIP32 P env kp)"
| "perform P env (LoadPrivateKeyR kp) = acknowledged (LoadKeyBIP32OmitPublic P env kp)"
| "perform P env (LoadLeeKeyR seed) = acknowledged (LoadLEEKey P env seed)"
| "perform P env (ExportKeyR derive current only path) = answered Keys_Answer (ExportKey P env derive current only path)"
| "perform P env (ExportKeyExtendedR derive current p2 path) =
     answered Exported_Answer (ExportKeyExtended P env derive current p2 path)"
| "perform P env (ExportCurrentKeyR only) = answered Exported_Answer (ExportCurrentKey P env only)"
| "perform P env (ExportLeeKeyR path) = answered Bytes_Answer (ExportLEEKey P env path)"
| "perform P env (ExportLeeKeyParsedR path) = answered Lee_Answer (ExportLEEKeyParsed P env path)"
| "perform P env (EcdhR peer path) = answered Bytes_Answer (ECDH P env peer path)"
| "perform P env (EcdhRawR peer raw) = answered Bytes_Answer (ECDHRaw P env peer raw)"
| "perform P env (ExportBip85R path len) = answered Bytes_Answer (ExportBIP85 P env path len)"
| "perform P env (SetPinlessPathR path) = acknowledged (SetPinlessPath P env path)"
| "perform P env ResetPinlessPathR = acknowledged (ResetPinlessPath P env)"
| "perform P env (SignR data) = answered Signature_Answer (Sign P env data)"
| "perform P env (SignWithPathR data path algo) = answered Signature_Answer (SignWithPathAndAlgo P env data path algo)"
| "perform P env (SignTaprootR hash tweak path) = answered Signature_Answer (SignBIP341Schnorr P env hash tweak path)"
| "perform P env (GetDataR typ) = answered Bytes_Answer (CS_GetData P env typ)"
| "perform P env (StoreDataR typ data) = acknowledged (CS_StoreData P env typ data)"
| "perform P env (StoreDataAtR typ data off) = acknowledged (StoreDataWithOffset P env typ data off)"
| "perform P env (SetNdefR ndef) = acknowledged (SetNDEF P env ndef)"
| "perform P env (GetChallengeR len) = answered Bytes_Answer (GetChallenge P env len)"

text \<open>A client makes its requests one after the other, whatever the answers are.\<close>

fun perform_all ::
  "('sk, 'pk) prims \<Rightarrow> ('w, 'sk) env \<Rightarrow> request list \<Rightarrow> ('sk, 'pk) command_set \<times> 'w
    \<Rightarrow> answer res list \<times> ('sk, 'pk) command_set \<times> 'w" where
  "perform_all P env [] s = ([], s)"
| "perform_all P env (r # rs) s =
     (let (a, s') = perform P env r s; (as, s'') = perform_all P env rs s' in (a # as, s''))"

text \<open>A bound on the exchanges of a request. NDEF data takes one for every 220 bytes.\<close>

definition request_cost :: "request \<Rightarrow> nat" where
  "request_cost r = (case r of SetNdefR ndef \<Rightarrow> (length ndef + 221) div 220 | _ \<Rightarrow> 1)"

text \<open>
  The payload of a request fits \<open>L\<close> bytes. Paths are bounded by their parser, hashes by their
  length; what the caller hands in is not. NDEF data is cut into chunks from version 3 on.
\<close>

definition legacy_ndef :: "ApplicationInfo option \<Rightarrow> bool" where
  "legacy_ndef info \<longleftrightarrow> (case info of None \<Rightarrow> True | Some i \<Rightarrow> \<not> 2 < (ucast (drop_bit 8 (AppVersion i)) :: byte))"

definition request_fits :: "('sk, 'pk) prims \<Rightarrow> nat \<Rightarrow> ApplicationInfo option \<Rightarrow> request \<Rightarrow> bool" where
  "request_fits P L info r =
     (case r of
        VerifyPinR pinB \<Rightarrow> length pinB \<le> L
      | ChangePinR pinB \<Rightarrow> length pinB \<le> L
      | UnblockPinR pukB pinB \<Rightarrow> length pukB + length pinB \<le> L
      | ChangePukR pukB \<Rightarrow> length pukB \<le> L
      | ChangePairingSecretR pass \<Rightarrow> length (generatePairingToken P pass) \<le> L
      | LoadSeedR seed \<Rightarrow> length seed \<le> L
      | LoadKeyR kp \<Rightarrow> length (Bip32_ToTLV True kp) \<le> L
      | LoadPrivateKeyR kp \<Rightarrow> length (Bip32_ToTLV False kp) \<le> L
      | LoadLeeKeyR seed \<Rightarrow> length seed \<le> L
      | EcdhRawR peer raw \<Rightarrow> 65 + length raw \<le> L
      | SignR data \<Rightarrow> length data \<le> L
      | StoreDataR typ data \<Rightarrow> length data \<le> L
      | StoreDataAtR typ data off \<Rightarrow> length data \<le> L
      | SetNdefR ndef \<Rightarrow> legacy_ndef info \<longrightarrow> length ndef \<le> L
      | _ \<Rightarrow> True)"

end
