(* ===== verification/Simulation.thy ===== *)
theory Simulation
  imports Secure_Channel
begin

text \<open>
  Simulation between two runs of the code in different surroundings. Two computations match at
  cost \<open>n\<close> when from related states they return the same value and end in related states, having
  used up \<open>n\<close> of the steps for which the relation is good.
\<close>

definition sim :: "(nat \<Rightarrow> 's \<Rightarrow> 't \<Rightarrow> bool) \<Rightarrow> nat \<Rightarrow> ('s, 'a) st \<Rightarrow> ('t, 'a) st \<Rightarrow> bool" where
  "sim R n m1 m2 \<longleftrightarrow>
     (\<forall>k s t. R (n + k) s t \<longrightarrow> fst (m1 s) = fst (m2 t) \<and> R k (snd (m1 s)) (snd (m2 t)))"

lemma simI:
  "(\<And>k s t. R (n + k) s t \<Longrightarrow> fst (m1 s) = fst (m2 t) \<and> R k (snd (m1 s)) (snd (m2 t))) \<Longrightarrow> sim R n m1 m2"
  by (simp add: sim_def)

lemma simD:
  assumes "sim R n m1 m2" "R (n + k) s t"
  obtains r s' t' where "m1 s = (r, s')" "m2 t = (r, t')" "R k s' t'"
  using assms by (metis sim_def prod.collapse)

text \<open>The relation is an obligation that may be left unused.\<close>

locale matching =
  fixes R :: "nat \<Rightarrow> 's \<Rightarrow> 't \<Rightarrow> bool"
  assumes spend: "R (Suc n) s t \<Longrightarrow> R n s t"
begin

lemma spend_many: "R (n + k) s t \<Longrightarrow> R k s t"
  by (induction n) (auto dest: spend)

lemma sim_weaken: "sim R n m1 m2 \<Longrightarrow> n \<le> n' \<Longrightarrow> sim R n' m1 m2"
proof (rule simI)
  fix k s t
  assume "sim R n m1 m2" "n \<le> n'" "R (n' + k) s t"
  then have "R (n + k) s t" using spend_many [of "n' - n" "n + k" s t] by simp
  with \<open>sim R n m1 m2\<close> show "fst (m1 s) = fst (m2 t) \<and> R k (snd (m1 s)) (snd (m2 t))" by (simp add: sim_def)
qed

lemma sim_basic: "sim R n (returnS x) (returnS x)" "sim R n (failS e) (failS e)" "sim R n (liftS r) (liftS r)"
  by (auto simp: sim_def dest: spend_many)

lemma sim_bind:
  assumes "sim R n m1 m2" "\<And>x. sim R n' (f x) (g x)"
  shows "sim R (n + n') (bindS m1 f) (bindS m2 g)"
proof (rule simI)
  fix k s t
  assume "R (n + n' + k) s t"
  then have r: "R (n + (n' + k)) s t" by (simp add: add.assoc)
  obtain r s' t' where m: "m1 s = (r, s')" "m2 t = (r, t')" "R (n' + k) s' t'" by (rule simD [OF assms(1) r])
  show "fst (bindS m1 f s) = fst (bindS m2 g t) \<and> R k (snd (bindS m1 f s)) (snd (bindS m2 g t))"
  proof (cases r)
    case (Inl e)
    then show ?thesis using m spend_many [OF m(3)] by simp
  next
    case (Inr x)
    then show ?thesis using m assms(2) [of x] by (simp add: sim_def)
  qed
qed

text \<open>Pure steps are free.\<close>

lemma sim_bind_last: "sim R n m1 m2 \<Longrightarrow> (\<And>x. sim R 0 (f x) (g x)) \<Longrightarrow> sim R n (bindS m1 f) (bindS m2 g)"
  using sim_bind [of n m1 m2 0 f g] by simp

lemma sim_bind_first: "sim R 0 m1 m2 \<Longrightarrow> (\<And>x. sim R n (f x) (g x)) \<Longrightarrow> sim R n (bindS m1 f) (bindS m2 g)"
  using sim_bind [of 0 m1 m2 n f g] by simp

lemma sim_bind_lift:
  "(\<And>x. r = Inr x \<Longrightarrow> sim R n (f x) (g x)) \<Longrightarrow> sim R n (bindS (liftS r) f) (bindS (liftS r) g)"
  using sim_basic(2) by (cases r) (auto simp: sim_def bindS_def dest: spend_many)

lemma sim_bind_post:
  assumes "sim R 0 m1 m2" "\<And>k s t x t'. R k s t \<Longrightarrow> m2 t = (Inr x, t') \<Longrightarrow> Post x" "\<And>x. Post x \<Longrightarrow> sim R n (f x) (g x)"
  shows "sim R n (bindS m1 f) (bindS m2 g)"
proof (rule simI)
  fix k s t
  assume r: "R (n + k) s t"
  then have "R (0 + (n + k)) s t" by simp
  then obtain x s' t' where m: "m1 s = (x, s')" "m2 t = (x, t')" "R (n + k) s' t'" by (rule simD [OF assms(1)])
  show "fst (bindS m1 f s) = fst (bindS m2 g t) \<and> R k (snd (bindS m1 f s)) (snd (bindS m2 g t))"
  proof (cases x)
    case (Inl e)
    then show ?thesis using m spend_many [OF m(3)] by simp
  next
    case (Inr y)
    then have "sim R n (f y) (g y)" using assms(2) [OF r] m(2) assms(3) by blast
    then show ?thesis using m Inr by (simp add: sim_def)
  qed
qed

lemma sim_if: "(b \<Longrightarrow> sim R n m1 m2) \<Longrightarrow> (\<not> b \<Longrightarrow> sim R n m1' m2') \<Longrightarrow> sim R n (if b then m1 else m1') (if b then m2 else m2')"
  by simp

lemma sim_map:
  assumes "sim R n m1 m2"
  shows "sim R n (\<lambda>s. let (r, s') = m1 s in (f r, s')) (\<lambda>t. let (r, t') = m2 t in (f r, t'))"
  using assms by (auto simp: sim_def split_def Let_def)

lemma sim_checked: "sim R n m1 m2 \<Longrightarrow> sim R n (checked allowed m1) (checked allowed m2)"
  unfolding checked_def by (rule sim_map)

lemma sim_ignore: "sim R n m1 m2 \<Longrightarrow> sim R n (ignore m1) (ignore m2)"
  unfolding ignore_def by (intro sim_bind_last sim_basic)

end

end
