(* ===== verification/Ideal_Card.thy ===== *)
theory Ideal_Card
  imports Requests Simulation
begin

text \<open>
  What a secure channel is for: a client on an open channel cannot be told from a client that
  talks to the card's application directly. The interface is a relation between two channels in
  their surroundings that exchanges keep; the requests are matched once, inside the locale, and
  the two versions of the channel provide it.
\<close>

section \<open>Two command sets\<close>

text \<open>The channels are related by \<open>Q\<close>; the rest of both command sets is that of \<open>base\<close>.\<close>

definition on_link ::
  "(nat \<Rightarrow> ('sk, 'pk) channel \<times> 'w \<Rightarrow> ('sk, 'pk) channel \<times> 'v \<Rightarrow> bool) \<Rightarrow> ('sk, 'pk) command_set
    \<Rightarrow> nat \<Rightarrow> ('sk, 'pk) command_set \<times> 'w \<Rightarrow> ('sk, 'pk) command_set \<times> 'v \<Rightarrow> bool" where
  "on_link Q base n = (\<lambda>(cs1, w1) (cs2, w2).
     Q n (sc cs1, w1) (sc cs2, w2) \<and> cs1 = base\<lparr>sc := sc cs1\<rparr> \<and> cs2 = base\<lparr>sc := sc cs2\<rparr>)"

lemma on_link_apply:
  "on_link Q base n (cs1, w1) (cs2, w2) \<longleftrightarrow>
     Q n (sc cs1, w1) (sc cs2, w2) \<and> cs1 = base\<lparr>sc := sc cs1\<rparr> \<and> cs2 = base\<lparr>sc := sc cs2\<rparr>"
  by (simp add: on_link_def)

lemma sim_with_sc:
  assumes "sim Q n m1 m2"
  shows "sim (on_link Q base) n (with_sc m1) (with_sc m2)"
proof (rule simI)
  fix k s t
  assume r: "on_link Q base (n + k) s t"
  obtain cs1 w1 cs2 w2 where st: "s = (cs1, w1)" "t = (cs2, w2)" by (cases s, cases t)
  have q: "Q (n + k) (sc cs1, w1) (sc cs2, w2)" "cs1 = base\<lparr>sc := sc cs1\<rparr>" "cs2 = base\<lparr>sc := sc cs2\<rparr>"
    using r st by (simp_all add: on_link_apply)
  obtain r s' t' where m: "m1 (sc cs1, w1) = (r, s')" "m2 (sc cs2, w2) = (r, t')" "Q k s' t'" by (rule simD [OF assms q(1)])
  obtain c1 v1 c2 v2 where st': "s' = (c1, v1)" "t' = (c2, v2)" by (cases s', cases t')
  have "cs1\<lparr>sc := c1\<rparr> = base\<lparr>sc := c1\<rparr>" "cs2\<lparr>sc := c2\<rparr> = base\<lparr>sc := c2\<rparr>" using q(2,3) by (metis command_set.update_convs(1) command_set.surjective)+
  then show "fst (with_sc m1 s) = fst (with_sc m2 t) \<and> on_link Q base k (snd (with_sc m1 s)) (snd (with_sc m2 t))"
    using m st st' by (simp add: with_sc_def on_link_apply)
qed

lemma short_path: "KeyPathFromString path = Inr kp \<Longrightarrow> length (kpData kp) \<le> 40"
  by (auto simp: KeyPathFromString_def Let_def returns_iff dest!: parseComponents_length split: if_splits)

text \<open>The commands that come before the channel: they are not protected by it.\<close>

definition greets :: "byte \<Rightarrow> bool" where
  [simp]: "greets ins \<longleftrightarrow> ins = InsOpenSecureChannel \<or> ins = InsPair"

section \<open>The interface\<close>

text \<open>
  \<open>Q n\<close> holds of a channel in its surroundings and of an ideal one, and stays true for \<open>n\<close> more
  exchanges of at most \<open>L\<close> bytes that are not handshakes; the randomness is the same on both sides.
\<close>

locale ideal_link =
  fixes P :: "('sk, 'pk) prims" and env1 :: "('w, 'sk) env" and env2 :: "('v, 'sk) env" and L :: nat
    and Q :: "nat \<Rightarrow> ('sk, 'pk) channel \<times> 'w \<Rightarrow> ('sk, 'pk) channel \<times> 'v \<Rightarrow> bool"
  assumes capacity: "220 \<le> L"
    and link_spend: "Q (Suc n) s t \<Longrightarrow> Q n s t"
    and exchange: "length data \<le> L \<Longrightarrow> \<not> greets ins \<Longrightarrow>
      sim Q 1 (sc_exchange P env1 ClaGp ins p1 p2 data) (sc_exchange P env2 ClaGp ins p1 p2 data)"
    and random: "Q n (ch1, w1) (ch2, w2) \<Longrightarrow>
      \<exists>r w1' w2'. env_rand env1 len w1 = (r, w1') \<and> env_rand env2 len w2 = (r, w2') \<and> Q n (ch1, w1') (ch2, w2')
        \<and> (\<forall>bs. r = Inr bs \<longrightarrow> length bs = len)"
begin

sublocale matching "on_link Q base" for base
  by unfold_locales (auto simp: on_link_def dest: link_spend)

lemma sim_send:
  "length data \<le> L \<Longrightarrow> \<not> greets ins \<Longrightarrow>
   sim (on_link Q base) 1 (sendProtected P env1 ins p1 p2 data) (sendProtected P env2 ins p1 p2 data)"
  unfolding sendProtected_def using sim_with_sc [OF exchange] by (simp add: sc_exchange_def)

lemma sim_call:
  assumes "length data \<le> L" "\<not> greets ins"
  shows "sim (on_link Q base) 1 (call P env1 ins p1 p2 data) (call P env2 ins p1 p2 data)"
    and "sim (on_link Q base) 1 (call_unit P env1 ins p1 p2 data) (call_unit P env2 ins p1 p2 data)"
    and "sim (on_link Q base) 1 (call_parse P env1 ins p1 p2 data f) (call_parse P env2 ins p1 p2 data f)"
  unfolding call_def call_unit_def call_parse_def
  by (intro sim_checked sim_ignore sim_bind_last sim_basic sim_send assms)+

lemma sim_answered: "sim (on_link Q base) n m1 m2 \<Longrightarrow> sim (on_link Q base) n (answered f m1) (answered f m2)"
  by (auto simp: sim_def answered_def)

lemma sim_acknowledged: "sim (on_link Q base) n m1 m2 \<Longrightarrow> sim (on_link Q base) n (acknowledged m1) (acknowledged m2)"
  unfolding acknowledged_def by (rule sim_answered)

lemma sim_path:
  "(\<And>kp. length (kpData kp) \<le> 40 \<Longrightarrow> sim (on_link Q base) n (f kp) (g kp)) \<Longrightarrow>
   sim (on_link Q base) n (bindS (liftS (KeyPathFromString path)) f) (bindS (liftS (KeyPathFromString path)) g)"
  by (rule sim_bind_lift) (simp add: short_path)

end

section \<open>The requests\<close>

definition chunk_count :: "nat \<Rightarrow> nat" where
  "chunk_count n = (n + 219) div 220"

lemma chunk_count_step: "0 < n \<Longrightarrow> chunk_count n = Suc (chunk_count (n - min 220 n))"
  by (cases "n \<le> 220") (auto simp: chunk_count_def le_div_geq)

context ideal_link
begin

lemma sim_rand: "sim (on_link Q base) 0 (worldS (env_rand env1 len)) (worldS (env_rand env2 len))"
proof (rule simI)
  fix k s t
  assume r: "on_link Q base (0 + k) s t"
  obtain cs1 w1 cs2 w2 where st: "s = (cs1, w1)" "t = (cs2, w2)" by (cases s, cases t)
  with r have q: "Q k (sc cs1, w1) (sc cs2, w2)" by (simp add: on_link_apply)
  obtain x w1' w2' where "env_rand env1 len w1 = (x, w1')" "env_rand env2 len w2 = (x, w2')"
      "Q k (sc cs1, w1') (sc cs2, w2')"
    using random [OF q] by blast
  with r st show "fst (worldS (env_rand env1 len) s) = fst (worldS (env_rand env2 len) t)
      \<and> on_link Q base k (snd (worldS (env_rand env1 len) s)) (snd (worldS (env_rand env2 len) t))"
    by (simp add: on_link_apply)
qed

lemma rand_length:
  "on_link Q base k s t \<Longrightarrow> worldS (env_rand env2 len) t = (Inr bs, t') \<Longrightarrow> length bs = len"
  using random [of k _ _ _ _ len] by (cases s, cases t) (fastforce simp: on_link_apply)

lemma sim_identify: "sim (on_link Q base) 1 (Identify P env1) (Identify P env2)"
  unfolding Identify_def
proof (rule sim_bind_post [OF sim_rand rand_length])
  fix challenge :: bytes
  assume "length challenge = 32"
  then show "sim (on_link Q base) 1 (call_parse P env1 InsIdentify 0 0 challenge (VerifyIdentity P challenge))
      (call_parse P env2 InsIdentify 0 0 challenge (VerifyIdentity P challenge))"
    using capacity by (intro sim_call) simp_all
qed

lemma sim_store_chunks:
  assumes "\<And>chunk off. length chunk \<le> 220 \<Longrightarrow> sim (on_link Q base) 1 (store1 chunk off) (store2 chunk off)"
  shows "sim (on_link Q base) (chunk_count (length data - off)) (store_chunks store1 data off) (store_chunks store2 data off)"
proof (induction "length data - off" arbitrary: off rule: less_induct)
  case less
  show ?case
  proof (cases "length data \<le> off")
    case True
    then have "store_chunks store1 data off = returnS ()" "store_chunks store2 data off = returnS ()"
      by (auto simp: store_chunks.simps returnS_def)
    then show ?thesis by (simp add: sim_basic)
  next
    case False
    let ?n = "min 220 (length data - off)" and ?chunk = "gslice off (off + min 220 (length data - off)) data"
    have step: "store_chunks store data off =
        bindS (store ?chunk (of_nat off)) (\<lambda>_. store_chunks store data (off + ?n))" for store :: "bytes \<Rightarrow> u16 \<Rightarrow> ('c, unit) st"
      using False by (intro ext, subst store_chunks.simps) (simp add: bindS_def Let_def)
    have "length ?chunk \<le> 220" by (simp add: gslice_def)
    note now = assms [OF this, of "of_nat off"]
    have "length data - (off + ?n) < length data - off" using False by simp
    note rest = less [OF this]
    have "chunk_count (length data - off) = 1 + chunk_count (length data - (off + ?n))"
      using False chunk_count_step [of "length data - off"] by simp
    then show ?thesis unfolding step using sim_bind [OF now rest] by simp
  qed
qed

lemma sim_ndef:
  assumes "legacy_ndef (applicationInfo base) \<longrightarrow> length ndef \<le> L"
  shows "sim (on_link Q base) ((length ndef + 221) div 220) (SetNDEF P env1 ndef) (SetNDEF P env2 ndef)"
proof (rule simI)
  fix k s t
  assume r: "on_link Q base ((length ndef + 221) div 220 + k) s t"
  obtain cs1 w1 cs2 w2 where st: "s = (cs1, w1)" "t = (cs2, w2)" by (cases s, cases t)
  then have info: "applicationInfo cs1 = applicationInfo base" "applicationInfo cs2 = applicationInfo base"
    using r by (metis (no_types, lifting) on_link_apply command_set.select_convs(2) command_set.surjective command_set.update_convs(1))+
  let ?m = "\<lambda>env. if legacy_ndef (applicationInfo base) then call_unit P env InsSetNDEF 0 0 ndef
    else store_chunks (\<lambda>chunk off. StoreDataWithOffset P env P1StoreDataNDEF chunk off) (ndef_prefixed ndef) 0"
  have m: "SetNDEF P env1 ndef s = ?m env1 s" "SetNDEF P env2 ndef t = ?m env2 t"
    using info st by (auto simp: SetNDEF_def legacy_ndef_def split: option.split)
  have plain_call: "legacy_ndef (applicationInfo base) \<Longrightarrow>
      sim (on_link Q base) 1 (call_unit P env1 InsSetNDEF 0 0 ndef) (call_unit P env2 InsSetNDEF 0 0 ndef)"
    using assms by (intro sim_call) simp_all
  have "chunk_count (length (ndef_prefixed ndef)) \<le> (length ndef + 221) div 220"
    unfolding chunk_count_def ndef_prefixed_def by (intro div_le_mono) simp
  moreover have "sim (on_link Q base) (chunk_count (length (ndef_prefixed ndef) - 0))
      (store_chunks (\<lambda>chunk off. StoreDataWithOffset P env1 P1StoreDataNDEF chunk off) (ndef_prefixed ndef) 0)
      (store_chunks (\<lambda>chunk off. StoreDataWithOffset P env2 P1StoreDataNDEF chunk off) (ndef_prefixed ndef) 0)"
    unfolding StoreDataWithOffset_def using capacity by (intro sim_store_chunks sim_call) simp_all
  moreover have "1 \<le> (length ndef + 221) div 220" by (simp add: Suc_le_eq div_greater_zero_iff)
  ultimately have "sim (on_link Q base) ((length ndef + 221) div 220) (?m env1) (?m env2)"
    using plain_call by (intro sim_if) (auto intro: sim_weaken)
  then obtain x s' t' where x: "?m env1 s = (x, s')" "?m env2 t = (x, t')" "on_link Q base k s' t'"
    using r by (rule simD)
  have "SetNDEF P env1 ndef s = (x, s')" "SetNDEF P env2 ndef t = (x, t')" by (rule trans [OF m(1) x(1)], rule trans [OF m(2) x(2)])
  with x(3) show "fst (SetNDEF P env1 ndef s) = fst (SetNDEF P env2 ndef t)
      \<and> on_link Q base k (snd (SetNDEF P env1 ndef s)) (snd (SetNDEF P env2 ndef t))" by simp
qed

lemma sim_sign_path:
  "sim (on_link Q base) 1 (SignWithPathAndAlgo P env1 data path algo) (SignWithPathAndAlgo P env2 data path algo)"
  unfolding SignWithPathAndAlgo_def Let_def
proof (rule sim_bind_post [where Post = "\<lambda>d. length d \<le> 64"], intro sim_if sim_basic)
  fix d :: bytes
  assume d: "length d \<le> 64"
  show "sim (on_link Q base) 1
      (bindS (liftS (KeyPathFromString path)) (\<lambda>kp. call_parse P env1 InsSign (kpSource kp OR P1SignDerive) algo (d @ kpData kp) (ParseSignature P d)))
      (bindS (liftS (KeyPathFromString path)) (\<lambda>kp. call_parse P env2 InsSign (kpSource kp OR P1SignDerive) algo (d @ kpData kp) (ParseSignature P d)))"
    using d capacity by (intro sim_path sim_call) simp_all
qed (auto split: if_splits)

lemma sim_ecdh_raw:
  "65 + length raw \<le> L \<Longrightarrow> sim (on_link Q base) 1 (ECDHRaw P env1 peer raw) (ECDHRaw P env2 peer raw)"
  unfolding ECDHRaw_def by (intro sim_if sim_basic sim_call) simp_all

lemma sim_ecdh: "sim (on_link Q base) 1 (ECDH P env1 peer path) (ECDH P env2 peer path)"
  unfolding ECDH_def using capacity by (intro sim_path sim_if sim_basic sim_ecdh_raw) simp

lemma sim_path_call:
  assumes "\<And>kp. length (g kp) \<le> length (kpData kp)" "\<not> greets ins"
  shows "sim (on_link Q base) 1
      (bindS (liftS (KeyPathFromString path)) (\<lambda>kp. call_unit P env1 ins (f kp) p2 (g kp)))
      (bindS (liftS (KeyPathFromString path)) (\<lambda>kp. call_unit P env2 ins (f kp) p2 (g kp)))" (is ?unit)
    and "sim (on_link Q base) 1
      (bindS (liftS (KeyPathFromString path)) (\<lambda>kp. call_parse P env1 ins (f kp) p2 (g kp) h))
      (bindS (liftS (KeyPathFromString path)) (\<lambda>kp. call_parse P env2 ins (f kp) p2 (g kp) h))" (is ?parse)
proof -
  have "length (g kp) \<le> L" if "length (kpData kp) \<le> 40" for kp using assms(1) [of kp] capacity that by linarith
  then show ?unit and ?parse using assms(2) by (auto intro!: sim_path sim_call(2,3) simp del: One_nat_def)
qed

lemmas sim_paths = sim_path_call [OF order_refl]

text \<open>A request whose payload fits is matched by itself.\<close>

lemma sim_request:
  assumes "request_fits P L (applicationInfo base) r"
  shows "sim (on_link Q base) (request_cost r) (perform P env1 r) (perform P env2 r)"
proof -
  note ops = CS_GetStatus_def VerifyPIN_def ChangePIN_def UnblockPIN_def ChangePUK_def ChangePairingSecret_def GenerateKey_def
    GenerateMnemonic_def RemoveKey_def DeriveKey_def LoadSeed_def LoadKeyBIP32_def LoadKeyBIP32OmitPublic_def
    loadKeyBIP32Inner_def LoadLEEKey_def ExportKey_def ExportKeyExtended_def ExportKeyWithP2_def ExportCurrentKey_def
    ExportLEEKeyParsed_def ExportLEEKey_def ExportBIP85_def ResetPinlessPath_def
    Sign_def CS_GetData_def CS_StoreData_def StoreDataWithOffset_def GetChallenge_def
  note rules = sim_answered sim_acknowledged sim_paths sim_bind_last sim_if sim_basic sim_map [unfolded Let_def] sim_call sim_send
  show ?thesis
    using assms capacity
  proof (cases r)
    case (SetNdefR ndef)
    then show ?thesis using assms by (simp add: request_cost_def request_fits_def sim_acknowledged sim_ndef)
  next
    case IdentifyR
    then show ?thesis by (simp add: request_cost_def sim_answered sim_identify del: One_nat_def)
  next
    case (EcdhR peer path)
    then show ?thesis by (simp add: request_cost_def sim_answered sim_ecdh del: One_nat_def)
  next
    case (EcdhRawR peer raw)
    then show ?thesis using assms
      by (simp add: request_cost_def request_fits_def sim_answered sim_ecdh_raw del: One_nat_def)
  next
    case (SignWithPathR data path algo)
    then show ?thesis by (simp add: request_cost_def sim_answered sim_sign_path del: One_nat_def)
  next
    case (SignTaprootR hash tweak path)
    then show ?thesis
      by (simp add: request_cost_def SignBIP341Schnorr_def sim_answered sim_if sim_basic sim_sign_path del: One_nat_def)
  next
    case (SetPinlessPathR path)
    then show ?thesis unfolding SetPinlessPathR using capacity
      by (simp add: request_cost_def SetPinlessPath_def sim_acknowledged sim_path sim_if sim_basic sim_call del: One_nat_def)
  qed ((simp only: perform.simps request_cost_def request_fits_def request.case ops Let_def, (intro rules; simp)?)+)
qed

text \<open>So is a sequence of them.\<close>

lemma requests_match:
  assumes "list_all (request_fits P L (applicationInfo base)) rs"
    and "on_link Q base (sum_list (map request_cost rs) + k) s t"
  obtains as s' t' where "perform_all P env1 rs s = (as, s')" "perform_all P env2 rs t = (as, t')" "on_link Q base k s' t'"
  using assms
proof (induction rs arbitrary: s t thesis)
  case Nil
  then show ?case by simp
next
  case (Cons r rs)
  have "sim (on_link Q base) (request_cost r) (perform P env1 r) (perform P env2 r)"
    using Cons.prems(2) by (intro sim_request) simp
  moreover have "on_link Q base (request_cost r + (sum_list (map request_cost rs) + k)) s t"
    using Cons.prems(3) by (simp add: add.assoc)
  ultimately obtain a s1 t1 where one: "perform P env1 r s = (a, s1)" "perform P env2 r t = (a, t1)"
      "on_link Q base (sum_list (map request_cost rs) + k) s1 t1" by (rule simD)
  have "list_all (request_fits P L (applicationInfo base)) rs" using Cons.prems(2) by simp
  then obtain as s' t' where "perform_all P env1 rs s1 = (as, s')" "perform_all P env2 rs t1 = (as, t')" "on_link Q base k s' t'"
    using one(3) by (rule Cons.IH [rotated])
  with one show ?case by (intro Cons.prems(1)) simp_all
qed

end

section \<open>The application, and a channel that is none\<close>

text \<open>The card's application behind a plain reader: it answers every command.\<close>

definition card_application :: "('a, 'sk) env \<Rightarrow> bool" where
  "card_application env \<longleftrightarrow> rand_ok env
     \<and> (\<forall>cmd a. \<exists>r a'. env_send env cmd a = (Inr r, a') \<and> response_wf r \<and> length (RData r) \<le> 65000)"

lemma card_applicationE:
  assumes "card_application env"
  obtains r a' where "env_send env cmd a = (Inr r, a')" "response_wf r" "length (RData r) \<le> 65000"
  using assms unfolding card_application_def by blast

definition plain_channel :: "('sk, 'pk) channel \<Rightarrow> bool" where
  "plain_channel ch \<longleftrightarrow> (case ch of SC1 c \<Rightarrow> \<not> open1 c \<and> \<not> established1 c | SC2 c \<Rightarrow> \<not> open2 c)"

lemma plain_exchange:
  assumes "plain_channel ch" "env_send env (NewCommand cla ins p1 p2 data) w = (Inr r, w')"
  shows "sc_exchange P env cla ins p1 p2 data (ch, w) = (Inr r, ch, w')"
proof (cases ch)
  case (SC1 c)
  then have "\<not> open1 c" "\<not> established1 c" "c\<lparr>open1 := False\<rparr> = c" using assms(1) by (cases c; simp add: plain_channel_def)+
  then show ?thesis using SC1 assms(2)
    by (simp add: sc_exchange_version V1_exchange_def V1_ProtectedCommand_def V1_Transmit_def transmit_via_apply V1_receive_def Let_def)
next
  case (SC2 c)
  then have "\<not> open2 c" "c\<lparr>open2 := False\<rparr> = c" using assms(1) by (cases c; simp add: plain_channel_def)+
  then show ?thesis using SC2 assms(2)
    by (simp add: sc_exchange_version V2_exchange_def V2_ProtectedCommand_def V2_Transmit_def transmit_via_apply V2_receive_def)
qed

text \<open>The application behind a card that speaks a secure channel: OPEN SECURE CHANNEL is answered by
  \<open>greet\<close>; what else arrives over the wire is checked and decrypted by \<open>open_cmd\<close>, and the
  application's answer goes back through \<open>seal\<close>.\<close>

definition behind ::
  "(command \<Rightarrow> ('c, command) st) \<Rightarrow> (bytes \<Rightarrow> ('c, bytes) st) \<Rightarrow> (command \<Rightarrow> ('c, response) st)
    \<Rightarrow> ('a, 'sk) env \<Rightarrow> ('c \<times> 'a, 'sk) env" where
  "behind open_cmd seal greet env =
     \<lparr>env_send = (\<lambda>cmd.
        case over_wire cmd of
          None \<Rightarrow> failS (External ''transmission'')
        | Some rcmd \<Rightarrow>
            if greets (Ins rcmd) then localS (greet rcmd)
            else bindS (localS (open_cmd rcmd)) (\<lambda>plain.
            bindS (worldS (env_send env plain)) (\<lambda>r.
            bindS (localS (seal (response_bytes r))) (\<lambda>wire.
            returnS \<lparr>RData = wire, Sw1 = 0x90, Sw2 = 0, Sw = 0x9000\<rparr>)))),
      env_rand = (\<lambda>n. worldS (env_rand env n)),
      env_key = worldS (env_key env)\<rparr>"

definition open_cmd1 :: "('sk, 'pk) prims \<Rightarrow> command \<Rightarrow> (card1, command) st" where
  "open_cmd1 P cmd =
     bindS (card1_receive P cmd) (\<lambda>data. returnS (NewCommand (Cla cmd) (Ins cmd) (P1 cmd) (P2 cmd) data))"

definition behind1 ::
  "('sk, 'pk) prims \<Rightarrow> (command \<Rightarrow> (card1, response) st) \<Rightarrow> ('a, 'sk) env \<Rightarrow> (card1 \<times> 'a, 'sk) env" where
  "behind1 P = behind (open_cmd1 P) (card1_answer P)"

text \<open>The inner command of version 2: header, length, data.\<close>

definition open_cmd2 :: "('sk, 'pk) prims \<Rightarrow> command \<Rightarrow> (card2, command) st" where
  "open_cmd2 P cmd =
     bindS (readS (\<lambda>c. liftS (card2_receive P cmd c))) (\<lambda>inner.
     returnS (NewCommand (inner ! 0) (inner ! 1) (inner ! 2) (inner ! 3) (drop 5 inner)))"

definition behind2 ::
  "('sk, 'pk) prims \<Rightarrow> (command \<Rightarrow> (card2, response) st) \<Rightarrow> ('a, 'sk) env \<Rightarrow> (card2 \<times> 'a, 'sk) env" where
  "behind2 P = behind (open_cmd2 P) (card2_answer P)"

lemma behind_apply:
  assumes "over_wire cmd = Some rcmd" "\<not> greets (Ins rcmd)" "open_cmd rcmd c = (Inr plain, c1)" "env_send env plain a = (Inr r, a')"
    "seal (response_bytes r) c1 = (Inr wire, c2)"
  shows "env_send (behind open_cmd seal greet env) cmd (c, a) = (Inr \<lparr>RData = wire, Sw1 = 0x90, Sw2 = 0, Sw = 0x9000\<rparr>, c2, a')"
  using assms by (simp add: behind_def bindS_def)

lemma behind_rand: "env_rand (behind open_cmd seal greet env) n (c, a) = (fst (env_rand env n a), c, snd (env_rand env n a))"
  by (simp add: behind_def)

section \<open>Version 1\<close>

definition link1 ::
  "('sk, 'pk) prims \<Rightarrow> ('a, 'sk) env \<Rightarrow> ('sk, 'pk) channel \<Rightarrow> nat
    \<Rightarrow> ('sk, 'pk) channel \<times> card1 \<times> 'a \<Rightarrow> ('sk, 'pk) channel \<times> 'a \<Rightarrow> bool" where
  "link1 P env ch n = (\<lambda>(ch1, c, a) (ch2, a').
     aes_ok P \<and> card_application env \<and> plain_channel ch \<and> ch2 = ch \<and> a' = a
     \<and> (\<exists>s. ch1 = SC1 s \<and> synced1 s c \<and> v1_inv s))"

lemma V1_behind_exchange:
  assumes "aes_ok P" "card_application env" "synced1 s c" "v1_inv s" "length data \<le> 223" "\<not> greets ins"
  obtains r a' s' c' where "env_send env (NewCommand cla ins p1 p2 data) a = (Inr r, a')"
    "V1_exchange P (behind1 P greet env) cla ins p1 p2 data (s, c, a) = (Inr r, s', c', a')" "synced1 s' c'" "v1_inv s'"
proof -
  obtain r a' where r: "env_send env (NewCommand cla ins p1 p2 data) a = (Inr r, a')" "response_wf r"
    by (rule card_applicationE [OF assms(2)])
  obtain wire s1 c1 rwire c2 s2 where x:
    "V1_ProtectedCommand P cla ins p1 p2 data s = (Inr (NewCommand cla ins p1 p2 wire), s1)"
    "wire \<noteq> []" "length wire < 256"
    "card1_receive P (NewCommand cla ins p1 p2 wire) c = (Inr data, c1)"
    "card1_answer P (response_bytes r) c1 = (Inr rwire, c2)"
    "V1_receive P (Inr \<lparr>RData = rwire, Sw1 = 0x90, Sw2 = 0, Sw = 0x9000\<rparr>) s1 = (Inr r, s2)"
    "synced1 s2 c2" "v1_inv s2"
    by (rule V1_exchange_lossless [OF assms(1,3,4,5) r(2)])
  have w: "over_wire (NewCommand cla ins p1 p2 wire) = Some (NewCommand cla ins p1 p2 wire)"
    by (rule over_wire_NewCommand [OF x(2,3)])
  have o: "open_cmd1 P (NewCommand cla ins p1 p2 wire) c = (Inr (NewCommand cla ins p1 p2 data), c1)"
    using x(4) by (simp add: open_cmd1_def NewCommand_def)
  have "env_send (behind1 P greet env) (NewCommand cla ins p1 p2 wire) (c, a) =
      (Inr \<lparr>RData = rwire, Sw1 = 0x90, Sw2 = 0, Sw = 0x9000\<rparr>, c2, a')"
    unfolding behind1_def by (rule behind_apply [where open_cmd = "open_cmd1 P", OF w _ o r(1)]) (use assms(6) x(5) in \<open>simp_all add: NewCommand_def\<close>)
  then have "V1_exchange P (behind1 P greet env) cla ins p1 p2 data (s, c, a) = (Inr r, s2, c2, a')"
    using x(1,6) by (simp add: V1_exchange_def V1_Transmit_def transmit_via_apply)
  with that r(1) x(7,8) show ?thesis by blast
qed

interpretation link1: ideal_link P "behind1 P greet env" env 223 "link1 P env ch"
  for P :: "('sk, 'pk) prims" and greet and env :: "('a, 'sk) env" and ch
proof
  show "(220 :: nat) \<le> 223" by simp
next
  fix n s and t :: "('sk, 'pk) channel \<times> 'a"
  show "link1 P env ch (Suc n) s t \<Longrightarrow> link1 P env ch n s t" by (simp add: link1_def)
next
  fix data :: bytes and ins p1 p2 :: byte
  assume l: "length data \<le> 223" "\<not> greets ins"
  show "sim (link1 P env ch) 1 (sc_exchange P (behind1 P greet env) ClaGp ins p1 p2 data) (sc_exchange P env ClaGp ins p1 p2 data)"
  proof (rule simI)
    fix k s t
    assume "link1 P env ch (1 + k) s t"
    then obtain c a v where st: "s = (SC1 v, c, a)" "t = (ch, a)" "aes_ok P" "card_application env" "plain_channel ch"
        "synced1 v c" "v1_inv v"
      by (cases s, cases t) (auto simp: link1_def)
    obtain r a' v' c' where x: "env_send env (NewCommand ClaGp ins p1 p2 data) a = (Inr r, a')"
        "V1_exchange P (behind1 P greet env) ClaGp ins p1 p2 data (v, c, a) = (Inr r, v', c', a')" "synced1 v' c'" "v1_inv v'"
      by (rule V1_behind_exchange [OF st(3,4,6,7) l])
    have "sc_exchange P (behind1 P greet env) ClaGp ins p1 p2 data s = (Inr r, SC1 v', c', a')"
      using x(2) st(1) by (simp add: sc_exchange_version)
    moreover have "sc_exchange P env ClaGp ins p1 p2 data t = (Inr r, ch, a')"
      using plain_exchange [OF st(5) x(1)] st(2) by simp
    ultimately show "fst (sc_exchange P (behind1 P greet env) ClaGp ins p1 p2 data s) = fst (sc_exchange P env ClaGp ins p1 p2 data t)
        \<and> link1 P env ch k (snd (sc_exchange P (behind1 P greet env) ClaGp ins p1 p2 data s)) (snd (sc_exchange P env ClaGp ins p1 p2 data t))"
      using st x by (simp add: link1_def)
  qed
next
  fix n len w1 and w2 :: 'a and ch1 ch2 :: "('sk, 'pk) channel"
  assume "link1 P env ch n (ch1, w1) (ch2, w2)"
  then show "\<exists>r w1' w2'. env_rand (behind1 P greet env) len w1 = (r, w1') \<and> env_rand env len w2 = (r, w2')
      \<and> link1 P env ch n (ch1, w1') (ch2, w2') \<and> (\<forall>bs. r = Inr bs \<longrightarrow> length bs = len)"
    by (cases w1, cases "env_rand env len w2")
      (auto simp: link1_def behind1_def behind_rand card_application_def rand_ok_def)
qed

section \<open>Version 2\<close>

lemma be_nat_zero_nonce: "be_nat zero_nonce = 0"
proof -
  have "be_nat (replicate n 0) = 0" for n by (induction n) (simp_all add: be_nat_Cons)
  then show ?thesis by (simp add: zero_nonce_def)
qed

definition link2 ::
  "('sk, 'pk) prims \<Rightarrow> ('a, 'sk) env \<Rightarrow> ('sk, 'pk) channel \<Rightarrow> nat
    \<Rightarrow> ('sk, 'pk) channel \<times> card2 \<times> 'a \<Rightarrow> ('sk, 'pk) channel \<times> 'a \<Rightarrow> bool" where
  "link2 P env ch n = (\<lambda>(ch1, c, a) (ch2, a').
     aes_ok P \<and> card_application env \<and> plain_channel ch \<and> ch2 = ch \<and> a' = a
     \<and> (\<exists>s. ch1 = SC2 s \<and> synced2 s c \<and> v2_inv s \<and> open2 s \<and> be_nat (nonceCounter s) + n < 256 ^ 13))"

lemma V2_behind_exchange:
  assumes "aes_ok P" "card_application env" "synced2 s c" "v2_inv s" "open2 s" "length data \<le> 242"
    and "be_nat (nonceCounter s) + Suc n < 256 ^ 13"
  obtains r a' s' c' where "env_send env (NewCommand cla ins p1 p2 data) a = (Inr r, a')"
    "V2_exchange P (behind2 P greet env) cla ins p1 p2 data (s, c, a) = (Inr r, s', c', a')"
    "synced2 s' c'" "v2_inv s'" "open2 s'" "be_nat (nonceCounter s') + n < 256 ^ 13"
proof -
  obtain r a' where r: "env_send env (NewCommand cla ins p1 p2 data) a = (Inr r, a')" "response_wf r" "length (RData r) \<le> 65000"
    by (rule card_applicationE [OF assms(2)])
  have lt: "be_nat (nonceCounter s) + 1 < 256 ^ 13" using assms(7) by linarith
  from V2_exchange_lossless [OF assms(1,4,5,3,6) r(2,3), of cla ins p1 p2] lt
  obtain cmd rwire c' s' where x: "V2_ProtectedCommand P cla ins p1 p2 data s = (Inr cmd, s)" "over_wire cmd = Some cmd" "Ins cmd = InsSecuredAPDU"
    "card2_receive P cmd c = Inr (inner_apdu cla ins p1 p2 data)" "card2_answer P (response_bytes r) c = (Inr rwire, c')"
    "V2_receive P (Inr \<lparr>RData = rwire, Sw1 = 0x90, Sw2 = 0, Sw = 0x9000\<rparr>) s = (Inr r, s')"
    "v2_inv s'" "open2 s'" "synced2 s' c'" by (simp only: if_True) blast
  have o: "open_cmd2 P cmd c = (Inr (NewCommand cla ins p1 p2 data), c)"
    using x(4) by (simp add: open_cmd2_def inner_apdu_def bindS_def)
  have "env_send (behind2 P greet env) cmd (c, a) = (Inr \<lparr>RData = rwire, Sw1 = 0x90, Sw2 = 0, Sw = 0x9000\<rparr>, c', a')"
    unfolding behind2_def by (rule behind_apply [where open_cmd = "open_cmd2 P", OF x(2) _ o r(1)]) (use x(3,5) in simp_all)
  then have e: "V2_exchange P (behind2 P greet env) cla ins p1 p2 data (s, c, a) = (Inr r, s', c', a')"
    using x(1,6) by (simp add: V2_exchange_def V2_Transmit_def transmit_via_apply)
  have "c_nonce c' = be_bytes 13 (be_nat (c_nonce c) + 1)" using x(5) by (auto simp: card2_answer_def)
  then have "be_nat (nonceCounter s') = be_nat (nonceCounter s) + 1"
    using x(9) assms(3) lt by (simp add: synced2_def be_nat_be_bytes)
  then have "be_nat (nonceCounter s') + n < 256 ^ 13" using assms(7) by simp
  with that r(1) e x(7-9) show ?thesis by blast
qed

interpretation link2: ideal_link P "behind2 P greet env" env 242 "link2 P env ch"
  for P :: "('sk, 'pk) prims" and greet and env :: "('a, 'sk) env" and ch
proof
  show "(220 :: nat) \<le> 242" by simp
next
  fix n s and t :: "('sk, 'pk) channel \<times> 'a"
  show "link2 P env ch (Suc n) s t \<Longrightarrow> link2 P env ch n s t" by (auto simp: link2_def)
next
  fix data :: bytes and ins p1 p2 :: byte
  assume l: "length data \<le> 242" "\<not> greets ins"
  show "sim (link2 P env ch) 1 (sc_exchange P (behind2 P greet env) ClaGp ins p1 p2 data) (sc_exchange P env ClaGp ins p1 p2 data)"
  proof (rule simI)
    fix k s t
    assume "link2 P env ch (1 + k) s t"
    then obtain c a v where st: "s = (SC2 v, c, a)" "t = (ch, a)" "aes_ok P" "card_application env" "plain_channel ch"
        "synced2 v c" "v2_inv v" "open2 v" "be_nat (nonceCounter v) + Suc k < 256 ^ 13"
      by (cases s, cases t) (auto simp: link2_def)
    obtain r a' v' c' where x: "env_send env (NewCommand ClaGp ins p1 p2 data) a = (Inr r, a')"
        "V2_exchange P (behind2 P greet env) ClaGp ins p1 p2 data (v, c, a) = (Inr r, v', c', a')"
        "synced2 v' c'" "v2_inv v'" "open2 v'" "be_nat (nonceCounter v') + k < 256 ^ 13"
      by (rule V2_behind_exchange [OF st(3,4,6,7,8) l(1) st(9)])
    have "sc_exchange P (behind2 P greet env) ClaGp ins p1 p2 data s = (Inr r, SC2 v', c', a')"
      using x(2) st(1) by (simp add: sc_exchange_version)
    moreover have "sc_exchange P env ClaGp ins p1 p2 data t = (Inr r, ch, a')"
      using plain_exchange [OF st(5) x(1)] st(2) by simp
    ultimately show "fst (sc_exchange P (behind2 P greet env) ClaGp ins p1 p2 data s) = fst (sc_exchange P env ClaGp ins p1 p2 data t)
        \<and> link2 P env ch k (snd (sc_exchange P (behind2 P greet env) ClaGp ins p1 p2 data s)) (snd (sc_exchange P env ClaGp ins p1 p2 data t))"
      using st x by (simp add: link2_def)
  qed
next
  fix n len w1 and w2 :: 'a and ch1 ch2 :: "('sk, 'pk) channel"
  assume "link2 P env ch n (ch1, w1) (ch2, w2)"
  then show "\<exists>r w1' w2'. env_rand (behind2 P greet env) len w1 = (r, w1') \<and> env_rand env len w2 = (r, w2')
      \<and> link2 P env ch n (ch1, w1') (ch2, w2') \<and> (\<forall>bs. r = Inr bs \<longrightarrow> length bs = len)"
    by (cases w1, cases "env_rand env len w2")
      (auto simp: link2_def behind2_def behind_rand card_application_def rand_ok_def)
qed

section \<open>Transparency\<close>

text \<open>A run over a related pair of channels, with what remains of the link.\<close>

lemma link1_session:
  assumes "on_link (link1 P env ch) cs (sum_list (map request_cost rs) + 0) (cs1, peer, w) (cs2, w)"
    and "list_all (request_fits P 223 (applicationInfo cs)) rs"
  shows "\<exists>answers c' peer' w'.
     perform_all P (behind1 P greet env) rs (cs1, peer, w) = (answers, cs\<lparr>sc := SC1 c'\<rparr>, peer', w')
   \<and> perform_all P env rs (cs2, w) = (answers, cs\<lparr>sc := ch\<rparr>, w')
   \<and> synced1 c' peer' \<and> v1_inv c'"
proof -
  obtain answers s' t' where m: "perform_all P (behind1 P greet env) rs (cs1, peer, w) = (answers, s')"
      "perform_all P env rs (cs2, w) = (answers, t')" "on_link (link1 P env ch) cs 0 s' t'"
    by (rule link1.requests_match [OF assms(2,1)])
  moreover obtain d1 peer' w' d2 w2 where st: "s' = (d1, peer', w')" "t' = (d2, w2)" by (cases s', cases t')
  moreover from m(3) st obtain c' where "sc d1 = SC1 c'" "d1 = cs\<lparr>sc := SC1 c'\<rparr>" "d2 = cs\<lparr>sc := ch\<rparr>" "w2 = w'"
      "synced1 c' peer'" "v1_inv c'"
    by (auto simp: on_link_apply link1_def)
  ultimately show ?thesis by blast
qed

lemma link2_session:
  assumes "on_link (link2 P env ch) cs (sum_list (map request_cost rs) + 0) (cs1, peer, w) (cs2, w)"
    and "list_all (request_fits P 242 (applicationInfo cs)) rs"
  shows "\<exists>answers c' peer' w'.
     perform_all P (behind2 P greet env) rs (cs1, peer, w) = (answers, cs\<lparr>sc := SC2 c'\<rparr>, peer', w')
   \<and> perform_all P env rs (cs2, w) = (answers, cs\<lparr>sc := ch\<rparr>, w')
   \<and> synced2 c' peer' \<and> v2_inv c' \<and> open2 c'"
proof -
  obtain answers s' t' where m: "perform_all P (behind2 P greet env) rs (cs1, peer, w) = (answers, s')"
      "perform_all P env rs (cs2, w) = (answers, t')" "on_link (link2 P env ch) cs 0 s' t'"
    by (rule link2.requests_match [OF assms(2,1)])
  moreover obtain d1 peer' w' d2 w2 where st: "s' = (d1, peer', w')" "t' = (d2, w2)" by (cases s', cases t')
  moreover from m(3) st obtain c' where "sc d1 = SC2 c'" "d1 = cs\<lparr>sc := SC2 c'\<rparr>" "d2 = cs\<lparr>sc := ch\<rparr>" "w2 = w'"
      "synced2 c' peer'" "v2_inv c'" "open2 c'"
    by (auto simp: on_link_apply link2_def)
  ultimately show ?thesis by blast
qed

text \<open>C6. An open version-1 channel is transparent: with a card that shares the session keys and IV, every
  sequence of requests whose payloads fit 223 bytes gets exactly the answers, errors included,
  that the same client would get from the card's application over a plain reader; the
  application ends in the same state, and client and card are in step again.\<close>

theorem CommandSet_transparent_V1:
  assumes "aes_ok P" "card_application env" "sc cs = SC1 c" "synced1 c peer" "v1_inv c" "plain_channel ch"
    and "list_all (request_fits P 223 (applicationInfo cs)) rs"
  shows "\<exists>answers c' peer' w'.
     perform_all P (behind1 P greet env) rs (cs, peer, w) = (answers, cs\<lparr>sc := SC1 c'\<rparr>, peer', w')
   \<and> perform_all P env rs (cs\<lparr>sc := ch\<rparr>, w) = (answers, cs\<lparr>sc := ch\<rparr>, w')
   \<and> synced1 c' peer' \<and> v1_inv c'"
proof -
  have "on_link (link1 P env ch) cs (sum_list (map request_cost rs) + 0) (cs, peer, w) (cs\<lparr>sc := ch\<rparr>, w)"
    using assms(1-6) by (simp add: on_link_apply link1_def)
  from link1_session [OF this assms(7)] show ?thesis .
qed

text \<open>An application that counts its commands, for the witnesses.\<close>

definition counter_app :: "(nat, unit) env" where
  "counter_app = \<lparr>env_send = (\<lambda>cmd n. (Inr \<lparr>RData = [of_nat n, Ins cmd], Sw1 = 0x90, Sw2 = 0, Sw = 0x9000\<rparr>, n + 1)),
     env_rand = (\<lambda>n. returnS (replicate n 0)), env_key = returnS ()\<rparr>"

lemma counter_app_ok: "card_application counter_app"
  by (simp add: card_application_def counter_app_def rand_ok_def response_wf_def)

definition toy_set :: "(unit, unit) channel \<Rightarrow> (unit, unit) command_set" where
  "toy_set ch = (NewCommandSetWithCA [] :: (unit, unit) command_set)\<lparr>sc := ch\<rparr>"

definition toy_open1 :: "unit sc1" where
  "toy_open1 = V1_Init (replicate 16 1) (replicate 32 2) (replicate 32 3) NewSecureChannel"

theorem CommandSet_transparent_V1_witness:
  "\<exists>answers c' peer' w'.
     perform_all toy_prims (behind1 toy_prims (\<lambda>_. failS EOF) counter_app) [VerifyPinR [1, 2, 3], IdentifyR, ExportLeeKeyR ''m/0'']
       (toy_set (SC1 toy_open1),
        \<lparr>c_enc = replicate 32 2, c_mac = replicate 32 3, c_iv = replicate 16 1\<rparr>, 0)
       = (answers, toy_set (SC1 toy_open1)\<lparr>sc := SC1 c'\<rparr>, peer', w')
   \<and> perform_all toy_prims counter_app [VerifyPinR [1, 2, 3], IdentifyR, ExportLeeKeyR ''m/0'']
       (toy_set (SC1 toy_open1)\<lparr>sc := SC1 NewSecureChannel\<rparr>, 0)
       = (answers, toy_set (SC1 toy_open1)\<lparr>sc := SC1 NewSecureChannel\<rparr>, w')
   \<and> synced1 c' peer' \<and> v1_inv c'"
  by (rule CommandSet_transparent_V1 [where c = toy_open1])
    (simp_all add: counter_app_ok toy_set_def toy_open1_def synced1_def v1_inv_def V1_Init_def NewSecureChannel_def
      plain_channel_def request_fits_def)

text \<open>C7. So is an open version-2 channel, for payloads of at most 242 bytes and as many exchanges as the
  13-byte counter has left.\<close>

theorem CommandSet_transparent_V2:
  assumes "aes_ok P" "card_application env" "sc cs = SC2 c" "synced2 c peer" "v2_inv c" "open2 c" "plain_channel ch"
    and "list_all (request_fits P 242 (applicationInfo cs)) rs"
    and "be_nat (nonceCounter c) + sum_list (map request_cost rs) < 256 ^ 13"
  shows "\<exists>answers c' peer' w'.
     perform_all P (behind2 P greet env) rs (cs, peer, w) = (answers, cs\<lparr>sc := SC2 c'\<rparr>, peer', w')
   \<and> perform_all P env rs (cs\<lparr>sc := ch\<rparr>, w) = (answers, cs\<lparr>sc := ch\<rparr>, w')
   \<and> synced2 c' peer' \<and> v2_inv c' \<and> open2 c'"
proof -
  have "on_link (link2 P env ch) cs (sum_list (map request_cost rs) + 0) (cs, peer, w) (cs\<lparr>sc := ch\<rparr>, w)"
    using assms(1-7,9) by (simp add: on_link_apply link2_def)
  from link2_session [OF this assms(8)] show ?thesis .
qed

theorem CommandSet_transparent_V2_witness:
  "\<exists>answers c' peer' w'.
     perform_all toy_prims (behind2 toy_prims (\<lambda>_. failS EOF) counter_app) [ChangePinR [1, 2, 3], SetNdefR (replicate 5 7), SignR (replicate 32 0)]
       (toy_set (SC2 toy_open2), \<lparr>c_h2c = replicate 16 1, c_c2h = replicate 16 2, c_nonce = zero_nonce\<rparr>, 0)
       = (answers, toy_set (SC2 toy_open2)\<lparr>sc := SC2 c'\<rparr>, peer', w')
   \<and> perform_all toy_prims counter_app [ChangePinR [1, 2, 3], SetNdefR (replicate 5 7), SignR (replicate 32 0)]
       (toy_set (SC2 toy_open2)\<lparr>sc := SC1 NewSecureChannel\<rparr>, 0)
       = (answers, toy_set (SC2 toy_open2)\<lparr>sc := SC1 NewSecureChannel\<rparr>, w')
   \<and> synced2 c' peer' \<and> v2_inv c' \<and> open2 c'"
proof (rule CommandSet_transparent_V2 [where c = toy_open2])
  show "be_nat (nonceCounter toy_open2)
      + sum_list (map request_cost [ChangePinR [1, 2, 3], SetNdefR (replicate 5 7), SignR (replicate 32 0)]) < 256 ^ 13"
    by (simp add: toy_open2_def toy_sc2_def NewSecureChannelV2_def request_cost_def be_nat_zero_nonce)
qed (simp_all add: counter_app_ok toy_set_def synced2_def toy_open2_def toy_sc2_def NewSecureChannelV2_def
  NewSecureChannel_def v2_inv_def zero_nonce_def plain_channel_def request_fits_def)

end
