(* ===== verification/Honest_Card.thy ===== *)
theory Honest_Card
  imports Ideal_Card Command_Set_Props Command_Set_Flows
begin

text \<open>
  The handshakes against a card that follows the protocol: opening a channel puts client and card
  in step, so that the requests behind it are those of a plain connection. The card's answers to
  OPEN SECURE CHANNEL are written from the message formats; its randomness is arbitrary.
\<close>

section \<open>Curve and signatures\<close>

text \<open>Encodings of public keys invert, and the Diffie-Hellman secret is the same on both sides.\<close>

definition ec_ok :: "('sk, 'pk) prims \<Rightarrow> bool" where
  "ec_ok P \<longleftrightarrow> (\<forall>k. ec_unmarshal P (ec_marshal P k) = Inr k \<and> length (ec_marshal P k) = 65)
     \<and> (\<forall>k. ec_decompress P (ec_compress P k) = Inr k)
     \<and> (\<forall>a b. ec_mult_x P a (ec_public P b) = ec_mult_x P b (ec_public P a))"

lemma ec_okD:
  assumes "ec_ok P"
  shows "ec_unmarshal P (ec_marshal P k) = Inr k" "length (ec_marshal P k) = 65" "ec_decompress P (ec_compress P k) = Inr k"
    "GenerateECDHSharedSecret P a (ec_public P b) = GenerateECDHSharedSecret P b (ec_public P a)"
  using assms by (simp_all add: ec_ok_def GenerateECDHSharedSecret_def)

text \<open>A card signs a 32-byte hash with the DER form of two numbers below \<open>2 ^ 256\<close>, sign bytes where the
  numbers need them; with one of the four recovery ids the numbers, in 32 bytes each, give the signer's key.\<close>

definition der_signs :: "('sk, 'pk) prims \<Rightarrow> 'sk \<Rightarrow> bool" where
  "der_signs P sk \<longleftrightarrow> (\<forall>hash. length hash = 32 \<longrightarrow>
     (\<exists>r s v. 0 < r \<and> r < 2 ^ 256 \<and> 0 < s \<and> s < 2 ^ 256 \<and> v \<le> 3 \<and> ec_sign_der P sk hash = der_ecdsa r s
        \<and> ecrecover P hash (be_bytes 32 r @ be_bytes 32 s @ [of_nat v]) = Inr (ec_marshal P (ec_public P sk))))"

lemma der_signsE:
  assumes "der_signs P sk" "length hash = 32"
  obtains r s v where "2 \<le> length (ec_sign_der P sk hash)" "parseDERSignature (ec_sign_der P sk hash) = Inr (r, s)"
    "v \<le> 3" "ecrecover P hash (r @ s @ [of_nat v]) = Inr (ec_marshal P (ec_public P sk))"
proof -
  from assms obtain r s v where rs: "0 < r" "r < 2 ^ 256" "0 < s" "s < 2 ^ 256" "v \<le> 3"
      "ec_sign_der P sk hash = der_ecdsa r s"
      "ecrecover P hash (be_bytes 32 r @ be_bytes 32 s @ [of_nat v]) = Inr (ec_marshal P (ec_public P sk))"
    unfolding der_signs_def by blast
  have "2 \<le> length (der_ecdsa r s)" using rs(1-4) by (intro der_ecdsa_tlv(2) der_scalar_der_int)
  with rs parseDERSignature_der_ecdsa [OF rs(1-4)] show ?thesis by (intro that [of "be_bytes 32 r" "be_bytes 32 s" v]) simp_all
qed

definition hkdf_ok :: "('sk, 'pk) prims \<Rightarrow> bool" where
  "hkdf_ok P \<longleftrightarrow> (\<forall>ikm salt info. \<exists>okm. hkdf_sha256 P ikm salt info 32 = Inr okm \<and> length okm = 32)"

lemma behind_greet:
  assumes "over_wire cmd = Some cmd" "greets (Ins cmd)" "greet cmd c = (r, c')"
  shows "env_send (behind open_cmd seal greet env) cmd (c, a) = (r, c', a)"
  using assms by (simp add: behind_def)

section \<open>Version 1\<close>

text \<open>A card: its key, the pairing key of each index, its answer to OPEN SECURE CHANNEL (the salt and the
  first IV), and for pairing its secret, the challenge it picks, and the index and salt of the new pairing.\<close>

record 'sk honest1 =
  h_key :: 'sk
  h_pairings :: "byte \<Rightarrow> bytes"
  h_hello :: bytes
  h_secret :: bytes
  h_challenge :: bytes
  h_index :: byte
  h_salt :: bytes

definition honest1_ok :: "('sk, 'pk) prims \<Rightarrow> 'sk honest1 \<Rightarrow> bool" where
  "honest1_ok P h \<longleftrightarrow> length (h_hello h) = 48 \<and> length (h_challenge h) = 32 \<and> length (h_salt h) = 32
     \<and> h_pairings h (h_index h) = sha256 P (h_secret h @ h_salt h)"

text \<open>Both sides prove the pairing secret to each other before the card gives the salt of the pairing key.\<close>

definition pair_answer :: "('sk, 'pk) prims \<Rightarrow> 'sk honest1 \<Rightarrow> command \<Rightarrow> response" where
  "pair_answer P h cmd =
     (if P1 cmd = P1PairingFirstStep then with_status (sha256 P (h_secret h @ CData cmd) @ h_challenge h) 0x90 0
      else if CData cmd = sha256 P (h_secret h @ h_challenge h) then with_status (h_index h # h_salt h) 0x90 0
      else with_status [] 0x69 0x82)"

text \<open>The session keys come from the shared secret, the pairing key at the index and the salt.\<close>

definition greet1 :: "('sk, 'pk) prims \<Rightarrow> 'sk honest1 \<Rightarrow> command \<Rightarrow> (card1, response) st" where
  "greet1 P h cmd = (\<lambda>c.
     if Ins cmd = InsPair then (Inr (pair_answer P h cmd), c)
     else case ec_unmarshal P (CData cmd) of
       Inl _ \<Rightarrow> (Inr (with_status [] 0x6A 0x80), c)
     | Inr pub \<Rightarrow>
         let keys = sha512 P (GenerateECDHSharedSecret P (h_key h) pub @ h_pairings h (P1 cmd) @ take 32 (h_hello h))
         in (Inr (with_status (h_hello h) 0x90 0), \<lparr>c_enc = take 32 keys, c_mac = drop 32 keys, c_iv = drop 32 (h_hello h)\<rparr>))"

text \<open>A client that has selected this card, and one that is paired with it.\<close>

definition agreed_with :: "('sk, 'pk) prims \<Rightarrow> 'sk honest1 \<Rightarrow> 'pk sc1 \<Rightarrow> bool" where
  "agreed_with P h s \<longleftrightarrow> (\<exists>k. publicKey1 s = Some (ec_public P k)
     \<and> secret1 s = Some (GenerateECDHSharedSecret P k (ec_public P (h_key h))))"

definition paired_with :: "('sk, 'pk) prims \<Rightarrow> 'sk honest1 \<Rightarrow> 'pk sc1 \<Rightarrow> bool" where
  "paired_with P h s \<longleftrightarrow> agreed_with P h s \<and> (\<exists>p. pairing1 s = Some p \<and> pairingKey p = h_pairings h (pairingIndex p))"

text \<open>The application's answer to MUTUALLY AUTHENTICATE.\<close>

definition authenticates :: "('a, 'sk) env \<Rightarrow> bool" where
  "authenticates env \<longleftrightarrow> (\<forall>data a r a'. env_send env (NewCommand ClaGp InsMutuallyAuthenticate 0 0 data) a = (Inr r, a') \<longrightarrow>
     Sw r = SwOK \<and> length (RData r) = 32)"

lemma V1_authenticate:
  assumes "aes_ok P" "card_application env" "authenticates env" "env_rand env 32 a = (Inr ch, a1)" "synced1 s c" "v1_inv s"
  obtains r s' c' a' where "V1_MutuallyAuthenticate P (behind1 P greet env) (s, c, a) = (Inr r, s', c', a')"
    "synced1 s' c'" "v1_inv s'"
proof -
  have "length ch = 32" using assms(2,4) by (auto simp: card_application_def rand_ok_def)
  then have l: "length ch \<le> 223" by simp
  have i: "\<not> greets InsMutuallyAuthenticate" by simp
  obtain r a' s' c' where x: "env_send env (NewCommand ClaGp InsMutuallyAuthenticate 0 0 ch) a1 = (Inr r, a')"
    "V1_exchange P (behind1 P greet env) ClaGp InsMutuallyAuthenticate 0 0 ch (s, c, a1) = (Inr r, s', c', a')"
    "synced1 s' c'" "v1_inv s'"
    by (rule V1_behind_exchange [OF assms(1,2,5,6) l i])
  have r: "Sw r = SwOK" "length (RData r) = 32" using assms(3) x(1) unfolding authenticates_def by blast+
  have "env_rand (behind1 P greet env) 32 (c, a) = (Inr ch, c, a1)" using assms(4) by (simp add: behind1_def behind_rand)
  then have "V1_MutuallyAuthenticate P (behind1 P greet env) (s, c, a) = (Inr r, s', c', a')"
    using x(2) r unfolding V1_MutuallyAuthenticate_def by (simp add: bindS_def expect_ok_def)
  with that x(3,4) show ?thesis by blast
qed

lemma V1_opens:
  assumes "aes_ok P" "hashes_ok P" "ec_ok P" "card_application env" "authenticates env" "env_rand env 32 a = (Inr ch, a1)"
    and "paired_with P h s" "honest1_ok P h"
  obtains s' c' a' where "V1_AutoOpen P (behind1 P (greet1 P h) env) (s, c, a) = (Inr (), s', c', a')"
    "open1 s'" "established1 s'" "synced1 s' c'" "v1_inv s'"
proof -
  let ?env = "behind1 P (greet1 P h) env"
  have hl: "length (h_hello h) = 48" using assms(8) by (simp add: honest1_ok_def)
  obtain k p where s: "publicKey1 s = Some (ec_public P k)" "secret1 s = Some (GenerateECDHSharedSecret P k (ec_public P (h_key h)))"
      "pairing1 s = Some p" "pairingKey p = h_pairings h (pairingIndex p)"
    using assms(7) by (auto simp: paired_with_def agreed_with_def)
  define keys where "keys = sha512 P (GenerateECDHSharedSecret P (h_key h) (ec_public P k) @ h_pairings h (pairingIndex p) @ take 32 (h_hello h))"
  have kl: "length keys = 64" using assms(2) by (simp add: keys_def hashes_ok_def)
  define c1 where "c1 = \<lparr>c_enc = take 32 keys, c_mac = drop 32 keys, c_iv = drop 32 (h_hello h)\<rparr>"
  define s1 where "s1 = s\<lparr>open1 := True, encKey1 := Some (take 32 keys), macKey1 := Some (drop 32 keys), iv1 := drop 32 (h_hello h)\<rparr>"
  let ?cmd = "NewCommand ClaGp InsOpenSecureChannel (pairingIndex p) 0 (ec_marshal P (ec_public P k))"
  have "greet1 P h ?cmd c = (Inr (with_status (h_hello h) 0x90 0), c1)"
    using ec_okD [OF assms(3)] by (simp add: greet1_def NewCommand_def c1_def keys_def Let_def)
  moreover have "over_wire ?cmd = Some ?cmd"
    using ec_okD(2) [OF assms(3), of "ec_public P k"] by (intro over_wire_NewCommand) auto
  ultimately have sent: "env_send ?env ?cmd (c, a) = (Inr (with_status (h_hello h) 0x90 0), c1, a)"
    unfolding behind1_def by (intro behind_greet) (simp_all add: NewCommand_def)
  have "DeriveSessionKeys P (GenerateECDHSharedSecret P k (ec_public P (h_key h))) (pairingKey p) (h_hello h)
      = Inr (take 32 keys, drop 32 keys, drop 32 (h_hello h))"
    using hl s(4) ec_okD(4) [OF assms(3), of k "h_key h"]
    by (simp add: DeriveSessionKeys_def sessionDataSize_def sessionSaltSize_def keys_def Let_def)
  then have opened: "V1_processOpenResponse P (h_hello h) (s\<lparr>open1 := False\<rparr>) = (Inr (), s1)"
    using s(2,3) by (simp add: V1_processOpenResponse_def s1_def)
  have sync: "synced1 s1 c1" "v1_inv s1" using kl hl by (simp_all add: synced1_def s1_def c1_def v1_inv_def)
  obtain r s2 c2 a2 where auth: "V1_MutuallyAuthenticate P ?env (s1, c1, a) = (Inr r, s2, c2, a2)" "synced1 s2 c2" "v1_inv s2"
    by (rule V1_authenticate [OF assms(1,4-6) sync])
  have "V1_AutoOpen P ?env (s, c, a) = (Inr (), s2\<lparr>established1 := True\<rparr>, c2, a2)"
    using s sent opened auth(1)
    by (simp add: V1_AutoOpen_def V1_OpenSecureChannel_def RawPublicKey_def bindS_def expect_ok_def)
  moreover have "open1 (s2\<lparr>established1 := True\<rparr>)" "synced1 (s2\<lparr>established1 := True\<rparr>) c2" "v1_inv (s2\<lparr>established1 := True\<rparr>)"
    using auth(2,3) by (simp_all add: synced1_def v1_inv_def)
  ultimately show ?thesis by (intro that) simp_all
qed

section \<open>Version 2\<close>

text \<open>The card answers with its ephemeral key and its signature over label, salt and both keys, and
  derives the two keys as the client does.\<close>

definition greet2 :: "('sk, 'pk) prims \<Rightarrow> 'sk \<Rightarrow> 'sk \<Rightarrow> command \<Rightarrow> (card2, response) st" where
  "greet2 P ident eph cmd = (\<lambda>c.
     let salt = take 32 (CData cmd); clientPub = drop 32 (CData cmd); cardPub = ec_marshal P (ec_public P eph) in
     case ec_unmarshal P clientPub of
       Inl _ \<Rightarrow> (Inr (with_status [] 0x6A 0x80), c)
     | Inr pub \<Rightarrow>
         (case hkdfDerive P scV2ProtocolLabel salt (GenerateECDHSharedSecret P eph pub) of
            Inl _ \<Rightarrow> (Inr (with_status [] 0x6F 0), c)
          | Inr okm \<Rightarrow>
              (Inr (with_status (cardPub @ ec_sign_der P ident (sha256 P (scV2ProtocolLabel @ salt @ clientPub @ cardPub))) 0x90 0),
               \<lparr>c_h2c = take 16 okm, c_c2h = drop 16 okm, c_nonce = zero_nonce\<rparr>)))"

text \<open>The client knows the card's identity key, from the certificate.\<close>

definition knows_card :: "('sk, 'pk) prims \<Rightarrow> 'sk \<Rightarrow> 'sk sc2 \<Rightarrow> bool" where
  "knows_card P ident s \<longleftrightarrow> cardIdentPub s = Some (ec_compress P (ec_public P ident))"

lemma recover_from_finds:
  assumes "ec_unmarshal P (ec_marshal P expd) = Inr expd" "ecrecover P hash (r @ s @ [of_nat k]) = Inr (ec_marshal P expd)" "k \<le> 3"
  shows "v \<le> k \<Longrightarrow> recover_from P hash r s expd v = Inr expd"
proof (induction "k - v" arbitrary: v)
  case 0
  then have "v = k" by simp
  then show ?case using assms by (subst recover_from.simps) simp
next
  case (Suc n)
  then have "n = k - (v + 1)" "v + 1 \<le> k" by simp_all
  then have IH: "recover_from P hash r s expd (v + 1) = Inr expd" by (rule Suc.hyps(1))
  then show ?case using assms(1,3) Suc.hyps(2)
    by (subst recover_from.simps) (auto split: sum.split)
qed

lemma verifies_honest:
  assumes "ec_ok P" "hashes_ok P" "der_signs P ident" "knows_card P ident chan"
    and "sig = ec_sign_der P ident (sha256 P (scV2ProtocolLabel @ salt @ ec_marshal P pub @ ec_marshal P cardPub))"
  shows "verifyCardSignature P salt pub cardPub sig chan = Inr ()"
proof -
  let ?hash = "sha256 P (scV2ProtocolLabel @ salt @ ec_marshal P pub @ ec_marshal P cardPub)"
  have "length ?hash = 32" using assms(2) by (simp add: hashes_ok_def)
  then obtain r s v where sig: "parseDERSignature sig = Inr (r, s)" "v \<le> 3"
      "ecrecover P ?hash (r @ s @ [of_nat v]) = Inr (ec_marshal P (ec_public P ident))"
    using der_signsE [OF assms(3)] assms(5) by blast
  have "recover_from P ?hash r s (ec_public P ident) 0 = Inr (ec_public P ident)"
    using ec_okD(1) [OF assms(1)] sig(2,3) by (intro recover_from_finds) simp_all
  then show ?thesis
    using assms(4) sig(1) ec_okD(3) [OF assms(1)]
    by (simp add: verifyCardSignature_def knows_card_def verifySignatureByRecovery_def Let_def)
qed

lemma V2_opens:
  assumes "aes_ok P" "hashes_ok P" "ec_ok P" "hkdf_ok P" "der_signs P ident" "card_application env"
    and "env_rand env 32 a = (Inr salt, a1)" "env_key env a1 = (Inr priv, a2)" "knows_card P ident s"
  obtains s' c' where "V2_AutoOpen P (behind2 P (greet2 P ident eph) env) (s, c, a) = (Inr (), s', c', a2)"
    "open2 s'" "synced2 s' c'" "v2_inv s'" "nonceCounter s' = zero_nonce"
proof -
  let ?env = "behind2 P (greet2 P ident eph) env"
  let ?pub = "ec_marshal P (ec_public P priv)" and ?cardPub = "ec_marshal P (ec_public P eph)"
  have sl: "length salt = 32" using assms(6,7) by (auto simp: card_application_def rand_ok_def)
  have dh: "GenerateECDHSharedSecret P priv (ec_public P eph) = GenerateECDHSharedSecret P eph (ec_public P priv)"
    by (rule ec_okD(4) [OF assms(3)])
  obtain okm where okm: "hkdfDerive P scV2ProtocolLabel salt (GenerateECDHSharedSecret P eph (ec_public P priv)) = Inr okm" "length okm = 32"
    using assms(4) by (auto simp: hkdf_ok_def hkdfDerive_def HKDFDerive_def) (metis wrapE_simps(2))
  define sig where "sig = ec_sign_der P ident (sha256 P (scV2ProtocolLabel @ salt @ ?pub @ ?cardPub))"
  have gl: "2 \<le> length sig" using assms(2) der_signsE [OF assms(5)] unfolding sig_def hashes_ok_def by blast
  define c1 where "c1 = \<lparr>c_h2c = take 16 okm, c_c2h = drop 16 okm, c_nonce = zero_nonce\<rparr>"
  define s1 where "s1 = s\<lparr>open2 := False, clientEphPrivKey := Some priv\<rparr>"
  define s2 where "s2 = s1\<lparr>keyH2C := Some (take 16 okm), keyC2H := Some (drop 16 okm)\<rparr>"
  let ?cmd = "NewCommand ClaGp InsOpenSecureChannel 0 0 (salt @ ?pub)"
  have "greet2 P ident eph ?cmd c = (Inr (with_status (?cardPub @ sig) 0x90 0), c1)"
    using ec_okD(1) [OF assms(3)] okm(1) sl by (simp add: greet2_def NewCommand_def c1_def sig_def Let_def)
  moreover have "over_wire ?cmd = Some ?cmd"
    using ec_okD(2) [OF assms(3), of "ec_public P priv"] sl by (intro over_wire_NewCommand) auto
  ultimately have sent: "env_send ?env ?cmd (c, a2) = (Inr (with_status (?cardPub @ sig) 0x90 0), c1, a2)"
    unfolding behind2_def by (intro behind_greet) (simp_all add: NewCommand_def)
  have "verifyCardSignature P salt (ec_public P priv) (ec_public P eph) sig s2 = Inr ()"
    by (rule verifies_honest [OF assms(3,2,5) _ sig_def]) (use assms(9) in \<open>simp add: knows_card_def s2_def s1_def\<close>)
  moreover have "gcopy 16 (take 16 okm) = take 16 okm" "gcopy 16 (drop 16 okm) = drop 16 okm" using okm(2) by simp_all
  ultimately have finished: "processHandshakeResponse P salt priv (?cardPub @ sig) s1 = (Inr (), s2\<lparr>nonceCounter := zero_nonce, open2 := True\<rparr>)"
    using ec_okD(1,2) [OF assms(3)] okm(1) gl dh by (simp add: processHandshakeResponse_def Let_def s2_def)
  have "V2_AutoOpen P ?env (s, c, a) = (Inr (), s2\<lparr>nonceCounter := zero_nonce, open2 := True\<rparr>, c1, a2)"
    using assms(7,8) sent finished
    by (simp add: V2_AutoOpen_def behind2_def behind_def s1_def bindS_def Let_def)
  moreover have "synced2 (s2\<lparr>nonceCounter := zero_nonce, open2 := True\<rparr>) c1" "v2_inv (s2\<lparr>nonceCounter := zero_nonce, open2 := True\<rparr>)"
    using okm(2) by (simp_all add: synced2_def s2_def c1_def v2_inv_def zero_nonce_def)
  moreover have "nonceCounter (s2\<lparr>nonceCounter := zero_nonce, open2 := True\<rparr>) = zero_nonce" by simp
  moreover have "open2 (s2\<lparr>nonceCounter := zero_nonce, open2 := True\<rparr>)" by simp
  ultimately show ?thesis by (intro that)
qed

section \<open>After selection\<close>

text \<open>What a successful selection leaves is what opening asks for: a version-1 card sent its public key
  (pairing data are then set or come from pairing), or a version-2 card sent a certificate of its identity key.\<close>

lemma selected_agreed:
  assumes "ec_ok P" "fresh_v1 P (ec_marshal P (ec_public P (h_key h))) s"
  shows "agreed_with P h s"
proof -
  obtain k where "s = NewSecureChannel\<lparr>publicKey1 := Some (ec_public P k),
      secret1 := Some (GenerateECDHSharedSecret P k (ec_public P (h_key h)))\<rparr>"
    using assms(2) ec_okD(1) [OF assms(1)] by (auto simp: fresh_v1_def)
  then show ?thesis by (auto simp: agreed_with_def)
qed

lemma selected_knows:
  assumes "fresh_v2 P cas cards certData s" "ParseCertificate P certData = Inr cert" "certData \<noteq> []"
    and "IdentPub cert = ec_compress P (ec_public P ident)"
  shows "knows_card P ident s"
  using assms by (auto simp: fresh_v2_def knows_card_def NewSecureChannelV2_def)

section \<open>Pairing\<close>

lemma pairing_step:
  assumes "\<not> open1 s" "length data = 32"
  shows "V1_Pair P (behind1 P (greet1 P h) env) p1 p2 data (s, peer, w) = (Inr (pair_answer P h (NewCommand ClaGp InsPair p1 p2 data)), s, peer, w)"
proof -
  let ?cmd = "NewCommand ClaGp InsPair p1 p2 data"
  have "env_send (behind1 P (greet1 P h) env) ?cmd (peer, w) = (Inr (pair_answer P h ?cmd), peer, w)"
    unfolding behind1_def using assms(2)
    by (intro behind_greet over_wire_NewCommand) (auto simp: NewCommand_def greet1_def)
  then show ?thesis by (simp only: V1_Pair_closed [OF assms(1)] fst_conv snd_conv)
qed

text \<open>C3. Pairing with an honest card, over a channel that is closed, as it is after \<open>Select\<close>: with the
  card's pairing password it succeeds, and the client then
  holds the pairing key that the card has at the index it gave; with another one the client
  refuses the card and keeps its state, unless the hashes collide. So a client that selected the
  card and paired can open sessions with it.\<close>

theorem paired_with_honest_card:
  assumes "hashes_ok P" "honest1_ok P h" "rand_ok env" "env_rand env 32 w = (Inr ch, w1)"
    and "sc cs = SC1 s" "\<not> open1 s" "agreed_with P h s"
  shows "(PairingPasswordToSecret P pass = h_secret h \<longrightarrow>
      (\<exists>s'. AutoPairWithMode P (behind1 P (greet1 P h) env) pass mode (cs, peer, w) = (Inr (), cs\<lparr>sc := SC1 s'\<rparr>, peer, w1)
        \<and> paired_with P h s'))
    \<and> (sha256 P (PairingPasswordToSecret P pass @ ch) \<noteq> sha256 P (h_secret h @ ch) \<longrightarrow>
      (\<exists>e. AutoPairWithMode P (behind1 P (greet1 P h) env) pass mode (cs, peer, w) = (Inl e, cs, peer, w1)))"
proof -
  let ?env = "behind1 P (greet1 P h) env" and ?secret = "PairingPasswordToSecret P pass"
  have lens: "length ch = 32" "\<And>m. length (sha256 P m) = 32" "length (h_challenge h) = 32" "length (h_salt h) = 32"
    using assms(1-4) by (auto simp: rand_ok_def hashes_ok_def honest1_ok_def)
  have rand: "env_rand ?env 32 (peer, w) = (Inr ch, peer, w1)" using assms(4) by (simp add: behind1_def behind_rand)
  note steps = pairing_step [OF assms(6) lens(1)] pairing_step [OF assms(6) lens(2)]
  have auto: "AutoPairWithMode P ?env pass mode (cs, peer, w) =
      (let (r, s', v) = V1_AutoPair P ?env mode ?secret (s, peer, w) in (r, cs\<lparr>sc := SC1 s'\<rparr>, v))"
    using assms(5) by (simp add: AutoPairWithMode_def AutoPairWithSecretAndMode_def with_sc_def sc_AutoPair_def split_def Let_def)
  show ?thesis
  proof (intro conjI impI)
    assume "sha256 P (?secret @ ch) \<noteq> sha256 P (h_secret h @ ch)"
    then have "\<exists>e. V1_AutoPair P ?env mode ?secret (s, peer, w) = (Inl e, s, peer, w1)"
      using rand by (auto simp: V1_AutoPair_def bindS_def steps(1) pair_answer_def NewCommand_def lens expect_ok_def)
    moreover have "cs\<lparr>sc := SC1 s\<rparr> = cs" using assms(5) by simp
    ultimately show "\<exists>e. AutoPairWithMode P ?env pass mode (cs, peer, w) = (Inl e, cs, peer, w1)" using auto by auto
  next
    assume secret: "?secret = h_secret h"
    let ?s' = "s\<lparr>pairing1 := Some (NewPairing (sha256 P (h_secret h @ h_salt h)) (h_index h))\<rparr>"
    have "V1_AutoPair P ?env mode ?secret (s, peer, w) = (Inr (), ?s', peer, w1)"
      using rand secret by (simp add: V1_AutoPair_def bindS_def steps pair_answer_def NewCommand_def lens expect_ok_def Let_def)
    moreover have "paired_with P h ?s'"
      using assms(2,7) by (simp add: paired_with_def agreed_with_def NewPairing_def honest1_ok_def)
    ultimately show "\<exists>s'. AutoPairWithMode P ?env pass mode (cs, peer, w) = (Inr (), cs\<lparr>sc := SC1 s'\<rparr>, peer, w1) \<and> paired_with P h s'"
      using auto by auto
  qed
qed

section \<open>Sessions\<close>

text \<open>C4. A version-1 session with an honest card: whatever state client and card were in before, a client that
  selected the card and is paired with it opens the channel; after that every sequence of
  requests whose payloads fit the channel (at most 223 bytes each) gets the answers that the card's
  application would give over a plain reader.\<close>

theorem opened_session_V1:
  assumes "aes_ok P" "hashes_ok P" "ec_ok P" "card_application env" "authenticates env" "env_rand env 32 w = (Inr challenge, w1)"
    and "sc cs = SC1 s" "paired_with P h s" "honest1_ok P h" "plain_channel ch"
    and "list_all (request_fits P 223 (applicationInfo cs)) rs"
  shows "\<exists>cs1 peer1 w2 answers cs2 peer2 w3.
     AutoOpenSecureChannel P (behind1 P (greet1 P h) env) (cs, peer, w) = (Inr (), cs1, peer1, w2)
   \<and> sc_IsOpen (sc cs1)
   \<and> perform_all P (behind1 P (greet1 P h) env) rs (cs1, peer1, w2) = (answers, cs2, peer2, w3)
   \<and> perform_all P env rs (cs\<lparr>sc := ch\<rparr>, w2) = (answers, cs\<lparr>sc := ch\<rparr>, w3)"
proof -
  let ?env = "behind1 P (greet1 P h) env"
  obtain s1 peer1 w2 where "V1_AutoOpen P ?env (s, peer, w) = (Inr (), s1, peer1, w2)"
    and s1: "open1 s1" "established1 s1" "synced1 s1 peer1" "v1_inv s1"
    by (rule V1_opens [OF assms(1-6,8,9)])
  then have "AutoOpenSecureChannel P ?env (cs, peer, w) = (Inr (), cs\<lparr>sc := SC1 s1\<rparr>, peer1, w2)"
    using assms(7) by (simp add: AutoOpenSecureChannel_def with_sc_def sc_AutoOpen_def)
  moreover have "on_link (link1 P env ch) cs (sum_list (map request_cost rs) + 0) (cs\<lparr>sc := SC1 s1\<rparr>, peer1, w2) (cs\<lparr>sc := ch\<rparr>, w2)"
    using assms(1,4,10) s1 by (simp add: on_link_apply link1_def)
  moreover note link1_session [OF this assms(11), of "greet1 P h"]
  ultimately show ?thesis using s1(1) by (auto simp: sc_IsOpen_def)
qed

text \<open>C5. A version-2 session with an honest card: a client that knows the card's identity key opens the
  channel, which authenticates the card on the way by its signature in DER form, and the requests
  behind it, of at most 242 bytes each, are those of a plain connection for all of the counter's life.\<close>

theorem opened_session_V2:
  assumes "aes_ok P" "hashes_ok P" "ec_ok P" "hkdf_ok P" "der_signs P ident" "card_application env"
    and "env_rand env 32 w = (Inr salt, w1)" "env_key env w1 = (Inr priv, w2)"
    and "sc cs = SC2 s" "knows_card P ident s" "plain_channel ch"
    and "list_all (request_fits P 242 (applicationInfo cs)) rs" "sum_list (map request_cost rs) < 256 ^ 13"
  shows "\<exists>cs1 peer1 answers cs2 peer2 w3.
     AutoOpenSecureChannel P (behind2 P (greet2 P ident eph) env) (cs, peer, w) = (Inr (), cs1, peer1, w2)
   \<and> sc_IsOpen (sc cs1)
   \<and> perform_all P (behind2 P (greet2 P ident eph) env) rs (cs1, peer1, w2) = (answers, cs2, peer2, w3)
   \<and> perform_all P env rs (cs\<lparr>sc := ch\<rparr>, w2) = (answers, cs\<lparr>sc := ch\<rparr>, w3)"
proof -
  let ?env = "behind2 P (greet2 P ident eph) env"
  obtain s1 peer1 where "V2_AutoOpen P ?env (s, peer, w) = (Inr (), s1, peer1, w2)"
    and s1: "open2 s1" "synced2 s1 peer1" "v2_inv s1" "nonceCounter s1 = zero_nonce"
    by (rule V2_opens [OF assms(1-8,10)])
  then have "AutoOpenSecureChannel P ?env (cs, peer, w) = (Inr (), cs\<lparr>sc := SC2 s1\<rparr>, peer1, w2)"
    using assms(9) by (simp add: AutoOpenSecureChannel_def with_sc_def sc_AutoOpen_def)
  moreover have "on_link (link2 P env ch) cs (sum_list (map request_cost rs) + 0) (cs\<lparr>sc := SC2 s1\<rparr>, peer1, w2) (cs\<lparr>sc := ch\<rparr>, w2)"
    using assms(1,6,11,13) s1 by (simp add: on_link_apply link2_def be_nat_zero_nonce)
  moreover note link2_session [OF this assms(12), of "greet2 P ident eph"]
  ultimately show ?thesis using s1(1) by (auto simp: sc_IsOpen_def)
qed

text \<open>For the witnesses: an application that also authenticates.\<close>

definition login_app :: "(nat, unit) env" where
  "login_app = counter_app\<lparr>env_send := (\<lambda>cmd n.
     (Inr \<lparr>RData = of_nat n # Ins cmd # replicate 30 0, Sw1 = 0x90, Sw2 = 0, Sw = 0x9000\<rparr>, n + 1)),
     env_key := returnS ()\<rparr>"

lemma login_app_ok: "card_application login_app" "authenticates login_app"
  by (auto simp: card_application_def login_app_def counter_app_def rand_ok_def response_wf_def authenticates_def)

lemma login_app_rand [simp]: "env_rand login_app 32 n = (Inr (replicate 32 0), n)" "env_key login_app n = (Inr (), n)"
  by (simp_all add: login_app_def counter_app_def)

lemma toy_card_ok: "ec_ok toy_prims" "hkdf_ok toy_prims" "der_signs toy_prims ident"
proof -
  have "min n 32 + (32 - n) = (32 :: nat)" for n by simp
  then show "ec_ok toy_prims" "hkdf_ok toy_prims" by (simp_all add: ec_ok_def hkdf_ok_def toy_prims_def)
  show "der_signs toy_prims ident"
    unfolding der_signs_def
    by (intro allI impI exI [of _ 1] exI [of _ 0] conjI toy_sign_der) (simp_all add: toy_prims_def)
qed

definition toy_honest :: "unit honest1" where
  "toy_honest = \<lparr>h_key = (), h_pairings = (\<lambda>_. sha256 toy_prims (PairingPasswordToSecret toy_prims [1, 2] @ replicate 32 9)), h_hello = replicate 48 6,
     h_secret = PairingPasswordToSecret toy_prims [1, 2], h_challenge = replicate 32 7, h_index = 1, h_salt = replicate 32 9\<rparr>"

lemma toy_honest_ok: "honest1_ok toy_prims toy_honest"
  by (simp add: honest1_ok_def toy_honest_def)

definition toy_paired :: "unit sc1" where
  "toy_paired = NewSecureChannel\<lparr>publicKey1 := Some (), secret1 := Some (GenerateECDHSharedSecret toy_prims () ()),
     pairing1 := Some (NewPairing (h_pairings toy_honest 1) 1)\<rparr>"

theorem opened_session_V1_witness:
  "\<exists>cs1 peer1 w2 answers cs2 peer2 w3.
     AutoOpenSecureChannel toy_prims (behind1 toy_prims (greet1 toy_prims toy_honest) login_app)
       (toy_set (SC1 toy_paired), \<lparr>c_enc = [], c_mac = [], c_iv = []\<rparr>, 0) = (Inr (), cs1, peer1, w2)
   \<and> sc_IsOpen (sc cs1)
   \<and> perform_all toy_prims (behind1 toy_prims (greet1 toy_prims toy_honest) login_app)
       [VerifyPinR [1, 2, 3], IdentifyR] (cs1, peer1, w2) = (answers, cs2, peer2, w3)
   \<and> perform_all toy_prims login_app [VerifyPinR [1, 2, 3], IdentifyR] (toy_set (SC1 toy_paired)\<lparr>sc := SC1 NewSecureChannel\<rparr>, w2)
       = (answers, toy_set (SC1 toy_paired)\<lparr>sc := SC1 NewSecureChannel\<rparr>, w3)"
  by (rule opened_session_V1 [where s = toy_paired and challenge = "replicate 32 0" and ?w1.0 = 0])
    (simp_all add: login_app_ok toy_card_ok toy_set_def toy_paired_def toy_honest_ok paired_with_def agreed_with_def NewPairing_def NewSecureChannel_def
      plain_channel_def request_fits_def)

theorem opened_session_V2_witness:
  "\<exists>cs1 peer1 answers cs2 peer2 w3.
     AutoOpenSecureChannel toy_prims (behind2 toy_prims (greet2 toy_prims () ()) login_app)
       (toy_set (SC2 toy_sc2), \<lparr>c_h2c = [], c_c2h = [], c_nonce = []\<rparr>, 0) = (Inr (), cs1, peer1, 0)
   \<and> sc_IsOpen (sc cs1)
   \<and> perform_all toy_prims (behind2 toy_prims (greet2 toy_prims () ()) login_app)
       [ChangePinR [1, 2, 3], SignR (replicate 32 0)] (cs1, peer1, 0) = (answers, cs2, peer2, w3)
   \<and> perform_all toy_prims login_app [ChangePinR [1, 2, 3], SignR (replicate 32 0)] (toy_set (SC2 toy_sc2)\<lparr>sc := SC1 NewSecureChannel\<rparr>, 0)
       = (answers, toy_set (SC2 toy_sc2)\<lparr>sc := SC1 NewSecureChannel\<rparr>, w3)"
  by (rule opened_session_V2 [where s = toy_sc2 and salt = "replicate 32 0" and priv = "()" and ident = "()" and ?w1.0 = 0])
    (simp_all add: login_app_ok toy_card_ok toy_set_def toy_sc2_def knows_card_def NewSecureChannelV2_def NewSecureChannel_def
      plain_channel_def request_fits_def request_cost_def toy_prims_def [THEN arg_cong [where f = ec_compress]])

theorem paired_with_honest_card_witness:
  "let cs = toy_set (SC1 (NewSecureChannel\<lparr>publicKey1 := Some (), secret1 := Some (GenerateECDHSharedSecret toy_prims () ())\<rparr>)) in
   \<exists>s'. AutoPairWithMode toy_prims (behind1 toy_prims (greet1 toy_prims toy_honest) login_app) [1, 2] P2PairAny
       (cs, \<lparr>c_enc = [], c_mac = [], c_iv = []\<rparr>, 0) = (Inr (), cs\<lparr>sc := SC1 s'\<rparr>, \<lparr>c_enc = [], c_mac = [], c_iv = []\<rparr>, 0)
     \<and> paired_with toy_prims toy_honest s'"
proof -
  define s :: "unit sc1" where "s = NewSecureChannel\<lparr>publicKey1 := Some (), secret1 := Some (GenerateECDHSharedSecret toy_prims () ())\<rparr>"
  have s: "\<not> open1 s" "agreed_with toy_prims toy_honest s" "sc (toy_set (SC1 s)) = SC1 s"
    by (simp_all add: s_def NewSecureChannel_def agreed_with_def toy_set_def)
  have r: "rand_ok login_app" "PairingPasswordToSecret toy_prims [1, 2] = h_secret toy_honest"
    using login_app_ok(1) by (simp_all add: card_application_def toy_honest_def)
  from paired_with_honest_card [OF toy_prims_ok(2) toy_honest_ok r(1) login_app_rand(1) s(3,1,2), of "[1, 2]"] r(2)
  show ?thesis unfolding s_def by (simp add: Let_def)
qed

end
