(* ===== verification/No_Panic.thy ===== *)
theory No_Panic
  imports Command_Set_Runs
begin

text \<open>
  Robustness: which operations of the client can run into a panic on what a card answers. A
  computation is calm when no state makes it panic; the rules follow the structure of the code,
  so that an operation is calm by its definition and the rules of what it calls.
\<close>

section \<open>Rules\<close>

definition calmR :: "'a res \<Rightarrow> bool" where
  "calmR r \<longleftrightarrow> \<not> panics r"

definition calm :: "('s, 'a) st \<Rightarrow> bool" where
  "calm m \<longleftrightarrow> (\<forall>s. calmR (fst (m s)))"

named_theorems calm_intros

lemma calmI: "(\<And>s. calmR (fst (m s))) \<Longrightarrow> calm m"
  by (simp add: calm_def)

lemma calmD: "calm m \<Longrightarrow> m s = (r, s') \<Longrightarrow> calmR r"
  unfolding calm_def by (metis fst_conv)

lemma calmR_Inl: "calmR (Inl e :: 'a res) \<longleftrightarrow> calmR (Inl e :: 'b res)"
  by (simp add: calmR_def panics_def)

lemma calmR_errors [simp]:
  "calmR (Inr x)" "calmR (Inl (Msg m))" "calmR (Inl (External m))" "calmR (Inl EOF)" "calmR (Inl BadRawCommand)"
  "calmR (Inl BadRawResponse)" "calmR (Inl (BadResponse sw))" "calmR (Inl (WrongPIN n))" "calmR (Inl (WrongPUK n))"
  "calmR (Inl NoAvailablePairingSlots)" "calmR (Inl BadChecksumSize)" "calmR (Inl WrongApplicationInfoTemplate)"
  "calmR (Inl (InvalidLifeCycleValue bs))" "calmR (Inl InvalidInstanceIndex)" "calmR (Inl BadCryptogram)"
  "calmR (Inl InvalidCardCryptogram)" "calmR (Inl SecureChannelNotOpen)"
  by (simp_all add: calmR_def panics_def)

lemma calmR_Wrap [simp]: "calmR (Inl (Wrap m e) :: 'a res) \<longleftrightarrow> calmR (Inl e :: 'a res)"
  by (simp add: calmR_def)

lemma calmR_bind [calm_intros]: "calmR r \<Longrightarrow> (\<And>x. r = Inr x \<Longrightarrow> calmR (f x)) \<Longrightarrow> calmR (bindE r f)"
  by (cases r) (auto intro: calmR_Inl [THEN iffD1])

lemma calmR_wrap [calm_intros]: "calmR r \<Longrightarrow> calmR (wrapE m r)"
  by (simp add: calmR_def)

lemma calmR_guard [calm_intros]: "calmR (Inl e :: unit res) \<Longrightarrow> calmR (guardE b e)"
  by (simp add: guardE_def)

lemma calmR_if [calm_intros]: "(b \<Longrightarrow> calmR r) \<Longrightarrow> (\<not> b \<Longrightarrow> calmR r') \<Longrightarrow> calmR (if b then r else r')"
  by simp

lemma calmR_sum [calm_intros]:
  "calmR r \<Longrightarrow> (\<And>e. calmR (Inl e :: 'a res) \<Longrightarrow> calmR (f e)) \<Longrightarrow> (\<And>x. r = Inr x \<Longrightarrow> calmR (g x)) \<Longrightarrow>
   calmR (case (r :: 'a res) of Inl e \<Rightarrow> f e | Inr x \<Rightarrow> g x)"
  by (cases r) auto

lemma calmR_option [calm_intros]:
  "(v = None \<Longrightarrow> calmR r) \<Longrightarrow> (\<And>x. v = Some x \<Longrightarrow> calmR (f x)) \<Longrightarrow> calmR (case v of None \<Rightarrow> r | Some x \<Rightarrow> f x)"
  by (cases v) auto

lemma calmR_prod [calm_intros]: "(\<And>x y. v = (x, y) \<Longrightarrow> calmR (f x y)) \<Longrightarrow> calmR (case v of (x, y) \<Rightarrow> f x y)"
  by (cases v) auto

lemma calm_basic [calm_intros]: "calm (returnS x)" "calmR (Inl e :: 'a res) \<Longrightarrow> calm (failS e :: ('s, 'a) st)"
  "calmR r \<Longrightarrow> calm (liftS r)" "calm (modifyS g)"
  by (simp_all add: calm_def)

lemma calm_bind [calm_intros]: "calm m \<Longrightarrow> (\<And>x. calm (f x)) \<Longrightarrow> calm (bindS m f)"
  unfolding calm_def bindS_def
  by (auto split: prod.split sum.split) (metis calmR_Inl fst_conv)

lemma calm_wrap [calm_intros]: "calm m \<Longrightarrow> calm (wrapS msg m)"
  by (simp add: calm_def calmR_wrap)

lemma calm_read [calm_intros]: "(\<And>s. calm (f s)) \<Longrightarrow> calm (readS f)"
  by (simp add: calm_def)

lemma calm_if [calm_intros]: "(b \<Longrightarrow> calm m) \<Longrightarrow> (\<not> b \<Longrightarrow> calm m') \<Longrightarrow> calm (if b then m else m')"
  by simp

lemma calm_option [calm_intros]:
  "(v = None \<Longrightarrow> calm m) \<Longrightarrow> (\<And>x. v = Some x \<Longrightarrow> calm (f x)) \<Longrightarrow> calm (case v of None \<Rightarrow> m | Some x \<Rightarrow> f x)"
  by (cases v) auto

lemma calm_prod [calm_intros]: "(\<And>x y. calm (f x y)) \<Longrightarrow> calm (case v of (x, y) \<Rightarrow> f x y)"
  by (simp split: prod.split)

lemma calm_let [calm_intros]: "(\<And>x. calm (f x)) \<Longrightarrow> calm (let x = v in f x)"
  by simp

lemma calm_local [calm_intros]: "calm m \<Longrightarrow> calm (localS m)"
  by (simp add: calm_def)

lemma calm_world [calm_intros]: "calm m \<Longrightarrow> calm (worldS m)"
  by (simp add: calm_def)

lemma calm_get [calm_intros]: "(\<And>c. calm (f c)) \<Longrightarrow> calm (getS f)"
  by (simp add: calm_def)

lemma calm_channel [calm_intros]:
  "(\<And>c. calm (f c)) \<Longrightarrow> (\<And>c. calm (g c)) \<Longrightarrow> calm (case ch of SC1 c \<Rightarrow> f c | SC2 c \<Rightarrow> g c)"
  by (simp split: channel.split)

lemma calm_map [calm_intros]:
  "calm m \<Longrightarrow> (\<And>r. calmR r \<Longrightarrow> calmR (f r)) \<Longrightarrow> calm (\<lambda>s. let (r, s') = m s in (f r, s'))"
  by (simp add: calm_def split_def Let_def)

lemma calmR_CheckOK: "calmR r \<Longrightarrow> calmR (CheckOK r allowed)"
  unfolding CheckOK_def Let_def by (intro calm_intros) (auto intro: calmR_Inl [THEN iffD1])

lemma calm_checked [calm_intros]: "calm m \<Longrightarrow> calm (checked allowed m)"
  unfolding checked_def by (intro calm_map calmR_bind calmR_CheckOK)

lemma calm_ignore [calm_intros]: "calm m \<Longrightarrow> calm (ignore m)"
  unfolding ignore_def by (intro calm_intros)

section \<open>Parsers\<close>

text \<open>What the libraries document: functions that return an error do not panic, keys have their size.\<close>

definition prims_calm :: "('sk, 'pk) prims \<Rightarrow> bool" where
  "prims_calm P \<longleftrightarrow> aes_ok P
     \<and> (\<forall>k. length (ec_compress P k) = 33) \<and> (\<forall>h s r. ecrecover P h s = Inr r \<longrightarrow> length r = 65)
     \<and> (\<forall>h s. calmR (ecrecover P h s)) \<and> (\<forall>c h. calmR (recover_compact P c h))
     \<and> (\<forall>b. calmR (ec_unmarshal P b)) \<and> (\<forall>b. calmR (ec_decompress P b)) \<and> (\<forall>b. calmR (ec_parse P b))
     \<and> (\<forall>b. calmR (ec_to_ecdsa P b)) \<and> (\<forall>b. calmR (ec_verify_der P b))
     \<and> (\<forall>ikm salt info n. calmR (hkdf_sha256 P ikm salt info n))"

lemma calmR_prims:
  assumes "prims_calm P"
  shows "calmR (ecrecover P h s)" "calmR (recover_compact P c h)" "calmR (ec_unmarshal P b)" "calmR (ec_decompress P b)"
    "calmR (ec_parse P b)" "calmR (ec_to_ecdsa P b)" "calmR (ec_verify_der P b)" "calmR (hkdf_sha256 P ikm salt info n)"
  using assms by (simp_all add: prims_calm_def)

lemma calmR_run [calm_intros]: "calm m \<Longrightarrow> calmR (run_reader m data)"
  by (simp add: calm_def run_reader_def)

lemma calmR_ber: "calmR (decode_ber_length data off)"
  by (simp add: decode_ber_length_def Let_def)

lemma calm_readers [calm_intros]:
  "calm ReadTag" "calm ReadLength" "calm (EnterConstructed t)" "calm (ReadPrimitive t)" "calm (ReadPrimitiveIfPresent t)"
  "calm (Skip n)" "calm SkipPrimitive" "calm ReadBoolean" "calm ReadInteger"
proof -
  show tag: "calm ReadTag" by (simp add: calm_def ReadTag_def)
  show len: "calm ReadLength" using calmR_ber
    by (auto simp: calm_def ReadLength_def split: sum.split) (metis calmR_Inl)
  show "calm (EnterConstructed t)" unfolding EnterConstructed_def by (intro calm_intros tag len) simp
  show prim: "calm (ReadPrimitive t)" for t unfolding ReadPrimitive_def
    by (intro calm_intros tag len) (simp_all add: calm_def)
  have "calm (bindS (ReadPrimitive t) (\<lambda>v. returnS (Some v)))" by (intro calm_intros prim)
  then show "calm (ReadPrimitiveIfPresent t)" by (simp add: calm_def ReadPrimitiveIfPresent_def)
  show skip: "calm (Skip n)" for n by (simp add: calm_def Skip_def)
  show "calm SkipPrimitive" unfolding SkipPrimitive_def by (intro calm_intros tag len skip)
  show "calm ReadBoolean" "calm ReadInteger" unfolding ReadBoolean_def ReadInteger_def
    by (intro calm_intros prim; simp)+
qed

lemma calm_read_if [calm_intros]: "calm m \<Longrightarrow> calm (read_if t m d)"
  unfolding read_if_def by (intro calm_intros)

lemma calm_try_read [calm_intros]: "calm (try_read m d)"
  by (simp add: calm_def try_read_def split: prod.split sum.split)

lemma calm_first_byte [calm_intros]: "calm m \<Longrightarrow> calm (first_byte msg m)"
  unfolding first_byte_def by (intro calm_intros) simp_all

lemma calm_read_opt [calm_intros]: "calm (read_opt t msg)"
  unfolding read_opt_def by (intro calm_intros)

lemma calmR_padding: "prims_calm P \<Longrightarrow> calmR (DecryptData P data key iv)"
  using DecryptData_no_panic [of P data key iv] by (simp add: calmR_def prims_calm_def)

lemma calmR_compress: "length k = 33 \<or> 64 < length k \<Longrightarrow> calmR (compressPublicKey k)"
  by (auto simp: compressPublicKey_def)

lemma calmR_crypto [calm_intros]:
  "calmR (aes_new_cipher key)" "calmR (EncryptData P data key iv)" "calmR (CalculateMAC P meta data key)"
  "calmR (AESCCMEncrypt P key nonce data)" "calmR (AESCCMDecrypt P key nonce data)"
  "calmR (DeriveSessionKeys P secret key data)" "calmR (VerifyCryptogram P challenge pass cryptogram)"
  unfolding EncryptData_def CalculateMAC_def AESCCMEncrypt_def AESCCMDecrypt_def EncryptAndAuthenticate_def
    DecryptAndAuthenticate_def DeriveSessionKeys_def VerifyCryptogram_def Let_def aes_new_cipher_def
  by (intro calm_intros; simp)+

lemma calm_enter [calm_intros]:
  "calm (\<lambda>r. case EnterConstructed t r of
     (Inl _, r') \<Rightarrow> (Inl WrongApplicationInfoTemplate, r') | (Inr n, r') \<Rightarrow> (Inr n, r'))"
  by (simp add: calm_def split: prod.split sum.split)

lemma calmR_status: "calmR (ParseApplicationStatus data)"
proof -
  have "calm (bindS (try_read (bindS ReadInteger (\<lambda>i. returnS (sint i))) 0) (\<lambda>pin.
          bindS (try_read (bindS ReadInteger (\<lambda>i. returnS (sint i))) 0) (\<lambda>puk.
          bindS (try_read ReadBoolean False) (\<lambda>key.
          returnS \<lparr>PinRetryCount = pin, PUKRetryCount = puk, KeyInitialized = key, Path = []\<rparr>))))"
    by (intro calm_intros)
  then show ?thesis
    by (simp add: ParseApplicationStatus_def parseKeyPathStatus_def EncodeFromBytes_def calm_def split: prod.split sum.split)
qed

lemma calmR_info: "calmR (ParseApplicationInfo data)"
  unfolding ParseApplicationInfo_def by (intro calm_intros)

lemma calmR_lee: "calmR (ParseLeeKey data)"
  unfolding ParseLeeKey_def readLeeSecret_def by (intro calm_intros; simp)

lemma calmR_der: "calmR (DERSignatureToRS data)" "calmR (parseDERSignature data)"
  unfolding DERSignatureToRS_def parseDERSignature_def scalarFromDERInteger_def Let_def
  by (intro calm_intros; simp)+

lemma calmR_response: "calmR (ParseResponse data)"
  by (simp add: ParseResponse_def Let_def)

lemmas calmR_parsers [calm_intros] = calmR_status calmR_info calmR_lee calmR_der calmR_response

lemma calmR_exported: "prims_calm P \<Longrightarrow> calmR (ParseExportKeyResponse P data)"
  unfolding ParseExportKeyResponse_def Let_def by (intro calm_intros calmR_prims; simp)

lemma calmR_calculateV:
  "prims_calm P \<Longrightarrow> calmR (calculateV_from P message pubKey rs i)"
proof (induction P message pubKey rs i rule: calculateV_from.induct)
  case (1 P m pk rs i)
  have key: "calmR (compressPublicKey rec)" if "ecrecover P m (rs @ [of_nat i]) = Inr rec" for rec
    using that 1(2) by (intro calmR_compress) (auto simp: prims_calm_def)
  have "calmR (recovered_key P m pk rs i)"
    unfolding recovered_key_def by (intro calm_intros calmR_prims 1 key; simp)
  then show ?case
    by (subst calculateV_from.simps) (intro calm_intros 1; simp)
qed

lemma calmR_recover: "prims_calm P \<Longrightarrow> calmR (RecoverPublicKey P recID hash r s c)"
  unfolding RecoverPublicKey_def Let_def by (intro calm_intros calmR_prims; simp)

lemma calmR_signature: "prims_calm P \<Longrightarrow> calmR (ParseSignature P message data)"
  unfolding ParseSignature_def ParseRecoverableSignature_def parseLegacySignature_def calculateV_def Let_def
  by (intro calm_intros calmR_prims calmR_calculateV; simp)

lemma calmR_certificate: "prims_calm P \<Longrightarrow> calmR (ParseCertificate P data)"
  unfolding ParseCertificate_def Let_def by (intro calm_intros calmR_recover; simp)

lemma certificate_key: "prims_calm P \<Longrightarrow> ParseCertificate P data = Inr c \<Longrightarrow> length (sigPubKey (certSignature c)) = 33"
  by (auto simp: ParseCertificate_def RecoverPublicKey_def Let_def returns_iff prims_calm_def split: if_splits)

lemma calm_certificate:
  fixes f :: "Certificate \<Rightarrow> 'a reader"
  assumes "prims_calm P" "\<And>c. calmR (compressPublicKey (sigPubKey (certSignature c))) \<Longrightarrow> calm (f c)"
  shows "calm (bindS (liftS (wrapE msg (ParseCertificate P d))) f)"
proof (cases "ParseCertificate P d")
  case (Inl e)
  then show ?thesis using calmR_certificate [OF assms(1), of d]
    by (auto simp: calm_def bindS_def intro: calmR_Inl [THEN iffD1])
next
  case (Inr c)
  have "calmR (compressPublicKey (sigPubKey (certSignature c)))"
    using certificate_key [OF assms(1) Inr] by (intro calmR_compress) simp
  then show ?thesis using Inr assms(2) by (simp add: calm_def bindS_def)
qed

lemma calmR_identity: "prims_calm P \<Longrightarrow> calmR (VerifyIdentity P hash data)"
  unfolding VerifyIdentity_def Let_def
  by (rule calmR_run, rule calm_bind, intro calm_wrap calm_readers, rule calm_bind, intro calm_wrap calm_readers,
      rule calm_certificate, assumption, intro calm_read calm_basic(3) calmR_if calmR_bind calmR_wrap calmR_prims calmR_guard; simp)

lemma calmR_path_parser [calm_intros]: "calmR (KeyPathFromString path)"
proof -
  have "calmR (parse_uint_loop m n s)" for m n s
    by (induction m n s rule: parse_uint_loop.induct) (auto split: option.split)
  then have "calmR (parse_uint k s)" for k s by (simp add: parse_uint_def)
  then have "calmR (parsePathComponent s)" for s
    unfolding parsePathComponent_def Let_def by (intro calm_intros; simp)
  then have "calmR (parseComponents cs d)" for cs d
    by (induction cs arbitrary: d) (auto intro: calmR_bind)
  then show ?thesis
    unfolding KeyPathFromString_def Let_def by (intro calm_intros; simp)
qed

section \<open>Channels\<close>

text \<open>A card and random source that answer or fail, in any way they like.\<close>

definition env_calm :: "('w, 'sk) env \<Rightarrow> bool" where
  "env_calm env \<longleftrightarrow> (\<forall>cmd. calm (env_send env cmd)) \<and> (\<forall>n. calm (env_rand env n)) \<and> calm (env_key env)"

lemma env_calmD:
  "env_calm env \<Longrightarrow> calm (env_send env cmd)" "env_calm env \<Longrightarrow> calm (env_rand env n)" "env_calm env \<Longrightarrow> calm (env_key env)"
  by (simp_all add: env_calm_def)

lemma calm_transmit:
  fixes env :: "('w, 'sk) env" and receive :: "response res \<Rightarrow> ('c, response) st"
  assumes "env_calm env" "\<And>r. calmR r \<Longrightarrow> calm (receive r)"
  shows "calm (transmit_via receive env cmd)"
proof (rule calmI)
  fix s :: "'c \<times> 'w"
  obtain c w where s: "s = (c, w)" by (cases s)
  have "calmR (fst (env_send env cmd w))" using env_calmD(1) [OF assms(1)] by (simp add: calm_def)
  then have "calm (receive (fst (env_send env cmd w)))" by (rule assms(2))
  then show "calmR (fst (transmit_via receive env cmd s))" by (simp add: s transmit_via_apply calm_def)
qed

lemma calm_protects [calm_intros]:
  "calm (V1_ProtectedCommand P cla ins p1 p2 data)" "calm (V2_ProtectedCommand P cla ins p1 p2 data)"
proof -
  have "calmR (EncryptData P data key iv)" for key iv by (intro calm_intros)
  then show "calm (V1_ProtectedCommand P cla ins p1 p2 data)"
    by (auto simp: calm_def V1_ProtectedCommand_def Let_def split: option.split sum.split) (metis calmR_Inl)
  have "calmR (encryptCCM P d c)" for d c unfolding encryptCCM_def by (intro calm_intros; simp)
  then show "calm (V2_ProtectedCommand P cla ins p1 p2 data)"
    by (auto simp: calm_def V2_ProtectedCommand_def Let_def split: sum.split) (metis calmR_Inl)
qed

lemma calm_version [calm_intros]: "calm m1 \<Longrightarrow> calm m2 \<Longrightarrow> calm (on_version m1 m2)"
  by (auto simp: calm_def on_version_def split_def Let_def split: channel.split)

lemma calm_version_env [calm_intros]: "calm m1 \<Longrightarrow> calm m2 \<Longrightarrow> calm (on_version_env m1 m2)"
  by (auto simp: calm_def on_version_env_def split_def Let_def split: channel.split)

lemma calm_V1_receive: "prims_calm P \<Longrightarrow> calmR r \<Longrightarrow> calm (V1_receive P r)"
proof (rule calmI)
  fix c
  assume "prims_calm P" "calmR r"
  then have "calmR (DecryptData P d k iv)" for d k iv by (intro calmR_padding)
  then show "calmR (fst (V1_receive P r c))" using \<open>calmR r\<close> calmR_response
    by (auto simp: V1_receive_def Let_def split: sum.split) (metis calmR_Inl)+
qed

lemma calm_V2_receive: "calmR r \<Longrightarrow> calm (V2_receive P r)"
proof (rule calmI)
  fix c
  assume "calmR r"
  moreover have "calmR (decryptCCM P d c)" for d unfolding decryptCCM_def by (intro calm_intros; simp)
  ultimately show "calmR (fst (V2_receive P r c))" using calmR_response
    by (auto simp: V2_receive_def split: sum.split) (metis calmR_Inl)+
qed

text \<open>Both together; the facts below all carry this one premise.\<close>

definition calm_setting :: "('sk, 'pk) prims \<Rightarrow> ('w, 'sk) env \<Rightarrow> bool" where
  "calm_setting P env \<longleftrightarrow> prims_calm P \<and> env_calm env"

lemma calm_env [calm_intros]:
  "calm_setting P env \<Longrightarrow> calm (env_send env cmd)" "calm_setting P env \<Longrightarrow> calm (env_rand env n)"
  "calm_setting P env \<Longrightarrow> calm (env_key env)"
  by (simp_all add: calm_setting_def env_calm_def)

lemma calmR_setting [calm_intros]:
  assumes "calm_setting P env"
  shows "calmR (ParseExportKeyResponse P data)" "calmR (ParseSignature P message data)" "calmR (VerifyIdentity P hash data)"
    "calmR (ParseCertificate P data)" "calmR (ec_unmarshal P data)"
  using assms calmR_exported calmR_signature calmR_identity calmR_certificate calmR_prims(3)
  by (auto simp: calm_setting_def)

lemma calm_transmits [calm_intros]:
  "calm_setting P env \<Longrightarrow> calm (V1_Transmit P env cmd)" "calm_setting P env \<Longrightarrow> calm (V2_Transmit P env cmd)"
  unfolding V1_Transmit_def V2_Transmit_def calm_setting_def
  by (auto intro!: calm_transmit calm_V1_receive calm_V2_receive)

lemma calm_V1_exchange [calm_intros]: "calm_setting P env \<Longrightarrow> calm (V1_exchange P env cla ins p1 p2 data)"
  unfolding V1_exchange_def by (intro calm_intros; assumption)

lemma calm_expect [calm_intros]: "calm (expect_ok resp)"
  unfolding expect_ok_def by (intro calm_intros; simp)

lemma calm_V1_open: "calm_setting P env \<Longrightarrow> calm (V1_AutoOpen P env)"
proof -
  assume ok: "calm_setting P env"
  have "calm (V1_processOpenResponse P data)" for data
  proof (rule calmI)
    fix c
    have "calmR (DeriveSessionKeys P secret key data)" for secret key by (intro calm_intros)
    then show "calmR (fst (V1_processOpenResponse P data c))"
      by (auto simp: V1_processOpenResponse_def split: option.split sum.split prod.split) (metis calmR_Inl)
  qed
  then show ?thesis
    unfolding V1_AutoOpen_def V1_OpenSecureChannel_def V1_MutuallyAuthenticate_def Let_def
    by (intro calm_intros; use ok in simp)
qed

lemma calm_V1_pairing:
  assumes ok: "calm_setting P env"
  shows "calm (V1_AutoPair P env mode secret)" "calm (V1_Unpair P env index)" "calm (V1_UnpairOthers P env)"
proof -
  show "calm (V1_AutoPair P env mode secret)" unfolding V1_AutoPair_def V1_Pair_def Let_def
    by (intro calm_intros; use ok in simp)
  show "calm (V1_Unpair P env index)" unfolding V1_Unpair_def by (intro calm_intros ok)
  have "calm (Pair (Inr u))" for u :: unit by (simp add: calm_def)
  then have "calm (unpair_slots P env cur js)" for cur js
    by (induction js) (auto intro!: calm_intros ok)
  then show "calm (V1_UnpairOthers P env)" unfolding V1_UnpairOthers_def Let_def by (intro calm_get)
qed

lemma calmR_recover_from: "calmR (recover_from P hash r s expected v)"
proof (induction P hash r s expected v rule: recover_from.induct)
  case (1 P hash r s expected v)
  then show ?case by (subst recover_from.simps) (auto split: sum.split)
qed

lemma calm_V2_open:
  fixes P :: "('sk, 'pk) prims"
  assumes ok: "calm_setting P env"
  shows "calm (V2_AutoOpen P env)"
proof -
  have parts: "calmR (hkdfDerive P a b c)" "calmR (verifyCardSignature P salt k1 k2 sig sc)" "calmR (ec_unmarshal P d)"
    for a b c d salt k1 k2 sig and sc :: "'sk sc2"
    unfolding hkdfDerive_def HKDFDerive_def verifyCardSignature_def verifySignatureByRecovery_def Let_def
    by (intro calm_intros calmR_prims calmR_recover_from; use ok in \<open>simp add: calm_setting_def\<close>)+
  have "calm (processHandshakeResponse P salt priv data)" for salt priv data
    using parts
    by (auto simp: calm_def processHandshakeResponse_def Let_def split: sum.split) (metis calmR_Inl)+
  then show ?thesis
    unfolding V2_AutoOpen_def Let_def by (intro calm_intros; use ok in simp)
qed

section \<open>The client\<close>

lemma calm_with_sc [calm_intros]: "calm m \<Longrightarrow> calm (with_sc m)"
  by (simp add: calm_def with_sc_def split_def Let_def)

lemma calm_plain [calm_intros]: "calm_setting P env \<Longrightarrow> calm (send_plain env cmd)"
  unfolding send_plain_def by (intro calm_intros; assumption)

lemma calm_sendProtected [calm_intros]: "calm_setting P env \<Longrightarrow> calm (sendProtected P env ins p1 p2 data)"
  unfolding sendProtected_def sc_ProtectedCommand_def sc_Transmit_def by (intro calm_intros; assumption)

lemma calm_call [calm_intros]:
  "calm_setting P env \<Longrightarrow> calm (call P env ins p1 p2 data)"
  "calm_setting P env \<Longrightarrow> calm (call_unit P env ins p1 p2 data)"
  "calm_setting P env \<Longrightarrow> (\<And>d. calmR (f d)) \<Longrightarrow> calm (call_parse P env ins p1 p2 data f)"
  unfolding call_def call_unit_def call_parse_def by (intro calm_intros; assumption)+

lemma calm_channel_methods [calm_intros]:
  assumes "calm_setting P env"
  shows "calm (sc_AutoOpen P env)" "calm (sc_AutoPair P env mode secret)" "calm (sc_Unpair P env index)"
    "calm (sc_UnpairOthers P env)"
  unfolding sc_AutoOpen_def sc_AutoPair_def sc_Unpair_def sc_UnpairOthers_def V2_AutoPair_def V2_Unpair_def V2_UnpairOthers_def
  by (intro calm_intros calm_V1_open calm_V2_open calm_V1_pairing assms; simp)+

lemma calm_init [calm_intros]:
  assumes ok: "calm_setting P env"
  shows "calm (init_v1 env (V1_OneShotEncrypt P env secrets))" "calm (init_v1 env (encryptedInitPayload P env data))"
    "calm (init_v2 P env data)"
proof -
  have one: "calm (OneShotEncrypt P (env_rand env) pub secret d)" for pub secret d
    unfolding OneShotEncrypt_def Let_def by (intro calm_intros; use ok in simp)
  show "calm (init_v1 env (V1_OneShotEncrypt P env secrets))" "calm (init_v1 env (encryptedInitPayload P env data))"
    unfolding init_v1_def V1_OneShotEncrypt_def encryptedInitPayload_def Let_def
    by (intro calm_intros one; use ok in simp)+
  show "calm (init_v2 P env data)" unfolding init_v2_def by (intro calm_intros ok)
qed

lemma calm_retries [calm_intros]: "calmR r \<Longrightarrow> (\<And>n. calmR (Inl (wrong n) :: unit res)) \<Longrightarrow> calmR (check_retries wrong r)"
  by (cases r) (auto simp: check_retries_def CheckOK_def Let_def dest: calmR_Inl [THEN iffD1])

lemma calm_chunks [calm_intros]:
  assumes "\<And>chunk off. calm (store chunk off)"
  shows "calm (store_chunks store data off)"
proof (rule calmI)
  fix s
  show "calmR (fst (store_chunks store data off s))"
    using assms
  proof (induction store data off s rule: store_chunks.induct)
    case (1 store data off s)
    let ?n = "min NDEFMaxChunkSize (length data - off)"
    obtain r s' where st: "store (gslice off (off + ?n) data) (of_nat off) s = (r, s')" by (cases "store (gslice off (off + ?n) data) (of_nat off) s")
    have r: "calmR r" by (rule calmD [OF 1(2) st])
    show ?case
    proof (cases "length data \<le> off")
      case True
      then show ?thesis by (simp add: store_chunks.simps)
    next
      case False
      show ?thesis
      proof (cases r)
        case (Inl e)
        then show ?thesis using False st r by (subst store_chunks.simps) (simp add: Let_def calmR_Inl [of e])
      next
        case (Inr u)
        have "calmR (fst (store_chunks store data (off + ?n) s'))" by (rule 1(1) [OF False refl st [symmetric] Inr 1(2)])
        then show ?thesis using False st Inr by (subst store_chunks.simps) (simp add: Let_def)
      qed
    qed
  qed
qed

lemma calm_select: "calm_setting P env \<Longrightarrow> calm (selectWithIndex P env i)"
proof -
  assume ok: "calm_setting P env"
  have cert: "calmR (ParseCertificate P d)" for d by (rule calmR_setting(4) [OF ok])
  have v2: "calm (install_v2 P info)" for info
    using cert
    by (auto simp: calm_def install_v2_def SetCardCertificate_def Let_def split: sum.split) (metis calmR_Inl)
  have "calm (GenerateSecret P env d)" for d
    unfolding GenerateSecret_def
    by (intro calm_bind calm_world calm_local calm_basic calm_env(3) [OF ok] calmR_setting(5) [OF ok])
  then have v1: "calm (install_v1 P env info)" for info
    by (auto simp: calm_def install_v1_def split: sum.split prod.split) (metis calmR_Inl fst_conv)
  show ?thesis
    unfolding selectWithIndex_def id_KeycardInstanceAID_def by (intro calm_intros v1 v2; use ok in simp)
qed

text \<open>The operations, with the deprecated \<open>Pair\<close> left out.\<close>

lemma calm_api_call:
  assumes "calm_setting P env" "api_call P env m"
  shows "calm m \<or> (\<exists>pass. m = CS_Pair P env pass)"
  using assms(2)
proof cases
  case (6 pass)
  then show ?thesis by blast
qed (unfold CS_Init_def InitWithSecret_def InitV2_def InitWithOptionsV2_def InitWithOptions_def CS_initWithSecret_def
    AutoPairWithMode_def AutoPairWithSecret_def AutoPairWithSecretAndMode_def CS_Unpair_def CS_UnpairOthers_def
    CS_OpenSecureChannel_def mutualAuthenticate_def AutoOpenSecureChannel_def VerifyPIN_def UnblockPIN_def GenerateMnemonic_def
    parseMnemonicResponse_def SetNDEF_def
    Identify_def CS_GetStatus_def ChangePIN_def ChangePUK_def ChangePairingSecret_def ChangePairingPassword_def
    GenerateKey_def RemoveKey_def DeriveKey_def LoadSeed_def LoadKeyBIP32_def LoadKeyBIP32OmitPublic_def
    loadKeyBIP32Inner_def LoadLEEKey_def ExportKey_def ExportKeyExtended_def ExportKeyWithP2_def ExportCurrentKey_def
    ExportLEEKeyParsed_def ExportLEEKey_def ECDH_def ECDHRaw_def ExportBIP85_def SetPinlessPath_def ResetPinlessPath_def
    Sign_def SignWithPathAndAlgo_def SignBIP341Schnorr_def SignPinless_def CS_GetData_def CS_StoreData_def
    StoreDataWithOffset_def GetChallenge_def FactoryReset_def,
  (rule disjI1, hypsubst, (intro calm_intros; use assms(1) in simp))+)

text \<open>C12. The client survives every card: when an operation of the command set panics, on whatever the card
  and the random source answer and in whatever state, that operation is the deprecated \<open>Pair\<close>;
  and \<open>Select\<close>, which replaces the channel, never panics.\<close>

theorem only_Pair_panics:
  assumes "prims_calm P" "env_calm env"
  shows "(api_call P env m \<and> panics (fst (m s)) \<longrightarrow> (\<exists>pass. m = CS_Pair P env pass))
    \<and> \<not> panics (fst (selectWithIndex P env i t))"
proof (intro conjI impI)
  have ok: "calm_setting P env" using assms by (simp add: calm_setting_def)
  show "\<not> panics (fst (selectWithIndex P env i t))"
    using calm_select [OF ok, of i] unfolding calm_def calmR_def by blast
  assume m: "api_call P env m \<and> panics (fst (m s))"
  then have "\<not> calm m" unfolding calm_def calmR_def by blast
  then show "\<exists>pass. m = CS_Pair P env pass" using calm_api_call [OF ok] m by blast
qed

text \<open>The panic happens: a card that answers the first pairing step with an empty success.\<close>

lemma Pair_panics:
  assumes "env_rand env 32 w = (Inr ch, w1)" "env_send env (NewCommandPairFirstStep ch) w1 = (Inr r, w2)"
    and "Sw r = SwOK" "length (RData r) < 32"
  shows "panics (fst (CS_Pair P env pass (cs, w)))"
  using assms by (simp add: CS_Pair_def expect_ok_def bindS_def)

theorem only_Pair_panics_witness:
  "(\<exists>pass. (CS_Pair toy_prims toy_env [7] :: ((unit, unit) command_set \<times> unit, unit) st) = CS_Pair toy_prims toy_env pass)
   \<and> \<not> panics (fst (selectWithIndex toy_prims toy_env 1 (NewCommandSet :: (unit, unit) command_set, ())))"
proof -
  have calm: "prims_calm toy_prims" "env_calm toy_env"
    by (simp_all add: prims_calm_def env_calm_def toy_env_def calm_def toy_prims_def aes_ok_def) (auto simp: comp_def)
  have api: "api_call toy_prims toy_env (CS_Pair toy_prims toy_env [7])" by (rule api_call.intros)
  have panic: "panics (fst (CS_Pair toy_prims toy_env [7] (NewCommandSet :: (unit, unit) command_set, ())))"
    by (rule Pair_panics [where w = "()" and ch = "replicate 32 0" and r = "\<lparr>RData = [], Sw1 = 0x90, Sw2 = 0, Sw = 0x9000\<rparr>"]) (simp_all add: toy_env_def)
  from only_Pair_panics [OF calm, of "CS_Pair toy_prims toy_env [7]" "(NewCommandSet, ())" 1 "(NewCommandSet, ())"] api panic
  show ?thesis by blast
qed

end
