(* ===== verification/Mnemonic.thy ===== *)
theory Mnemonic
  imports Wordlist Go_Strings Types_Keys
begin

text \<open>
  \<open>types/mnemonic.go\<close>: BIP-39 phrases. A \<open>Mnemonic\<close> caches its words, so \<open>Words\<close> and what calls
  it return the changed object too. The checksum is compared with the bit lists of BIP-39.
\<close>

section \<open>Phrases\<close>

record Mnemonic =
  indexes :: "u16 list"
  mwords :: "string list option"
  mwordlist :: "string list option"

definition MnemonicFromCardResponse :: "bytes \<Rightarrow> Mnemonic" where
  "MnemonicFromCardResponse data =
     \<lparr>indexes = map (\<lambda>i. push_bit 8 (ucast (data ! (i * 2))) OR ucast (data ! (i * 2 + 1))) [0..<length data div 2],
      mwords = None, mwordlist = Some BIP39EnglishWordlist\<rparr>"

text \<open>The indices are \<open>int16\<close>s, read with \<open>sint\<close>.\<close>

definition MnemonicFromIndices :: "16 word list \<Rightarrow> Mnemonic res" where
  "MnemonicFromIndices indices =
     (if list_ex (\<lambda>idx. sint idx < 0 \<or> 2048 \<le> sint idx) indices then Inl (Msg ''invalid word index'')
      else Inr \<lparr>indexes = indices, mwords = None, mwordlist = Some BIP39EnglishWordlist\<rparr>)"

definition Words :: "Mnemonic \<Rightarrow> string list \<times> Mnemonic" where
  "Words m =
     (case (mwords m, mwordlist m) of
        (Some ws, _) \<Rightarrow> (ws, m)
      | (None, None) \<Rightarrow> ([], m)
      | (None, Some wl) \<Rightarrow>
          let words = map (\<lambda>idx. if length wl \<le> unat idx then [] else wl ! unat idx) (indexes m)
          in (words, m\<lparr>mwords := Some words\<rparr>))"

definition ToPhrase :: "Mnemonic \<Rightarrow> string \<times> Mnemonic" where
  "ToPhrase m =
     (let (words, m) = Words m
      in (if words = [] then [] else foldl (\<lambda>result w. result @ '' '' @ w) (hd words) (tl words), m))"

definition BinarySeedFromPhrase :: "('sk, 'pk) prims \<Rightarrow> string \<Rightarrow> string \<Rightarrow> bytes" where
  "BinarySeedFromPhrase P phrase password =
     (let salt = ''mnemonic'' @ password in pbkdf2_sha512 P (str_bytes phrase) (str_bytes salt) 2048 64)"

definition ToSeed :: "('sk, 'pk) prims \<Rightarrow> string \<Rightarrow> Mnemonic \<Rightarrow> bytes \<times> Mnemonic" where
  "ToSeed P passphrase m =
     (let (phrase, m) = ToPhrase m; salt = ''mnemonic'' @ passphrase
      in (pbkdf2_sha512 P (str_bytes phrase) (str_bytes salt) 2048 64, m))"

definition ToBinarySeed :: "('sk, 'pk) prims \<Rightarrow> Mnemonic \<Rightarrow> bytes \<times> Mnemonic" where
  "ToBinarySeed P m = ToSeed P [] m"

definition ToBIP32KeyPair :: "('sk, 'pk) prims \<Rightarrow> Mnemonic \<Rightarrow> Bip32KeyPair \<times> Mnemonic" where
  "ToBIP32KeyPair P m = (let (seed, m) = ToBinarySeed P m in (Bip32KeyPairFromBinarySeed P seed, m))"

definition ToBIP32KeyPairWithPassword :: "('sk, 'pk) prims \<Rightarrow> string \<Rightarrow> Mnemonic \<Rightarrow> Bip32KeyPair \<times> Mnemonic" where
  "ToBIP32KeyPairWithPassword P password m =
     (let (seed, m) = ToSeed P password m in (Bip32KeyPairFromBinarySeed P seed, m))"

section \<open>Checksum\<close>

text \<open>The body of the inner loop: the bit \<open>b\<close> of the \<open>i\<close>-th index goes to its place.\<close>

definition put_bit :: "u16 \<Rightarrow> nat \<Rightarrow> bytes \<Rightarrow> nat \<Rightarrow> bytes" where
  "put_bit idx i bits b =
     (let pos = i * 11 + (10 - b) in
      if drop_bit (b mod 16) idx AND 1 = 1
      then bits[pos div 8 := bits ! (pos div 8) OR push_bit (7 - pos mod 8) 1] else bits)"

definition bitstream :: "u16 list \<Rightarrow> nat \<Rightarrow> bytes" where
  "bitstream indices wordCount =
     (let totalBits = wordCount * 11 in
      foldl (\<lambda>bits i. foldl (put_bit (indices ! i) i) bits (rev [0..<11]))
        (replicate ((totalBits + 7) div 8) 0) [0..<length indices])"

definition validateChecksum :: "('sk, 'pk) prims \<Rightarrow> u16 list \<Rightarrow> nat \<Rightarrow> bool" where
  "validateChecksum P indices wordCount =
     (let checksumLenBits = wordCount div 3;
          entropyLenBits = wordCount * 11 - checksumLenBits;
          entropyLenBytes = entropyLenBits div 8;
          bits = bitstream indices wordCount;
          entropy = gcopy entropyLenBytes (take entropyLenBytes bits);
          expectedChecksumBits = sha256 P entropy;
          checksumStartByte = entropyLenBytes
      in list_all (\<lambda>i.
           let byteIdx = checksumStartByte + i div 8; bitIdx = 7 - i mod 8;
               expectedBit = drop_bit (7 - i mod 8) (expectedChecksumBits ! (i div 8)) AND 1;
               actualBit = drop_bit bitIdx (bits ! byteIdx) AND 1
           in expectedBit = actualBit) [0..<checksumLenBits])"

section \<open>Validation\<close>

text \<open>The map from words to indices, built in order.\<close>

definition put_word :: "(string \<Rightarrow> u16 option) \<Rightarrow> nat \<times> string \<Rightarrow> string \<Rightarrow> u16 option" where
  "put_word m iw = m(snd iw \<mapsto> of_nat (fst iw))"

definition word_set :: "string list \<Rightarrow> string \<Rightarrow> u16 option" where
  "word_set wl = foldl put_word Map.empty (enumerate 0 wl)"

fun word_indices :: "(string \<Rightarrow> u16 option) \<Rightarrow> string list \<Rightarrow> u16 list res" where
  "word_indices ws [] = Inr []"
| "word_indices ws (w # rest) =
     (case ws w of
        None \<Rightarrow> Inl (Msg ''invalid word'')
      | Some idx \<Rightarrow> bindE (word_indices ws rest) (\<lambda>ixs. Inr (idx # ixs)))"

definition Validate :: "('sk, 'pk) prims \<Rightarrow> Mnemonic \<Rightarrow> unit res \<times> Mnemonic" where
  "Validate P m =
     (let (words, m) = Words m in
      (if words = [] then Inl (Msg ''mnemonic is empty'')
       else if length words \<notin> {12, 15, 18, 21, 24} then Inl (Msg ''invalid mnemonic length'')
       else (case mwordlist m of
          None \<Rightarrow> Inl (Panic ''nil pointer dereference'')
        | Some wl \<Rightarrow>
            bindE (word_indices (word_set wl) words) (\<lambda>indices.
            guardE (validateChecksum P indices (length words)) (Msg ''mnemonic checksum mismatch''))), m))"

definition MnemonicFromPhrase :: "string \<Rightarrow> Mnemonic res" where
  "MnemonicFromPhrase phrase =
     (let words = go_fields phrase in
      if words = [] then Inl (Msg ''empty mnemonic phrase'')
      else bindE (word_indices (word_set BIP39EnglishWordlist) words) (\<lambda>ixs.
           Inr \<lparr>indexes = ixs, mwords = Some words, mwordlist = Some BIP39EnglishWordlist\<rparr>))"

definition ValidateMnemonic :: "('sk, 'pk) prims \<Rightarrow> string \<Rightarrow> unit res" where
  "ValidateMnemonic P phrase = bindE (MnemonicFromPhrase phrase) (\<lambda>m. fst (Validate P m))"

section \<open>Words and indices\<close>


lemma word_set_other: "w \<notin> set wl \<Longrightarrow> foldl put_word m0 (enumerate k wl) w = m0 w"
  by (induction wl arbitrary: m0 k) (auto simp: put_word_def)

lemma word_set_nth_aux:
  "distinct wl \<Longrightarrow> i < length wl \<Longrightarrow>
   foldl put_word m0 (enumerate k wl) (wl ! i) = Some (of_nat (k + i))"
proof (induction wl arbitrary: m0 k i)
  case (Cons w wl)
  show ?case
  proof (cases i)
    case 0
    have "put_word m0 (k, w) w = Some (of_nat k)" by (simp add: put_word_def)
    then show ?thesis using 0 Cons.prems word_set_other [of w wl "put_word m0 (k, w)" "Suc k"] by simp
  next
    case (Suc j)
    then show ?thesis using Cons.IH [of j "put_word m0 (k, w)" "Suc k"] Cons.prems by simp
  qed
qed simp

lemma word_set_nth: "i < 2048 \<Longrightarrow> word_set BIP39EnglishWordlist (BIP39EnglishWordlist ! i) = Some (of_nat i)"
  using word_set_nth_aux [OF wordlist_distinct, of i Map.empty 0] by (simp add: word_set_def)

lemma word_set_Some:
  assumes "word_set BIP39EnglishWordlist w = Some idx"
  shows "unat idx < 2048 \<and> w = BIP39EnglishWordlist ! unat idx"
proof -
  have "w \<in> set BIP39EnglishWordlist"
    using assms word_set_other [of w BIP39EnglishWordlist Map.empty 0] by (auto simp: word_set_def)
  then obtain i where i: "i < 2048" "w = BIP39EnglishWordlist ! i" by (auto simp: in_set_conv_nth)
  then have "idx = of_nat i" using assms word_set_nth by simp
  moreover have "unat (of_nat i :: u16) = i" using i(1) by (simp add: unat_of_nat)
  ultimately show ?thesis using i by simp
qed

text \<open>The word of an index.\<close>

definition index_word :: "u16 \<Rightarrow> string" where
  "index_word i = BIP39EnglishWordlist ! unat i"

lemma word_indices_iff:
  "word_indices (word_set BIP39EnglishWordlist) words = Inr ixs \<longleftrightarrow>
     list_all (\<lambda>i. unat i < 2048) ixs \<and> words = map index_word ixs"
proof (induction words arbitrary: ixs)
  case Nil
  show ?case by auto
next
  case (Cons w ws)
  note IH = Cons.IH
  have w: "word_set BIP39EnglishWordlist w = Some i \<longleftrightarrow> unat i < 2048 \<and> w = index_word i" for i
    using word_set_Some [of w i] word_set_nth [of "unat i"] by (auto simp: index_word_def)
  show ?case
  proof (cases "word_set BIP39EnglishWordlist w")
    case None
    then have "\<not> (unat i < 2048 \<and> w = index_word i)" for i using w [of i] by simp
    then show ?thesis using None by (cases ixs) auto
  next
    case (Some j)
    then have eq: "(unat i < 2048 \<and> w = index_word i) = (i = j)" for i using w [of i] by auto
    show ?thesis
    proof (cases ixs)
      case (Cons a list)
      have "list_all (\<lambda>i. unat i < 2048) ixs \<and> w # ws = map index_word ixs
        \<longleftrightarrow> (unat a < 2048 \<and> w = index_word a) \<and> (list_all (\<lambda>i. unat i < 2048) list \<and> ws = map index_word list)"
        using Cons by auto
      also have "\<dots> \<longleftrightarrow> a = j \<and> word_indices (word_set BIP39EnglishWordlist) ws = Inr list" by (simp only: eq IH)
      finally show ?thesis using Some Cons by (auto simp: returns_iff)
    qed (use Some in \<open>simp add: returns_iff\<close>)
  qed
qed

section \<open>Phrases back and forth\<close>

lemma index_word_plain: "unat i < 2048 \<Longrightarrow> list_all graphic (index_word i) \<and> index_word i \<noteq> []"
proof -
  assume "unat i < 2048"
  then have "plain_word (index_word i)" unfolding index_word_def by (intro wordlist_plain) simp
  then show ?thesis by (auto simp: plain_word_def list_all_iff graphic_def)
qed

lemma foldl_join: "foldl (\<lambda>result w. result @ '' '' @ w) w ws = w @ concat (map (\<lambda>w. '' '' @ w) ws)"
  by (induction ws arbitrary: w) simp_all

lemma go_fields_joined:
  assumes "list_all (\<lambda>i. unat i < 2048) (i # ixs)"
  shows "go_fields (foldl (\<lambda>result w. result @ '' '' @ w) (index_word i) (map index_word ixs)) = map index_word (i # ixs)"
proof -
  have i: "list_all graphic (index_word i)" "index_word i \<noteq> []" using index_word_plain [of i] assms by simp_all
  have "list_all (\<lambda>w. list_all graphic w \<and> w \<noteq> []) (map index_word ixs)"
    using assms index_word_plain by (auto simp: list_all_iff)
  from fields_joined [OF this i] show ?thesis
    unfolding go_fields_def foldl_join using fields_loop_graphic [OF i(1), of "[]"] by (simp add: comp_def)
qed

text \<open>A mnemonic of the code's own constructors: valid indices, words in agreement with them.\<close>

definition mnemonic_ok :: "Mnemonic \<Rightarrow> bool" where
  "mnemonic_ok m \<longleftrightarrow> list_all (\<lambda>i. unat i < 2048) (indexes m) \<and> mwordlist m = Some BIP39EnglishWordlist
     \<and> (mwords m = None \<or> mwords m = Some (map index_word (indexes m)))"

lemma Words_ok:
  assumes "mnemonic_ok m"
  shows "Words m = (map index_word (indexes m), m\<lparr>mwords := Some (map index_word (indexes m))\<rparr>)"
proof (cases "mwords m")
  case None
  have "map (\<lambda>idx. if length BIP39EnglishWordlist \<le> unat idx then [] else BIP39EnglishWordlist ! unat idx) (indexes m)
      = map index_word (indexes m)"
    using assms by (auto simp: mnemonic_ok_def list_all_iff index_word_def)
  then show ?thesis using None assms by (simp add: Words_def mnemonic_ok_def Let_def)
next
  case (Some ws)
  then show ?thesis using assms by (cases m) (simp add: Words_def mnemonic_ok_def)
qed

lemma ToPhrase_ok:
  assumes "mnemonic_ok m" "indexes m \<noteq> []"
  shows "go_fields (fst (ToPhrase m)) = map index_word (indexes m)"
proof -
  obtain i ixs where ix: "indexes m = i # ixs" using assms(2) by (cases "indexes m") auto
  then show ?thesis using go_fields_joined [of i ixs] assms(1) Words_ok [OF assms(1)]
    by (simp add: ToPhrase_def mnemonic_ok_def)
qed

lemma MnemonicFromPhrase_iff:
  "MnemonicFromPhrase phrase = Inr m \<longleftrightarrow>
     mnemonic_ok m \<and> indexes m \<noteq> [] \<and> mwords m = Some (go_fields phrase) \<and> go_fields phrase = map index_word (indexes m)"
  by (cases m) (auto simp: MnemonicFromPhrase_def Let_def returns_iff word_indices_iff mnemonic_ok_def)

lemma MnemonicFromIndices_ok:
  assumes "MnemonicFromIndices ids = Inr m"
  shows "mnemonic_ok m \<and> indexes m = ids"
proof -
  have "unat i < 2048" if "\<not> (sint i < 0 \<or> 2048 \<le> sint i)" for i :: "16 word"
  proof -
    have "uint i = uint (of_int (sint i) :: 16 word)" by simp
    also have "\<dots> = sint i mod 65536" by (simp only: uint_word_of_int take_bit_eq_mod) simp
    also have "\<dots> = sint i" using that by simp
    finally show ?thesis using that by (simp add: unat_eq_nat_uint nat_less_iff)
  qed
  then show ?thesis using assms
    by (auto simp: MnemonicFromIndices_def mnemonic_ok_def list_ex_iff list_all_iff split: if_splits)
qed

text \<open>Phrases and indices round-trip through the word list the code carries (2048 different words
  of lower-case letters): the phrase of a mnemonic that was made from indices parses back to the
  same indices and words; and whatever phrase parses, with any white space, the phrase printed
  from the result parses to the same mnemonic, with all indices below 2048.\<close>

theorem mnemonic_phrase_roundtrip:
  "(MnemonicFromIndices ids = Inr m \<and> ids \<noteq> [] \<longrightarrow>
      (\<exists>m'. MnemonicFromPhrase (fst (ToPhrase m)) = Inr m' \<and> indexes m' = ids \<and> mwords m' = Some (fst (Words m)))) \<and>
   (MnemonicFromPhrase phrase = Inr m \<longrightarrow>
      list_all (\<lambda>i. unat i < 2048) (indexes m) \<and> fst (Words m) = go_fields phrase
      \<and> MnemonicFromPhrase (fst (ToPhrase m)) = Inr m)"
proof (intro conjI impI)
  assume "MnemonicFromIndices ids = Inr m \<and> ids \<noteq> []"
  then have m: "mnemonic_ok m" "indexes m = ids" "ids \<noteq> []" using MnemonicFromIndices_ok by auto
  let ?m' = "m\<lparr>mwords := Some (map index_word ids)\<rparr>"
  have "MnemonicFromPhrase (fst (ToPhrase m)) = Inr ?m'"
    unfolding MnemonicFromPhrase_iff using m ToPhrase_ok [of m] by (simp add: mnemonic_ok_def)
  then show "\<exists>m'. MnemonicFromPhrase (fst (ToPhrase m)) = Inr m' \<and> indexes m' = ids \<and> mwords m' = Some (fst (Words m))"
    using m Words_ok [OF m(1)] by auto
next
  assume "MnemonicFromPhrase phrase = Inr m"
  then have m: "mnemonic_ok m" "indexes m \<noteq> []" "mwords m = Some (go_fields phrase)"
      "go_fields phrase = map index_word (indexes m)"
    unfolding MnemonicFromPhrase_iff by auto
  show "list_all (\<lambda>i. unat i < 2048) (indexes m)" using m(1) by (simp add: mnemonic_ok_def)
  show "fst (Words m) = go_fields phrase" using m Words_ok by simp
  show "MnemonicFromPhrase (fst (ToPhrase m)) = Inr m"
    unfolding MnemonicFromPhrase_iff using m ToPhrase_ok [of m] by simp
qed

end
