(* ===== verification/Mnemonic_Checksum.thy ===== *)
theory Mnemonic_Checksum
  imports Mnemonic
begin

text \<open>
  The checksum of \<open>types/mnemonic.go\<close> against BIP-39 itself: a phrase encodes entropy followed by
  the first bits of its SHA-256 hash, in groups of eleven bits.
\<close>

section \<open>BIP-39\<close>

text \<open>The \<open>n\<close> low bits of a word, the most significant first.\<close>

definition word_bits :: "nat \<Rightarrow> 'a::len word \<Rightarrow> bool list" where
  "word_bits n w = map (bit w) (rev [0..<n])"

definition bytes_bits :: "bytes \<Rightarrow> bool list" where
  "bytes_bits bs = concat (map (word_bits 8) bs)"

text \<open>The word indices of an entropy of 16 to 32 bytes.\<close>

definition bip39_indices :: "('sk, 'pk) prims \<Rightarrow> bytes \<Rightarrow> u16 list" where
  "bip39_indices P ent =
     (let bs = bytes_bits ent @ take (length ent div 4) (bytes_bits (sha256 P ent))
      in map (\<lambda>k. horner_sum of_bool 2 (rev (take 11 (drop (11 * k) bs)))) [0..<length bs div 11])"

section \<open>Bits\<close>

lemma length_word_bits [simp]: "length (word_bits n w) = n"
  by (simp add: word_bits_def)

lemma nth_word_bits: "k < n \<Longrightarrow> word_bits n w ! k = bit w (n - 1 - k)"
  by (simp add: word_bits_def rev_nth)

lemma length_concat_bits: "length (concat (map (word_bits n) ws)) = n * length ws"
  by (induction ws) simp_all

lemma nth_concat_bits:
  "0 < n \<Longrightarrow> q < n * length ws \<Longrightarrow> concat (map (word_bits n) ws) ! q = bit (ws ! (q div n)) (n - 1 - q mod n)"
proof (induction ws arbitrary: q)
  case (Cons w ws)
  show ?case
  proof (cases "q < n")
    case True
    then show ?thesis by (simp add: nth_append nth_word_bits)
  next
    case False
    then have "(q - n) div n = q div n - 1" "(q - n) mod n = q mod n" "0 < q div n"
      using Cons.prems(1) by (simp_all add: le_div_geq le_mod_geq div_greater_zero_iff)
    then show ?thesis using False Cons by (simp add: nth_append nth_Cons')
  qed
qed simp

lemma length_bytes_bits [simp]: "length (bytes_bits bs) = 8 * length bs"
  unfolding bytes_bits_def by (rule length_concat_bits)

lemma nth_bytes_bits: "q < 8 * length bs \<Longrightarrow> bytes_bits bs ! q = bit (bs ! (q div 8)) (7 - q mod 8)"
  unfolding bytes_bits_def by (subst nth_concat_bits) simp_all

lemma bytes_bits_inj:
  assumes "length as = length bs" "bytes_bits as = bytes_bits bs"
  shows "as = bs"
proof (rule nth_equalityI [OF assms(1)])
  fix i assume i: "i < length as"
  show "as ! i = bs ! i"
  proof (rule bit_word_eqI)
    fix n assume "n < LENGTH(8)"
    then have "n \<le> 7" by simp
    define m where "m = 7 - n"
    have m: "m \<le> 7" "n = 7 - m" using \<open>n \<le> 7\<close> by (simp_all add: m_def)
    have q: "8 * i + m < 8 * length as" "(8 * i + m) div 8 = i" "(8 * i + m) mod 8 = m"
      using i m(1) by simp_all
    then show "bit (as ! i) n = bit (bs ! i) n"
      using nth_bytes_bits [OF q(1)] nth_bytes_bits [of "8 * i + m" bs] assms m by simp
  qed
qed

lemma word_bits_inj: "word_bits n v = word_bits n w \<Longrightarrow> k < n \<Longrightarrow> bit v k = bit w k"
  using nth_word_bits [of "n - 1 - k" n v] nth_word_bits [of "n - 1 - k" n w] by simp

lemma word_bits_horner:
  "length bs \<le> 16 \<Longrightarrow> word_bits (length bs) (horner_sum of_bool 2 (rev bs) :: u16) = bs"
  by (rule nth_equalityI) (auto simp: nth_word_bits bit_horner_sum_bit_word_iff rev_nth)

section \<open>The loops\<close>

text \<open>Bit \<open>q\<close> of a byte string, counted from the front.\<close>

definition nth_bit :: "bytes \<Rightarrow> nat \<Rightarrow> bool" where
  "nth_bit bs q = bit (bs ! (q div 8)) (7 - q mod 8)"

lemma nth_bit_set:
  assumes "q < 8 * length bs" "pos < 8 * length bs"
  shows "nth_bit (bs[pos div 8 := bs ! (pos div 8) OR push_bit (7 - pos mod 8) 1]) q \<longleftrightarrow> q = pos \<or> nth_bit bs q"
proof -
  have p: "pos div 8 < length bs" using assms(2) by auto
  have "q mod 8 < 8" "pos mod 8 < 8" by simp_all
  then have "7 - q mod 8 = 7 - pos mod 8 \<longleftrightarrow> q mod 8 = pos mod 8" by linarith
  then have eq: "q = pos \<longleftrightarrow> q div 8 = pos div 8 \<and> 7 - q mod 8 = 7 - pos mod 8"
    by (metis div_mult_mod_eq)
  show ?thesis
    using p by (auto simp: nth_bit_def nth_list_update eq bit_simps)
qed

text \<open>Loops that only set bits, and do so in a buffer of fixed size.\<close>

lemma foldl_sets_bits:
  assumes "\<And>bits x. x \<in> set xs \<Longrightarrow> length bits = N \<Longrightarrow>
      length (f bits x) = N \<and> (\<forall>q < 8 * N. nth_bit (f bits x) q \<longleftrightarrow> nth_bit bits q \<or> R x q)"
    and "length bits = N"
  shows "length (foldl f bits xs) = N \<and>
      (\<forall>q < 8 * N. nth_bit (foldl f bits xs) q \<longleftrightarrow> nth_bit bits q \<or> (\<exists>x \<in> set xs. R x q))"
  using assms by (induction xs arbitrary: bits) auto

lemma put_bit_sets:
  assumes "b < 11" "i * 11 + 10 < 8 * length bits"
  shows "length (put_bit idx i bits b) = length bits \<and>
     (\<forall>q < 8 * length bits. nth_bit (put_bit idx i bits b) q \<longleftrightarrow> nth_bit bits q \<or> q = i * 11 + (10 - b) \<and> bit idx b)"
proof -
  have "b mod 16 = b" using assms(1) by simp
  then have b: "drop_bit (b mod 16) idx AND 1 = 1 \<longleftrightarrow> bit idx b" by (simp add: bit_iff_and_drop_bit_eq_1)
  have pos: "i * 11 + (10 - b) < 8 * length bits" using assms by auto
  show ?thesis
  proof (cases "bit idx b")
    case True
    then have e: "put_bit idx i bits b = bits[(i * 11 + (10 - b)) div 8 :=
        bits ! ((i * 11 + (10 - b)) div 8) OR push_bit (7 - (i * 11 + (10 - b)) mod 8) 1]"
      unfolding put_bit_def Let_def b by (rule if_P)
    show ?thesis unfolding e using nth_bit_set [OF _ pos] True by auto
  next
    case False
    then have "put_bit idx i bits b = bits" unfolding put_bit_def Let_def b by (rule if_not_P)
    then show ?thesis using False by simp
  qed
qed

lemma index_bits_set:
  assumes "i * 11 + 10 < 8 * length bits"
  shows "length (foldl (put_bit idx i) bits (rev [0..<11])) = length bits \<and>
     (\<forall>q < 8 * length bits. nth_bit (foldl (put_bit idx i) bits (rev [0..<11])) q \<longleftrightarrow>
        nth_bit bits q \<or> (\<exists>b \<in> set (rev [0..<11]). q = i * 11 + (10 - b) \<and> bit idx b))"
  by (rule foldl_sets_bits) (use put_bit_sets assms in auto)

lemma nth_bit_bitstream:
  assumes "length indices = n" "q < 11 * n"
  shows "length (bitstream indices n) = (n * 11 + 7) div 8"
    and "nth_bit (bitstream indices n) q = bit (indices ! (q div 11)) (10 - q mod 11)"
proof -
  let ?N = "(n * 11 + 7) div 8"
  let ?R = "\<lambda>i q. \<exists>b \<in> set (rev [0..<11]). q = i * 11 + (10 - b) \<and> bit (indices ! i) b"
  have fits: "i * 11 + 10 < 8 * ?N" if "i < n" for i using that by auto
  have *: "length (bitstream indices n) = ?N \<and> (\<forall>q < 8 * ?N. nth_bit (bitstream indices n) q \<longleftrightarrow>
      nth_bit (replicate ?N 0) q \<or> (\<exists>i \<in> set [0..<length indices]. ?R i q))"
    unfolding bitstream_def Let_def
    by (rule foldl_sets_bits) (use index_bits_set fits assms(1) in \<open>simp_all del: upt_Suc\<close>)
  then show "length (bitstream indices n) = ?N" by simp
  have q: "q < 8 * ?N" using assms(2) by auto
  have "nth_bit (replicate ?N 0) q = False" using q by (simp add: nth_bit_def)
  then have "nth_bit (bitstream indices n) q \<longleftrightarrow> (\<exists>i \<in> set [0..<length indices]. ?R i q)" using * q by blast
  also have "\<dots> \<longleftrightarrow> bit (indices ! (q div 11)) (10 - q mod 11)"
  proof
    assume "\<exists>i \<in> set [0..<length indices]. ?R i q"
    then obtain i b where ib: "b < 11" "q = i * 11 + (10 - b)" "bit (indices ! i) b" by auto
    define m where "m = 10 - b"
    have m: "m < 11" "b = 10 - m" "q = i * 11 + m" using ib by (simp_all add: m_def)
    then have "q div 11 = i" "q mod 11 = m" by simp_all
    with ib(3) m(2) show "bit (indices ! (q div 11)) (10 - q mod 11)" by simp
  next
    assume "bit (indices ! (q div 11)) (10 - q mod 11)"
    moreover have "q = q div 11 * 11 + (10 - (10 - q mod 11))" "q div 11 < n" using assms(2) by auto
    ultimately show "\<exists>i \<in> set [0..<length indices]. ?R i q" using assms(1)
      by (intro bexI [where x = "q div 11"] bexI [where x = "10 - q mod 11"]) auto
  qed
  finally show "nth_bit (bitstream indices n) q = bit (indices ! (q div 11)) (10 - q mod 11)" .
qed

lemma drop_bit_and_1: "drop_bit k a AND 1 = drop_bit k b AND 1 \<longleftrightarrow> bit a k = bit (b :: 'a::len word) k"
  by (simp add: bit_iff_odd_drop_bit and_one_eq mod2_eq_if)

lemma drop_eq_iff_append: "drop n xs = ys \<longleftrightarrow> xs = take n xs @ ys"
  by (metis append_take_drop_id same_append_eq)

lemma bit_list_eqI:
  "length as = n \<Longrightarrow> length bs = n \<Longrightarrow> (\<And>q. q < n \<Longrightarrow> as ! q = bs ! q) \<Longrightarrow> as = (bs :: bool list)"
  by (simp add: nth_equalityI)

text \<open>For \<open>3 * c\<close> words: the entropy has \<open>4 * c\<close> bytes and the checksum \<open>c\<close> bits.\<close>

lemma validateChecksum_iff:
  assumes "hashes_ok P" "length indices = 3 * c" "c \<le> 32"
  shows "validateChecksum P indices (3 * c) \<longleftrightarrow>
    (\<exists>ent. length ent = 4 * c \<and>
       concat (map (word_bits 11) indices) = bytes_bits ent @ take c (bytes_bits (sha256 P ent)))"
proof -
  let ?B = "concat (map (word_bits 11) indices)"
  let ?A = "bitstream indices (3 * c)"
  let ?ent = "take (4 * c) ?A"
  have lB: "length ?B = 33 * c" using length_concat_bits [of 11 indices] assms(2) by simp
  have A: "nth_bit ?A q = ?B ! q" if "q < 33 * c" for q
    using nth_bit_bitstream(2) [OF assms(2), of q] nth_concat_bits [of 11 q indices] that assms(2) by simp
  have lA: "length ?A = (3 * c * 11 + 7) div 8"
    using nth_bit_bitstream(1) [OF assms(2), of 0] assms(2) by (cases c) (simp_all add: bitstream_def)
  have le: "length ?ent = 4 * c" using lA by auto
  have ent: "bytes_bits ?ent = take (32 * c) ?B"
  proof (rule bit_list_eqI)
    show "length (bytes_bits ?ent) = 32 * c" "length (take (32 * c) ?B) = 32 * c" using le lB by simp_all
    fix q assume q: "q < 32 * c"
    then have "q div 8 < 4 * c" by auto
    then show "bytes_bits ?ent ! q = take (32 * c) ?B ! q"
      using nth_bytes_bits [of q ?ent] le A [of q] q by (simp add: nth_bit_def)
  qed
  have hash: "length (sha256 P m) = 32" for m using assms(1) by (simp add: hashes_ok_def)
  have "validateChecksum P indices (3 * c) \<longleftrightarrow>
      (\<forall>i < c. bit (sha256 P ?ent ! (i div 8)) (7 - i mod 8) = nth_bit ?A (32 * c + i))"
  proof -
    have n: "3 * c div 3 = c" "3 * c * 11 - c = 32 * c" "32 * c div 8 = 4 * c" by simp_all
    have "nth_bit ?A (32 * c + i) = bit (?A ! (4 * c + i div 8)) (7 - i mod 8)" for i
    proof -
      have "(32 * c + i) div 8 = 4 * c + i div 8" "(32 * c + i) mod 8 = i mod 8" by presburger+
      then show ?thesis by (simp add: nth_bit_def)
    qed
    then show ?thesis
      unfolding validateChecksum_def Let_def n gcopy_id [OF le] drop_bit_and_1 by (auto simp: list_all_iff)
  qed
  also have "\<dots> \<longleftrightarrow> drop (32 * c) ?B = take c (bytes_bits (sha256 P ?ent))"
  proof -
    have "bytes_bits (sha256 P ?ent) ! i = bit (sha256 P ?ent ! (i div 8)) (7 - i mod 8)" if "i < c" for i
      using nth_bytes_bits [of i "sha256 P ?ent"] hash that assms(3) by simp
    moreover have "nth_bit ?A (32 * c + i) = ?B ! (32 * c + i)" if "i < c" for i using A that by simp
    ultimately show ?thesis using lB hash assms(3) by (auto simp: list_eq_iff_nth_eq)
  qed
  also have "\<dots> \<longleftrightarrow> ?B = bytes_bits ?ent @ take c (bytes_bits (sha256 P ?ent))"
    unfolding ent by (rule drop_eq_iff_append)
  also have "\<dots> \<longleftrightarrow> (\<exists>ent. length ent = 4 * c \<and> ?B = bytes_bits ent @ take c (bytes_bits (sha256 P ent)))"
  proof
    assume "\<exists>ent. length ent = 4 * c \<and> ?B = bytes_bits ent @ take c (bytes_bits (sha256 P ent))"
    then obtain e where e: "length e = 4 * c" "?B = bytes_bits e @ take c (bytes_bits (sha256 P e))" by blast
    have "bytes_bits e = take (32 * c) ?B" using e by simp
    then have "e = ?ent" using bytes_bits_inj [of e ?ent] e(1) le ent by simp
    with e show "?B = bytes_bits ?ent @ take c (bytes_bits (sha256 P ?ent))" by simp
  qed (use le in blast)
  finally show ?thesis .
qed

section \<open>Groups of eleven bits\<close>

lemma index_of_bits: "unat (i :: u16) < 2048 \<Longrightarrow> horner_sum of_bool 2 (rev (word_bits 11 i)) = i"
proof (rule bit_word_eqI)
  fix k assume i: "unat i < 2048" and k: "k < LENGTH(16)"
  have hi: "k < 11" if "bit i k"
  proof (rule ccontr)
    assume "\<not> k < 11"
    then have "unat i < 2 ^ k" using i power_increasing [of 11 k "2 :: nat"] by simp
    then have "\<not> bit (unat i) k" by (simp add: bit_iff_odd)
    then show False using that by (simp add: bit_unsigned_iff)
  qed
  have "rev (word_bits 11 i) ! k = bit i k" if "k < 11" using that by (simp add: rev_nth nth_word_bits)
  then show "bit (horner_sum of_bool 2 (rev (word_bits 11 i)) :: u16) k = bit i k"
    using k hi by (auto simp: bit_horner_sum_bit_word_iff)
qed

lemma unat_group: "length bs \<le> 11 \<Longrightarrow> unat (horner_sum of_bool 2 bs :: u16) < 2048"
proof -
  assume l: "length bs \<le> 11"
  let ?w = "horner_sum of_bool 2 bs :: u16"
  have "take_bit 11 ?w = ?w" using l by (intro bit_word_eqI) (auto simp: bit_simps bit_horner_sum_bit_word_iff)
  then have "unat ?w = take_bit 11 (unat ?w)" by (metis unsigned_take_bit_eq)
  then show ?thesis using take_bit_nat_less_exp [of 11 "unat ?w"] by simp
qed

lemma concat_groups:
  "concat (map (\<lambda>k. take 11 (drop (11 * k) bs)) [0..<m]) = take (11 * m) bs"
proof (induction m)
  case (Suc m)
  then show ?case using take_add [of "11 * m" 11 bs] by (simp add: add.commute)
qed simp

text \<open>The indices of an entropy are the only ones below 2048 whose bits are its encoding.\<close>

lemma bip39_indices_iff:
  assumes "length ent = 4 * c" "c \<le> 32" "hashes_ok P"
  shows "indices = bip39_indices P ent \<longleftrightarrow>
    list_all (\<lambda>i. unat i < 2048) indices \<and> length indices = 3 * c \<and>
    concat (map (word_bits 11) indices) = bytes_bits ent @ take c (bytes_bits (sha256 P ent))"
proof -
  define bs where "bs = bytes_bits ent @ take c (bytes_bits (sha256 P ent))"
  let ?bs = bs
  let ?g = "\<lambda>k. take 11 (drop (11 * k) ?bs)"
  have "length (sha256 P ent) = 32" using assms(3) by (simp add: hashes_ok_def)
  then have l: "length ?bs = 11 * (3 * c)" using assms(1,2) by (simp add: bs_def)
  then have d: "length ?bs div 11 = 3 * c" by simp
  have ix: "bip39_indices P ent = map (\<lambda>k. horner_sum of_bool 2 (rev (?g k))) [0..<3 * c]"
    using d assms(1) by (simp add: bip39_indices_def Let_def bs_def [symmetric])
  have lg: "length (?g k) = 11" if "k < 3 * c" for k using that l by simp
  have wb: "word_bits 11 (horner_sum of_bool 2 (rev (?g k)) :: u16) = ?g k" if "k < 3 * c" for k
    using word_bits_horner [of "?g k"] lg [OF that] by simp
  show ?thesis unfolding bs_def [symmetric]
  proof
    assume i: "indices = bip39_indices P ent"
    have "map (word_bits 11) indices = map ?g [0..<3 * c]" unfolding i ix using wb by simp
    then have "concat (map (word_bits 11) indices) = take (11 * (3 * c)) ?bs" using concat_groups by metis
    moreover have "list_all (\<lambda>i. unat i < 2048) indices" unfolding i ix
      using unat_group lg by (simp add: list_all_iff)
    ultimately show "list_all (\<lambda>i. unat i < 2048) indices \<and> length indices = 3 * c \<and>
        concat (map (word_bits 11) indices) = ?bs" using l i ix by simp
  next
    assume a: "list_all (\<lambda>i. unat i < 2048) indices \<and> length indices = 3 * c \<and> concat (map (word_bits 11) indices) = ?bs"
    have "?g k = word_bits 11 (indices ! k)" if "k < 3 * c" for k
    proof (rule bit_list_eqI)
      show "length (?g k) = 11" using lg that by simp
      show "length (word_bits 11 (indices ! k)) = 11" by simp
      fix q :: nat assume q: "q < 11"
      have "concat (map (word_bits 11) indices) ! (11 * k + q) = bit (indices ! k) (10 - q)"
        using nth_concat_bits [of 11 "11 * k + q" indices] a that q by simp
      then show "?g k ! q = word_bits 11 (indices ! k) ! q" using a q that l by (simp add: nth_word_bits)
    qed
    then show "indices = bip39_indices P ent" unfolding ix
      using a by (intro nth_equalityI) (simp_all add: index_of_bits list_all_length)
  qed
qed

section \<open>Validation\<close>

lemma Validate_ok:
  assumes "mnemonic_ok m"
  shows "fst (Validate P m) = Inr () \<longleftrightarrow>
    length (indexes m) \<in> {12, 15, 18, 21, 24} \<and> validateChecksum P (indexes m) (length (indexes m))"
proof -
  have "list_all (\<lambda>i. unat i < 2048) (indexes m)" and wl: "mwordlist m = Some BIP39EnglishWordlist"
    using assms by (simp_all add: mnemonic_ok_def)
  then have "word_indices (word_set BIP39EnglishWordlist) (map index_word (indexes m)) = Inr (indexes m)"
    unfolding word_indices_iff by simp
  then show ?thesis
    using Words_ok [OF assms] wl by (auto simp: Validate_def returns_iff)
qed

text \<open>The words of an entropy and its checksum are accepted.\<close>

lemma ValidateMnemonic_bip39:
  assumes "hashes_ok P" "length ent \<in> {16, 20, 24, 28, 32}" "go_fields phrase = map index_word (bip39_indices P ent)"
  shows "ValidateMnemonic P phrase = Inr ()"
proof -
  define ixs where "ixs = bip39_indices P ent"
  obtain c where c: "length ent = 4 * c" "3 * c \<in> {12, 15, 18, 21, 24}" "c \<le> 32" "0 < c" using assms(2) by fastforce
  have ixs: "list_all (\<lambda>i. unat i < 2048) ixs" "length ixs = 3 * c"
    "concat (map (word_bits 11) ixs) = bytes_bits ent @ take c (bytes_bits (sha256 P ent))"
    using bip39_indices_iff [OF c(1,3) assms(1), of ixs] ixs_def by auto
  define m where "m = \<lparr>indexes = ixs, mwords = Some (go_fields phrase), mwordlist = Some BIP39EnglishWordlist\<rparr>"
  have ok: "mnemonic_ok m" using ixs(1) assms(3) by (simp add: m_def mnemonic_ok_def ixs_def)
  have m: "MnemonicFromPhrase phrase = Inr m"
    unfolding MnemonicFromPhrase_iff using ok assms(3) ixs(2) c(4) by (auto simp: m_def ixs_def)
  have "validateChecksum P ixs (3 * c)"
    unfolding validateChecksum_iff [OF assms(1) ixs(2) c(3)] using c(1) ixs(3) by blast
  then have "fst (Validate P m) = Inr ()" unfolding Validate_ok [OF ok] using ixs(2) c(2) by (simp add: m_def)
  then show "ValidateMnemonic P phrase = Inr ()" using m by (simp add: ValidateMnemonic_def)
qed

text \<open>C14. \<open>ValidateMnemonic\<close> accepts exactly the BIP-39 phrases: a string is accepted if and only if
  its fields are the words of an entropy of 16, 20, 24, 28 or 32 bytes, that is of its bits and
  the first bits of its SHA-256 hash in groups of eleven. No other word, word count or checksum
  is accepted, and no valid phrase is refused.\<close>

theorem ValidateMnemonic_iff:
  assumes "hashes_ok P"
  shows "ValidateMnemonic P phrase = Inr () \<longleftrightarrow>
    (\<exists>ent. length ent \<in> {16, 20, 24, 28, 32} \<and> go_fields phrase = map index_word (bip39_indices P ent))"
proof
  assume "ValidateMnemonic P phrase = Inr ()"
  then obtain m where m: "MnemonicFromPhrase phrase = Inr m" "fst (Validate P m) = Inr ()"
    by (auto simp: ValidateMnemonic_def returns_iff)
  then have ok: "mnemonic_ok m" "go_fields phrase = map index_word (indexes m)" unfolding MnemonicFromPhrase_iff by auto
  have v: "length (indexes m) \<in> {12, 15, 18, 21, 24}" "validateChecksum P (indexes m) (length (indexes m))"
    using m(2) Validate_ok [OF ok(1)] by auto
  then obtain c where c: "length (indexes m) = 3 * c" "4 * c \<in> {16, 20, 24, 28, 32}" "c \<le> 32" by fastforce
  obtain ent where ent: "length ent = 4 * c"
      "concat (map (word_bits 11) (indexes m)) = bytes_bits ent @ take c (bytes_bits (sha256 P ent))"
    using validateChecksum_iff [OF assms c(1,3)] v(2) unfolding c(1) by blast
  have "indexes m = bip39_indices P ent"
    using bip39_indices_iff [OF ent(1) c(3) assms] ok(1) c(1) ent(2) by (simp add: mnemonic_ok_def)
  then show "\<exists>ent. length ent \<in> {16, 20, 24, 28, 32} \<and> go_fields phrase = map index_word (bip39_indices P ent)"
    using ok(2) ent(1) c(2) by (intro exI [where x = ent]) simp
next
  assume "\<exists>ent. length ent \<in> {16, 20, 24, 28, 32} \<and> go_fields phrase = map index_word (bip39_indices P ent)"
  then show "ValidateMnemonic P phrase = Inr ()" using ValidateMnemonic_bip39 [OF assms] by blast
qed

theorem ValidateMnemonic_iff_witness:
  "ValidateMnemonic toy_prims (foldl (\<lambda>result w. result @ '' '' @ w) ''abandon'' (replicate 11 ''abandon'')) = Inr ()"
proof -
  have w: "index_word 0 = ''abandon''"
    by (simp add: index_word_def BIP39EnglishWordlist_def wordlist_0_def)
  have l: "list_all (\<lambda>i. unat i < 2048) (0 # replicate 11 (0 :: u16))" by (simp add: list_all_iff)
  have r: "replicate 12 (0 :: u16) = 0 # replicate 11 0" by (simp add: eval_nat_numeral)
  have "bip39_indices toy_prims (replicate 16 0) = replicate 12 0" by code_simp
  moreover have "go_fields (foldl (\<lambda>result w. result @ '' '' @ w) ''abandon'' (replicate 11 ''abandon''))
      = map index_word (replicate 12 0)"
    unfolding r using go_fields_joined [OF l] by (simp only: map_replicate w)
  ultimately show ?thesis
    unfolding ValidateMnemonic_iff [OF toy_prims_ok(2)] by (intro exI [where x = "replicate 16 0"]) simp
qed

theorem mnemonic_phrase_roundtrip_witness:
  "(\<exists>m. MnemonicFromIndices [3, 2047, 0] = Inr m \<and>
     (\<exists>m'. MnemonicFromPhrase (fst (ToPhrase m)) = Inr m' \<and> indexes m' = [3, 2047, 0]))"
proof -
  have "MnemonicFromIndices [3, 2047, 0] \<noteq> Inl e" for e by (simp add: MnemonicFromIndices_def)
  then obtain m where m: "MnemonicFromIndices [3, 2047, 0] = Inr m" by (cases "MnemonicFromIndices [3, 2047, 0]") auto
  have "\<exists>m'. MnemonicFromPhrase (fst (ToPhrase m)) = Inr m' \<and> indexes m' = [3, 2047, 0]"
    using mnemonic_phrase_roundtrip [of "[3, 2047, 0]" m "[]"] m by auto
  then show ?thesis using m by blast
qed

end
