(* ===== verification/Card_Mnemonic.thy ===== *)
theory Card_Mnemonic
  imports Command_Set Mnemonic_Checksum
begin

text \<open>
  \<open>GenerateMnemonic\<close> of \<open>command_set.go\<close> together with \<open>types/mnemonic.go\<close>: a card chooses the entropy and
  answers with the word indices, the client makes the phrase.
\<close>

text \<open>What a card sends: each index in two bytes, the high one first.\<close>

definition mnemonic_wire :: "u16 list \<Rightarrow> bytes" where
  "mnemonic_wire ixs = concat (map (\<lambda>i. [ucast (drop_bit 8 i), ucast i]) ixs)"

lemma card_indexes_step:
  "indexes (MnemonicFromCardResponse (a # b # rest)) = (ucast a * 256 + ucast b) # indexes (MnemonicFromCardResponse rest)"
proof -
  have "[0..<Suc n] = 0 # map Suc [0..<n]" for n by (simp add: map_Suc_upt upt_conv_Cons del: upt_Suc)
  then show ?thesis by (simp add: MnemonicFromCardResponse_def push8_or_byte del: upt_Suc)
qed

text \<open>The parsers of the two files agree on every answer; both drop an odd last byte.\<close>

lemma mnemonic_pairs_indexes:
  "mnemonic_pairs data = map (\<lambda>i. int (unat i)) (indexes (MnemonicFromCardResponse data))"
proof (induction data rule: mnemonic_pairs.induct)
  case (1 a b rest)
  have "unat (ucast a * 256 + ucast b :: u16) = unat a * 256 + unat b"
  proof -
    have "unat a < 256" "unat b < 256" using unsigned_less [of a, where ?'a = nat] unsigned_less [of b, where ?'a = nat] by simp_all
    then have "unat a * 256 + unat b < 65536" by linarith
    then have "unat a * 256 + unat b < 2 ^ LENGTH(16)" by simp
    moreover have "(ucast a * 256 + ucast b :: u16) = of_nat (unat a * 256 + unat b)" by simp
    ultimately show ?thesis by (simp only: unsigned_of_nat take_bit_nat_eq_self of_nat_id)
  qed
  then show ?case using 1
    by (simp only: mnemonic_pairs.simps card_indexes_step list.map of_nat_add of_nat_mult of_nat_numeral)
qed (simp_all add: MnemonicFromCardResponse_def)

lemma indexes_mnemonic_wire: "indexes (MnemonicFromCardResponse (mnemonic_wire ixs)) = ixs"
proof (induction ixs)
  case (Cons i ixs)
  have "(ucast (ucast (drop_bit 8 i) :: byte) * 256 + ucast (ucast i :: byte) :: u16) = i"
  proof -
    have "push_bit 8 (ucast (ucast (drop_bit 8 i) :: byte)) OR ucast (ucast i :: byte) = i"
      by (rule bit_word_eqI) (auto simp: bit_simps)
    then show ?thesis by (subst (asm) push8_or_byte) simp_all
  qed
  then show ?case using Cons by (simp add: mnemonic_wire_def card_indexes_step)
qed (simp add: mnemonic_wire_def MnemonicFromCardResponse_def)

text \<open>C15. A mnemonic generated on a card: if the card answers \<open>GenerateMnemonic\<close> with the BIP-39 indices of an
  entropy of the size it was asked for, the operation returns exactly these indices, and the
  phrase the client makes from the answer is a valid BIP-39 phrase that parses back to them.\<close>

theorem generated_mnemonic_valid:
  assumes "hashes_ok P" "4 \<le> n" "n \<le> 8" "length ent = nat (4 * n)"
    and "sendProtected P env InsGenerateMnemonic (of_int n) 0 [] s = (Inr resp, s')" "Sw resp = SwOK"
    and "RData resp = mnemonic_wire (bip39_indices P ent)"
  shows "let m = MnemonicFromCardResponse (RData resp); phrase = fst (ToPhrase m) in
    GenerateMnemonic P env n s = (Inr (map (\<lambda>i. int (unat i)) (bip39_indices P ent)), s')
    \<and> indexes m = bip39_indices P ent \<and> ValidateMnemonic P phrase = Inr ()
    \<and> (\<exists>m'. MnemonicFromPhrase phrase = Inr m' \<and> indexes m' = bip39_indices P ent)"
proof -
  define m where "m = MnemonicFromCardResponse (RData resp)"
  obtain c where c: "length ent = 4 * c" "c \<in> {4..8}"
    using assms(2-4) by (intro that [of "nat n"]) auto
  then have l: "length ent \<in> {16, 20, 24, 28, 32}" "c \<le> 32" "0 < c" by (auto simp: atLeastAtMost_iff numeral_eq_Suc le_Suc_eq)
  have ix: "list_all (\<lambda>i. unat i < 2048) (bip39_indices P ent)" "length (bip39_indices P ent) = 3 * c"
    using bip39_indices_iff [OF c(1) l(2) assms(1), of "bip39_indices P ent"] by simp_all
  have m: "indexes m = bip39_indices P ent" unfolding m_def assms(7) by (rule indexes_mnemonic_wire)
  have ok: "mnemonic_ok m" using m ix(1) by (simp add: mnemonic_ok_def m_def MnemonicFromCardResponse_def)
  have ne: "indexes m \<noteq> []" using m ix(2) l(3) by auto
  have phrase: "go_fields (fst (ToPhrase m)) = map index_word (bip39_indices P ent)" using ToPhrase_ok [OF ok ne] m by simp
  have "\<exists>m'. MnemonicFromPhrase (fst (ToPhrase m)) = Inr m' \<and> indexes m' = bip39_indices P ent"
    unfolding MnemonicFromPhrase_iff
    by (rule exI [of _ "m\<lparr>mwords := Some (map index_word (bip39_indices P ent))\<rparr>"]) (use ok ne m phrase in \<open>simp add: mnemonic_ok_def\<close>)
  moreover have "mnemonic_pairs (RData resp) = map (\<lambda>i. int (unat i)) (bip39_indices P ent)"
    unfolding mnemonic_pairs_indexes using m by (simp add: m_def)
  then have "GenerateMnemonic P env n s = (Inr (map (\<lambda>i. int (unat i)) (bip39_indices P ent)), s')"
    using assms(2,3,5,6)
    by (simp add: GenerateMnemonic_def call_parse_def call_def returns_iff parseMnemonicResponse_def bindS_def checked_def CheckOK_def)
  ultimately show ?thesis
    using ValidateMnemonic_bip39 [OF assms(1) l(1) phrase] m unfolding m_def [symmetric] Let_def by blast
qed

definition mnemonic_card :: "(unit, unit) env" where
  "mnemonic_card = toy_env\<lparr>env_send := (\<lambda>_. returnS \<lparr>RData = replicate 24 0, Sw1 = 0x90, Sw2 = 0, Sw = 0x9000\<rparr>)\<rparr>"

theorem generated_mnemonic_valid_witness:
  "\<exists>s'. GenerateMnemonic toy_prims mnemonic_card 4 (NewCommandSetWithCA [] :: (unit, unit) command_set, ()) = (Inr (replicate 12 0), s')
    \<and> ValidateMnemonic toy_prims (fst (ToPhrase (MnemonicFromCardResponse (replicate 24 0)))) = Inr ()"
proof -
  let ?s = "(NewCommandSetWithCA [] :: (unit, unit) command_set, ())" and ?resp = "\<lparr>RData = replicate 24 0, Sw1 = 0x90, Sw2 = 0, Sw = 0x9000\<rparr>"
  have ix: "bip39_indices toy_prims (replicate 16 0) = replicate 12 0" by code_simp
  have wire: "RData ?resp = mnemonic_wire (bip39_indices toy_prims (replicate 16 0))"
    unfolding ix by (simp add: mnemonic_wire_def eval_nat_numeral)
  have sent: "sendProtected toy_prims mnemonic_card InsGenerateMnemonic (of_int 4) 0 [] ?s = (Inr ?resp, ?s)"
    by (simp add: sendProtected_def with_sc_def NewCommandSetWithCA_def NewCommandSetWithCAs_def NewSecureChannel_def bindS_def
        sc_ProtectedCommand_def V2_ProtectedCommand_def sc_Transmit_def V2_Transmit_def on_version_def on_version_env_def mnemonic_card_def toy_env_def
        V2_receive_def transmit_via_def NewSecureChannelV2_def Let_def)
  from generated_mnemonic_valid [OF toy_prims_ok(2) _ _ _ sent _ wire]
  have "GenerateMnemonic toy_prims mnemonic_card 4 ?s = (Inr (replicate 12 0), ?s)"
    "ValidateMnemonic toy_prims (fst (ToPhrase (MnemonicFromCardResponse (RData ?resp)))) = Inr ()"
    by (simp_all add: ix Let_def)
  then show ?thesis by auto
qed

end
