(* ===== verification/Cash_Ident.thy ===== *)
theory Cash_Ident
  imports Command_Set
begin

text \<open>
  \<open>cash_command_set.go\<close> and \<open>ident_command_set.go\<close>: the clients of the two applets without a
  secure channel. The cash client keeps the application info of its last selection; the ident
  client has no state.
\<close>

section \<open>Cash\<close>

record cash_command_set =
  cashApplicationInfo :: CashApplicationInfo

definition NewCashCommandSet :: cash_command_set where
  "NewCashCommandSet = \<lparr>cashApplicationInfo =
     \<lparr>CashInstalled = False, CashPublicKey = [], CashPublicData = [], CashVersion = []\<rparr>\<rparr>"

text \<open>The transport call and \<open>apdu.CheckOK\<close>.\<close>

definition plain_call :: "('w, 'sk) env \<Rightarrow> command \<Rightarrow> ('w, response) st" where
  "plain_call env cmd = checked [] (env_send env cmd)"

definition Cash_Select :: "('w, 'sk) env \<Rightarrow> (cash_command_set \<times> 'w, unit) st" where
  "Cash_Select env =
     bindS (worldS (plain_call env (SetLe 0 (NewCommandSelect CashInstanceAID)))) (\<lambda>resp.
     bindS (liftS (ParseCashApplicationInfo (RData resp))) (\<lambda>appInfo.
     localS (modifyS (\<lambda>cs. cs\<lparr>cashApplicationInfo := appInfo\<rparr>))))"

definition SignWithAlgo ::
  "('sk, 'pk) prims \<Rightarrow> ('w, 'sk) env \<Rightarrow> bytes \<Rightarrow> byte \<Rightarrow> (cash_command_set \<times> 'w, Signature) st" where
  "SignWithAlgo P env data algo =
     bindS (liftS (NewCommandSign data 0x00 algo [])) (\<lambda>cmd.
     bindS (worldS (plain_call env cmd)) (\<lambda>resp. liftS (ParseSignature P data (RData resp))))"

definition Cash_Sign ::
  "('sk, 'pk) prims \<Rightarrow> ('w, 'sk) env \<Rightarrow> bytes \<Rightarrow> (cash_command_set \<times> 'w, Signature) st" where
  "Cash_Sign P env data = SignWithAlgo P env data 0x00"

section \<open>Ident\<close>

definition Ident_Select :: "('w, 'sk) env \<Rightarrow> ('w, unit) st" where
  "Ident_Select env = ignore (plain_call env (SetLe 0 (NewCommandSelect IdentInstanceAID)))"

definition Ident_StoreData :: "('w, 'sk) env \<Rightarrow> bytes \<Rightarrow> ('w, response) st" where
  "Ident_StoreData env data = plain_call env (NewCommand ClaGp InsStoreData 0x00 0x00 data)"

section \<open>What the clients do\<close>

text \<open>The cash client signs exactly 32 bytes, sent in the clear without path and with the algorithm in
  P2; the state of the client never changes, whatever the card answers.\<close>

lemma SignWithAlgo_wire:
  "SignWithAlgo P env data algo (cs, w) =
     (if length data \<noteq> 32 then (Inl (Msg ''data length must be 32''), cs, w)
      else let (r, w') = plain_call env (NewCommand ClaGp InsSign 0 algo data) w
           in (bindE r (\<lambda>resp. ParseSignature P data (RData resp)), cs, w'))"
  by (auto simp: SignWithAlgo_def NewCommandSign_def bindS_def split_def Let_def split: sum.split)

text \<open>A selection that fails leaves the application info as it was.\<close>

lemma Cash_Select_failure: "Cash_Select env (cs, w) = (Inl e, cs', w') \<Longrightarrow> cs' = cs"
  by (auto simp: Cash_Select_def bindS_def split: prod.splits sum.splits)

end
