(* ===== verification/Normal_Channel.thy ===== *)
theory Normal_Channel
  imports Gp_Commands
begin

text \<open>
  \<open>io/normal_channel.go\<close>: the channel over a card reader. The reader (\<open>Transmitter\<close>) is a
  parameter; a response whose first status byte is 61 makes \<open>Send\<close> call itself with GET RESPONSE,
  unless the command already was one.
\<close>

definition follows_up :: "command \<Rightarrow> response \<Rightarrow> bool" where
  "follows_up cmd resp \<longleftrightarrow>
     Sw1 resp = Sw1ResponseDataIncomplete \<and> (Cla cmd \<noteq> ClaISO7816 \<or> Ins cmd \<noteq> InsGetResponse)"

function NC_Send :: "(bytes \<Rightarrow> ('w, bytes) st) \<Rightarrow> command \<Rightarrow> 'w \<Rightarrow> response res \<times> 'w" where
  "NC_Send transmit cmd w =
     (case transmit (Serialize cmd) w of
        (Inl e, w') \<Rightarrow> (Inl e, w')
      | (Inr rawResp, w') \<Rightarrow>
          (case ParseResponse rawResp of
             Inl e \<Rightarrow> (Inl e, w')
           | Inr resp \<Rightarrow>
               if follows_up cmd resp then NC_Send transmit (NewCommandGetResponse (Sw2 resp)) w'
               else (ParseResponse rawResp, w')))"
  by pat_completeness auto
termination
  by (relation "measure (\<lambda>(t, cmd, w). if Cla cmd = ClaISO7816 \<and> Ins cmd = InsGetResponse then 0 else 1)")
    (auto simp: follows_up_def NewCommandGetResponse_def SetLe_def NewCommand_def)

declare NC_Send.simps [simp del]

section \<open>At most two transmissions\<close>

text \<open>A reader that records what is transmitted.\<close>

definition recording :: "(bytes \<Rightarrow> ('w, bytes) st) \<Rightarrow> bytes \<Rightarrow> ('w \<times> bytes list, bytes) st" where
  "recording transmit raw = (\<lambda>(w, log). let (r, w') = transmit raw w in (r, w', log @ [raw]))"

text \<open>One command and its response, without follow-up.\<close>

definition transmit_once :: "(bytes \<Rightarrow> ('w, bytes) st) \<Rightarrow> bytes \<Rightarrow> ('w, response) st" where
  "transmit_once transmit raw = bindS (transmit raw) (\<lambda>rawResp. liftS (ParseResponse rawResp))"

lemma Serialize_GetResponse [simp]: "Serialize (NewCommandGetResponse n) = [0x00, 0xC0, 0x00, 0x00, n]"
  by (simp add: Serialize_def NewCommandGetResponse_def SetLe_def NewCommand_def)

lemma NC_Send_GetResponse:
  "NC_Send transmit (NewCommandGetResponse n) w = transmit_once transmit [0x00, 0xC0, 0x00, 0x00, n] w"
  by (subst NC_Send.simps)
    (auto simp: transmit_once_def bindS_def follows_up_def NewCommandGetResponse_def SetLe_def NewCommand_def
      Serialize_def split: prod.splits sum.splits)

lemma NC_Send_eq:
  "NC_Send transmit cmd =
     bindS (transmit_once transmit (Serialize cmd)) (\<lambda>resp.
       if follows_up cmd resp then transmit_once transmit [0x00, 0xC0, 0x00, 0x00, Sw2 resp] else returnS resp)"
  by (rule ext, subst NC_Send.simps)
    (auto simp: NC_Send_GetResponse transmit_once_def bindS_def split: prod.splits sum.splits)

text \<open>C39. Sending always ends, whatever the card answers, after one transmission or two: the second one happens
  exactly when the first response has the status 61xx and the command was not GET RESPONSE itself, and is
  GET RESPONSE for xx bytes; the caller gets the last response, also when it says 61xx again.\<close>

theorem NC_Send_terminates:
  "case NC_Send (recording transmit) cmd (w, []) of (r, w', log) \<Rightarrow>
     (case transmit_once transmit (Serialize cmd) w of
        (Inr resp, w1) \<Rightarrow>
          if follows_up cmd resp
          then log = [Serialize cmd, [0x00, 0xC0, 0x00, 0x00, Sw2 resp]]
             \<and> (r, w') = transmit_once transmit [0x00, 0xC0, 0x00, 0x00, Sw2 resp] w1
          else log = [Serialize cmd] \<and> r = Inr resp \<and> w' = w1
      | (Inl e, w1) \<Rightarrow> log = [Serialize cmd] \<and> r = Inl e \<and> w' = w1)"
  by (auto simp: NC_Send_eq transmit_once_def bindS_def recording_def Let_def split: prod.splits sum.splits)

end
