(* ===== verification/Scp02.thy ===== *)
theory Scp02
  imports Gp_Commands Secure_Channel Sessions
begin

text \<open>
  The SCP02 secure channel: \<open>globalplatform/scp02_keys.go\<close>, \<open>session.go\<close>, \<open>scp02_wrapper.go\<close> and
  \<open>secure_channel.go\<close>. Commands are sent in the clear with a retail MAC appended that is chained
  from command to command.
\<close>

section \<open>Keys and session\<close>

record SCP02Keys =
  scpEnc :: bytes
  scpMac :: bytes

definition NewSCP02Keys :: "bytes \<Rightarrow> bytes \<Rightarrow> SCP02Keys" where
  "NewSCP02Keys enc mac = \<lparr>scpEnc = enc, scpMac = mac\<rparr>"

record Session =
  sessionKeys :: SCP02Keys
  cardChallenge :: bytes
  hostChallenge :: bytes

definition supportedSCPVersion :: byte where [simp]: "supportedSCPVersion = 2"

definition NewSession :: "('sk, 'pk) prims \<Rightarrow> SCP02Keys \<Rightarrow> response \<Rightarrow> bytes \<Rightarrow> Session res" where
  "NewSession P cardKeys resp hostCh =
     (if Sw resp = Gp_SwSecurityConditionNotSatisfied then Inl (BadResponse (Sw resp))
      else if Sw resp = Gp_SwAuthenticationMethodBlocked then Inl (BadResponse (Sw resp))
      else if length (RData resp) \<noteq> 28 then Inl (BadResponse (Sw resp))
      else
        let scpMajorVersion = RData resp ! 11 in
        if scpMajorVersion \<noteq> supportedSCPVersion then Inl (Msg ''scp version not supported'')
        else
          let cardCh = gslice 12 20 (RData resp);
              cardCryptogram = gslice 20 28 (RData resp);
              seq = gslice 12 14 (RData resp)
          in bindE (Gp_DeriveKey P (scpEnc cardKeys) seq DerivationPurposeEnc) (\<lambda>sessionEncKey.
             bindE (Gp_DeriveKey P (scpEnc cardKeys) seq DerivationPurposeMac) (\<lambda>sessionMacKey.
             let keys = NewSCP02Keys sessionEncKey sessionMacKey in
             bindE (Gp_VerifyCryptogram P (scpEnc keys) hostCh cardCh cardCryptogram) (\<lambda>verified.
             if \<not> verified then Inl BadCryptogram
             else Inr \<lparr>sessionKeys = keys, cardChallenge = cardCh, hostChallenge = hostCh\<rparr>))))"

section \<open>Wrapping\<close>

record SCP02Wrapper =
  wMacKey :: bytes
  wIcv :: bytes

definition NewSCP02Wrapper :: "bytes \<Rightarrow> SCP02Wrapper" where
  "NewSCP02Wrapper macKey = \<lparr>wMacKey = macKey, wIcv = NullBytes8\<rparr>"

definition mac_data_scp :: "byte \<Rightarrow> command \<Rightarrow> bytes" where
  "mac_data_scp cla cmd = [cla, Ins cmd, P1 cmd, P2 cmd, of_nat (length (CData cmd) + 8)] @ CData cmd"

definition Scp02_Wrap :: "('sk, 'pk) prims \<Rightarrow> command \<Rightarrow> (SCP02Wrapper, command) st" where
  "Scp02_Wrap P cmd = (\<lambda>w.
     let cla = Cla cmd OR 0x04; macData = mac_data_scp cla cmd in
     case (if wIcv w = NullBytes8 then Inr (wIcv w) else EncryptICV P (wMacKey w) (wIcv w)) of
       Inl e \<Rightarrow> (Inl e, w)
     | Inr icv \<Rightarrow>
         (case MacFull3DES P (wMacKey w) macData icv of
            Inl e \<Rightarrow> (Inl e, w)
          | Inr mac \<Rightarrow>
              let newCmd = NewCommand cla (Ins cmd) (P1 cmd) (P2 cmd) (CData cmd @ mac);
                  (ok, le) = Le cmd
              in (Inr (if ok then SetLe le newCmd else newCmd), w\<lparr>wIcv := mac\<rparr>)))"

text \<open>\<open>NewSecureChannel\<close> and \<open>Send\<close> of the package: the session and its wrapper over the transport.\<close>

record gp_channel =
  gcSession :: Session
  gcWrapper :: SCP02Wrapper

definition Gp_NewSecureChannel :: "Session \<Rightarrow> gp_channel" where
  "Gp_NewSecureChannel s = \<lparr>gcSession = s, gcWrapper = NewSCP02Wrapper (scpMac (sessionKeys s))\<rparr>"

definition Gp_Send :: "('sk, 'pk) prims \<Rightarrow> ('w, 'sk) env \<Rightarrow> command \<Rightarrow> (gp_channel \<times> 'w, response) st" where
  "Gp_Send P env cmd =
     bindS (localS (\<lambda>ch. let (r, w) = Scp02_Wrap P cmd (gcWrapper ch) in (r, ch\<lparr>gcWrapper := w\<rparr>))) (\<lambda>wrappedCmd.
     worldS (env_send env wrappedCmd))"

section \<open>Invariant\<close>

definition wrapper_inv :: "SCP02Wrapper \<Rightarrow> bool" where
  "wrapper_inv w \<longleftrightarrow> 16 \<le> length (wMacKey w) \<and> length (wIcv w) = 8"

text \<open>The chaining value a command is authenticated under.\<close>

definition chain_icv :: "('sk, 'pk) prims \<Rightarrow> bytes \<Rightarrow> bytes \<Rightarrow> bytes" where
  "chain_icv P key icv = (if icv = NullBytes8 then icv else cbc_encrypt (desE P (take 8 key)) 8 NullBytes8 icv)"

definition scp_mac :: "('sk, 'pk) prims \<Rightarrow> bytes \<Rightarrow> bytes \<Rightarrow> bytes \<Rightarrow> bytes" where
  "scp_mac P key icv macData = retail_mac P key (chain_icv P key icv) (iso_pad8 macData)"

lemma chain_icv_ok:
  assumes "des_ok P" "16 \<le> length key" "length icv = 8"
  shows "(if icv = NullBytes8 then Inr icv else EncryptICV P key icv) = Inr (chain_icv P key icv)"
    and "length (chain_icv P key icv) = 8"
proof -
  have E: "length (desE P k b) = 8" if "length b = 8" for k b using assms(1) that by (simp add: des_ok_def)
  note des_cbc_Inr [of "desE P (take 8 key)" NullBytes8 icv 8] length_cbc_encrypt [of 8 "desE P (take 8 key)" NullBytes8 icv]
  with E assms(2,3) show "(if icv = NullBytes8 then Inr icv else EncryptICV P key icv) = Inr (chain_icv P key icv)"
    "length (chain_icv P key icv) = 8"
    by (simp_all add: chain_icv_def EncryptICV_def resizeKeys)
qed

text \<open>On a well-formed wrapper, wrapping always succeeds; the MAC becomes the next chaining value.\<close>

lemma Scp02_Wrap_spec:
  fixes cmd :: command
  assumes "des_ok P" "wrapper_inv w"
  defines "mac \<equiv> scp_mac P (wMacKey w) (wIcv w) (mac_data_scp (Cla cmd OR 0x04) cmd)"
  shows "Scp02_Wrap P cmd w =
    (Inr (cmd\<lparr>Cla := Cla cmd OR 0x04, CData := CData cmd @ mac, CLe := if requiresLe cmd then CLe cmd else 0\<rparr>), w\<lparr>wIcv := mac\<rparr>)"
    and "length mac = 8" "wrapper_inv (w\<lparr>wIcv := mac\<rparr>)"
proof -
  have w: "16 \<le> length (wMacKey w)" "length (wIcv w) = 8" using assms(2) by (simp_all add: wrapper_inv_def)
  note icv = chain_icv_ok [OF assms(1) w]
  note m = MacFull3DES_retail [OF assms(1) w(1) icv(2), of "mac_data_scp (Cla cmd OR 0x04) cmd", unfolded AppendDESPadding_iso, folded scp_mac_def]
  show "length mac = 8" using m(2) by (simp add: mac_def)
  then show "wrapper_inv (w\<lparr>wIcv := mac\<rparr>)" using w by (simp add: wrapper_inv_def)
  show "Scp02_Wrap P cmd w =
    (Inr (cmd\<lparr>Cla := Cla cmd OR 0x04, CData := CData cmd @ mac, CLe := if requiresLe cmd then CLe cmd else 0\<rparr>), w\<lparr>wIcv := mac\<rparr>)"
    unfolding Scp02_Wrap_def Let_def icv(1) sum.case m(1)
    by (simp add: mac_def Le_def NewCommand_def SetLe_def)
qed

section \<open>The card's end\<close>

text \<open>
  The card checks the MAC of a command against its own chain, strips it and advances. What it
  authenticates is what it received, as GlobalPlatform (SCP02, C-MAC over the modified
  APDU) has it: the header with the secure-messaging class byte and the length byte of the wire,
  which counts the MAC, and the data in front of the MAC. A command it does not accept leaves its
  chain as it is.
\<close>

record scp_card =
  k_mac :: bytes
  k_icv :: bytes

definition card_unwrap :: "('sk, 'pk) prims \<Rightarrow> command \<Rightarrow> scp_card \<Rightarrow> (command \<times> scp_card) option" where
  "card_unwrap P cmd c =
     (if length (CData cmd) < 8 then None
      else
        let n = length (CData cmd) - 8; plain = cmd\<lparr>CData := take n (CData cmd)\<rparr>;
            mac = drop n (CData cmd);
            received = [Cla cmd, Ins cmd, P1 cmd, P2 cmd, of_nat (length (CData cmd))] @ take n (CData cmd)
        in if scp_mac P (k_mac c) (k_icv c) received = mac
           then Some (plain, c\<lparr>k_icv := mac\<rparr>) else None)"

definition in_step :: "SCP02Wrapper \<Rightarrow> scp_card \<Rightarrow> bool" where
  "in_step w c \<longleftrightarrow> wrapper_inv w \<and> k_mac c = wMacKey w \<and> k_icv c = wIcv w"

text \<open>What the card is meant to receive: the command with the secure-messaging bit.\<close>

definition secured :: "command \<Rightarrow> command" where
  "secured cmd = cmd\<lparr>Cla := Cla cmd OR 0x04\<rparr>"

definition scp_exchange ::
  "('sk, 'pk) prims \<Rightarrow> command \<Rightarrow> SCP02Wrapper \<times> scp_card \<Rightarrow> (command \<times> SCP02Wrapper \<times> scp_card) option" where
  "scp_exchange P cmd = (\<lambda>(w, c).
     case Scp02_Wrap P cmd w of
       (Inl _, _) \<Rightarrow> None
     | (Inr wcmd, w') \<Rightarrow>
         Option.bind (over_wire wcmd) (\<lambda>rcmd.
         Option.bind (card_unwrap P rcmd c) (\<lambda>(plain, c'). Some (plain, w', c'))))"

lemma scp_exchange_in_step:
  assumes "des_ok P" "in_step w c" "command_wf cmd" "length (CData cmd) \<le> 247"
  obtains w' c' where "scp_exchange P cmd (w, c) = Some (secured cmd, w', c')" "in_step w' c'"
proof -
  have inv: "wrapper_inv w" and k: "k_mac c = wMacKey w" "k_icv c = wIcv w" using assms(2) by (simp_all add: in_step_def)
  define mac where "mac = scp_mac P (wMacKey w) (wIcv w) (mac_data_scp (Cla cmd OR 0x04) cmd)"
  note wrap = Scp02_Wrap_spec [OF assms(1) inv, of cmd, folded mac_def]
  let ?wcmd = "cmd\<lparr>Cla := Cla cmd OR 0x04, CData := CData cmd @ mac\<rparr>"
  have le: "\<not> requiresLe cmd \<Longrightarrow> CLe cmd = 0" using assms(3) by (simp add: command_wf_def)
  then have w: "Scp02_Wrap P cmd w = (Inr ?wcmd, w\<lparr>wIcv := mac\<rparr>)" using wrap(1) by (cases cmd) auto
  have "command_wf ?wcmd" using assms(3,4) wrap(2) by (simp add: command_wf_def)
  moreover have "CData ?wcmd \<noteq> []" using wrap(2) by auto
  ultimately have "ParseCommand (Serialize ?wcmd) = Inr ?wcmd" by (intro ParseCommand_Serialize_wf disjI1)
  then have wire: "over_wire ?wcmd = Some ?wcmd" by (simp add: over_wire_def)
  have "mac_data_scp (Cla cmd OR 0x04) cmd
      = [Cla ?wcmd, Ins ?wcmd, P1 ?wcmd, P2 ?wcmd, of_nat (length (CData ?wcmd))] @ CData cmd"
    using wrap(2) by (simp add: mac_data_scp_def)
  then have "scp_mac P (k_mac c) (k_icv c)
      ([Cla ?wcmd, Ins ?wcmd, P1 ?wcmd, P2 ?wcmd, of_nat (length (CData ?wcmd))] @ CData cmd) = mac"
    using k by (simp add: mac_def)
  then have "card_unwrap P ?wcmd c = Some (secured cmd, c\<lparr>k_icv := mac\<rparr>)"
    using wrap(2) by (simp add: card_unwrap_def secured_def Let_def)
  with w wire have "scp_exchange P cmd (w, c) = Some (secured cmd, w\<lparr>wIcv := mac\<rparr>, c\<lparr>k_icv := mac\<rparr>)"
    by (simp add: scp_exchange_def)
  moreover have "in_step (w\<lparr>wIcv := mac\<rparr>) (c\<lparr>k_icv := mac\<rparr>)" using wrap(3) k by (simp add: in_step_def)
  ultimately show ?thesis by (rule that)
qed

text \<open>Client and card form a lockstep pair.\<close>

interpretation scp: lockstep "scp_exchange P" "\<lambda>(w, c). des_ok P \<and> in_step w c"
    "\<lambda>cmd. command_wf cmd \<and> length (CData cmd) \<le> 247" secured for P :: "('sk, 'pk) prims"
proof
  fix s :: "SCP02Wrapper \<times> scp_card" and cmd
  assume "case s of (w, c) \<Rightarrow> des_ok P \<and> in_step w c" "command_wf cmd \<and> length (CData cmd) \<le> 247"
  then obtain w c where s: "s = (w, c)" "des_ok P" "in_step w c" "command_wf cmd" "length (CData cmd) \<le> 247"
    by (cases s) auto
  obtain w' c' where "scp_exchange P cmd (w, c) = Some (secured cmd, w', c')" "in_step w' c'"
    by (rule scp_exchange_in_step [OF s(2-5)])
  with s show "\<exists>s'. scp_exchange P cmd s = Some (secured cmd, s') \<and> (case s' of (w, c) \<Rightarrow> des_ok P \<and> in_step w c)"
    by auto
qed

text \<open>C16. A GlobalPlatform session of any length is lossless: with a card that holds the session's MAC key
  and chaining value, every command of at most 247 data bytes, wrapped, serialised and parsed by
  the card, passes the card's MAC check and comes out as it was sent, with the secure-messaging
  bit set, and wrapper and card stay in step.\<close>

theorem scp02_session_lossless:
  assumes "des_ok P" "in_step w c" "list_all (\<lambda>cmd. command_wf cmd \<and> length (CData cmd) \<le> 247) cmds"
  shows "\<exists>w' c'. run_session (scp_exchange P) cmds (w, c) = Some (map secured cmds, w', c') \<and> in_step w' c'"
  using scp.session_delivers [of P "(w, c)" cmds] assms by auto

theorem scp02_session_lossless_witness:
  "\<exists>w' c'. run_session (scp_exchange toy_prims) [NewCommandDelete [0xA0, 0] 0, Gp_NewCommandGetStatus [] 0x80]
       (NewSCP02Wrapper (replicate 16 1), \<lparr>k_mac = replicate 16 1, k_icv = NullBytes8\<rparr>)
     = Some (map secured [NewCommandDelete [0xA0, 0] 0, Gp_NewCommandGetStatus [] 0x80], w', c') \<and> in_step w' c'"
  by (rule scp02_session_lossless)
    (simp_all add: in_step_def wrapper_inv_def NewSCP02Wrapper_def NewCommandDelete_def
      Gp_NewCommandGetStatus_def NewCommand_def command_wf_def lv_def)

section \<open>Authentication of the card\<close>

text \<open>The documented SCP02 session key and cryptogram, over a key of 16 bytes.\<close>

definition scp_session_key :: "('sk, 'pk) prims \<Rightarrow> bytes \<Rightarrow> bytes \<Rightarrow> bytes \<Rightarrow> bytes" where
  "scp_session_key P key purpose seq =
     cbc_encrypt (des3E P (take 16 key @ take 8 key)) 8 NullBytes8 (purpose @ seq @ replicate 12 0)"

definition scp_cryptogram :: "('sk, 'pk) prims \<Rightarrow> bytes \<Rightarrow> bytes \<Rightarrow> bytes" where
  "scp_cryptogram P key challenges =
     drop 16 (cbc_encrypt (des3E P (take 16 key @ take 8 key)) 8 NullBytes8 (iso_pad8 challenges))"

lemma Gp_DeriveKey_spec:
  assumes "des_ok P" "16 \<le> length key" "length seq = 2" "length purpose = 2"
  shows "Gp_DeriveKey P key seq purpose = Inr (scp_session_key P key purpose seq)"
    and "length (scp_session_key P key purpose seq) = 16"
proof -
  let ?E = "des3E P (take 16 key @ take 8 key)"
  have E: "length (?E b) = 8" if "length b = 8" for b using assms(1) that by (simp add: des_ok_def)
  have d: "gcopy 16 (purpose @ seq) = purpose @ seq @ replicate 12 0" using assms(3,4) by (simp add: gcopy_def)
  have l: "length (purpose @ seq @ replicate 12 (0 :: byte)) = 16" using assms(3,4) by simp
  show "Gp_DeriveKey P key seq purpose = Inr (scp_session_key P key purpose seq)"
    using des_cbc_Inr [of ?E NullBytes8 "purpose @ seq @ replicate 12 0" 16, OF E] l assms(3,4) d
    by (simp add: Gp_DeriveKey_def resizeKeys [OF assms(2)] go_prefix_def scp_session_key_def)
  show "length (scp_session_key P key purpose seq) = 16"
    using length_cbc_encrypt [of 8 ?E NullBytes8 "purpose @ seq @ replicate 12 0"] E assms(3,4)
    by (simp add: scp_session_key_def)
qed

lemma Mac3DES_spec:
  assumes "des_ok P" "16 \<le> length key" "length challenges = 16"
  shows "Mac3DES P key (AppendDESPadding challenges) NullBytes8 = Inr (scp_cryptogram P key challenges)"
proof -
  let ?E = "des3E P (take 16 key @ take 8 key)"
  have E: "length (?E b) = 8" if "length b = 8" for b using assms(1) that by (simp add: des_ok_def)
  have l: "length (AppendDESPadding challenges) = 24" using assms(3) by simp
  show ?thesis
    using des_cbc_Inr [of ?E NullBytes8 "AppendDESPadding challenges" 24, OF E] l
    by (simp add: Mac3DES_def resizeKeys [OF assms(2)] scp_cryptogram_def AppendDESPadding_iso)
qed

lemma NewSession_spec:
  assumes "des_ok P" "16 \<le> length (scpEnc keys)" "length hc = 8"
  defines "enc \<equiv> \<lambda>seq. scp_session_key P (scpEnc keys) DerivationPurposeEnc seq"
  shows "NewSession P keys resp hc =
    (if Sw resp = 0x6982 \<or> Sw resp = 0x6983 \<or> length (RData resp) \<noteq> 28 then Inl (BadResponse (Sw resp))
     else if RData resp ! 11 \<noteq> 2 then Inl (Msg ''scp version not supported'')
     else let cc = gslice 12 20 (RData resp); seq = take 2 cc in
       if scp_cryptogram P (enc seq) (hc @ cc) \<noteq> drop 20 (RData resp) then Inl BadCryptogram
       else Inr \<lparr>sessionKeys = NewSCP02Keys (enc seq) (scp_session_key P (scpEnc keys) DerivationPurposeMac seq),
                 cardChallenge = cc, hostChallenge = hc\<rparr>)"
proof (cases "Sw resp = 0x6982 \<or> Sw resp = 0x6983 \<or> length (RData resp) \<noteq> 28 \<or> RData resp ! 11 \<noteq> 2")
  case False
  let ?d = "RData resp" and ?cc = "gslice 12 20 (RData resp)"
  have l: "length ?d = 28" using False by simp
  have seq: "gslice 12 14 ?d = take 2 ?cc" "length (take 2 ?cc) = 2" "length ?cc = 8"
    using l by (simp_all add: gslice_def)
  have cg: "gslice 20 28 ?d = drop 20 ?d" using l by (simp add: gslice_def)
  have p: "length DerivationPurposeEnc = 2" "length DerivationPurposeMac = 2"
    by (simp_all add: DerivationPurposeEnc_def DerivationPurposeMac_def)
  note e = Gp_DeriveKey_spec [OF assms(1,2) seq(2) p(1)]
  note m = Gp_DeriveKey_spec [OF assms(1,2) seq(2) p(2)]
  have k: "16 \<le> length (enc (take 2 ?cc))" using e(2) by (simp add: enc_def)
  have "length (hc @ ?cc) = 16" using assms(3) seq(3) by simp
  note v = Mac3DES_spec [OF assms(1) k this]
  have "NewSession P keys resp hc =
     bindE (Gp_DeriveKey P (scpEnc keys) (gslice 12 14 ?d) DerivationPurposeEnc) (\<lambda>sessionEncKey.
     bindE (Gp_DeriveKey P (scpEnc keys) (gslice 12 14 ?d) DerivationPurposeMac) (\<lambda>sessionMacKey.
     let keys = NewSCP02Keys sessionEncKey sessionMacKey in
     bindE (Gp_VerifyCryptogram P (scpEnc keys) hc ?cc (gslice 20 28 ?d)) (\<lambda>verified.
     if \<not> verified then Inl BadCryptogram
     else Inr \<lparr>sessionKeys = keys, cardChallenge = ?cc, hostChallenge = hc\<rparr>)))"
    using False by (simp add: NewSession_def Let_def)
  also have "\<dots> = (if scp_cryptogram P (enc (take 2 ?cc)) (hc @ ?cc) \<noteq> drop 20 ?d then Inl BadCryptogram
       else Inr \<lparr>sessionKeys = NewSCP02Keys (enc (take 2 ?cc)) (scp_session_key P (scpEnc keys) DerivationPurposeMac (take 2 ?cc)),
                 cardChallenge = ?cc, hostChallenge = hc\<rparr>)"
    unfolding seq(1) e(1) m(1) bindE_simps Let_def Gp_VerifyCryptogram_def NewSCP02Keys_def SCP02Keys.simps
      v [unfolded enc_def] cg by (simp add: enc_def NewSCP02Keys_def)
  finally show ?thesis using False by (simp add: Let_def)
qed (auto simp: NewSession_def)

end
