(* ===== verification/Gp_Load.thy ===== *)
theory Gp_Load
  imports Gp_Commands Tlv
begin

text \<open>
  \<open>globalplatform/load.go\<close>: the LOAD FILE stream. The zip reader is library code: a CAP file is
  the list of its entries, base name and the result of reading the entry. A file is a map from
  names to contents; the stream hands it out in blocks of 247 bytes. \<open>math.Ceil\<close> of the float
  quotient is the rounded-up quotient for every length a float64 holds exactly (below \<open>2 ^ 53\<close>).
\<close>

section \<open>Files\<close>

definition internalFiles :: "string list" where
  "internalFiles = [''Header'', ''Directory'', ''Import'', ''Applet'', ''Class'',
     ''Method'', ''StaticField'', ''Export'', ''ConstantPool'', ''RefLocation'']"

text \<open>\<open>strings.Split(name, ".")[0]\<close>; a later entry of the same name replaces an earlier one.\<close>

fun loadFiles :: "(string \<times> bytes res) list \<Rightarrow> (string \<rightharpoonup> bytes) \<Rightarrow> (string \<rightharpoonup> bytes) res" where
  "loadFiles [] files = Inr files"
| "loadFiles ((fileName, content) # items) files =
     bindE content (\<lambda>data. loadFiles items (files(takeWhile (\<lambda>c. c \<noteq> CHR ''.'') fileName \<mapsto> data)))"

definition encodeLength :: "nat \<Rightarrow> bytes" where
  "encodeLength len =
     (if len < 0x80 then [of_nat len]
      else if len < 0xFF then [0x81, of_nat len]
      else if len < 0xFFFF then [0x82, of_nat (drop_bit 8 (len AND 0xFF00)), of_nat (len AND 0xFF)]
      else [0x83, of_nat (drop_bit 16 (len AND 0xFF0000)), of_nat (drop_bit 8 (len AND 0xFF00)),
            of_nat (len AND 0xFF)])"

definition encodeFilesData :: "(string \<rightharpoonup> bytes) \<Rightarrow> bytes" where
  "encodeFilesData files =
     (let filesData = concat (map (\<lambda>n. case files n of None \<Rightarrow> [] | Some data \<Rightarrow> data) internalFiles)
      in tagLoadFileDataBlock # encodeLength (length filesData) @ filesData)"

section \<open>The stream\<close>

definition blockSize :: nat where [simp]: "blockSize = 247"

record load_stream =
  lsData :: bytes          \<comment> \<open>what the reader has not handed out\<close>
  currentIndex :: byte
  currentData :: bytes
  lsP1 :: byte
  blocksCount :: nat

definition NewLoadCommandStream :: "(string \<times> bytes res) list \<Rightarrow> load_stream res" where
  "NewLoadCommandStream items =
     bindE (loadFiles items Map.empty) (\<lambda>files.
     let data = encodeFilesData files in
     Inr \<lparr>lsData = data, currentIndex = 0, currentData = [], lsP1 = P1LoadMoreBlocks,
          blocksCount = (length data + (blockSize - 1)) div blockSize\<rparr>)"

definition load_Next :: "load_stream \<Rightarrow> bool \<times> load_stream" where
  "load_Next lcs =
     (if lsData lcs = [] then (False, lcs)
      else
        let lcs = lcs\<lparr>currentData := take blockSize (lsData lcs), lsData := drop blockSize (lsData lcs)\<rparr>;
            lcs = lcs\<lparr>currentIndex := currentIndex lcs + 1\<rparr>
        in (True, if lsData lcs = [] then lcs\<lparr>lsP1 := P1LoadLastBlock\<rparr> else lcs))"

definition load_Index :: "load_stream \<Rightarrow> byte" where
  "load_Index lcs = currentIndex lcs - 1"

definition GetCommand :: "load_stream \<Rightarrow> command" where
  "GetCommand lcs = NewCommand ClaGp InsLoad (lsP1 lcs) (load_Index lcs) (currentData lcs)"

section \<open>Lengths\<close>

text \<open>Only the numbers 255 and 65535 get one byte more than they need.\<close>

lemma mask_bytes:
  "of_nat (drop_bit 8 (n AND 0xFF00)) = (of_nat (n div 256) :: byte)"
  "of_nat (drop_bit 16 (n AND 0xFF0000)) = (of_nat (n div 256 div 256) :: byte)"
  "of_nat (n AND 0xFF) = (of_nat n :: byte)"
proof -
  have m: "n AND 0xFF = n mod 256" for n :: nat
    using take_bit_eq_mask [of 8 n] by (simp add: mask_eq_exp_minus_1 take_bit_eq_mod)
  have d: "drop_bit k (n AND push_bit k 0xFF) = drop_bit k n AND 0xFF" for k and n :: nat
    by (rule bit_eqI) (simp add: bit_simps)
  have p: "0xFF00 = push_bit 8 (0xFF :: nat)" "0xFF0000 = push_bit 16 (0xFF :: nat)" by (simp_all add: push_bit_eq_mult)
  have b: "of_nat (k mod 256) = (of_nat k :: byte)" for k
    by (rule word_unat_eq_iff [THEN iffD2]) (simp del: of_nat_mod)
  show "of_nat (n AND 0xFF) = (of_nat n :: byte)" by (simp only: m b)
  have e: "drop_bit 8 n = n div 256" "drop_bit 16 n = n div 256 div 256"
    by (simp_all add: drop_bit_eq_div flip: div_mult2_eq)
  show "of_nat (drop_bit 8 (n AND 0xFF00)) = (of_nat (n div 256) :: byte)"
    by (simp only: p d m b e)
  show "of_nat (drop_bit 16 (n AND 0xFF0000)) = (of_nat (n div 256 div 256) :: byte)"
    by (simp only: p d m b e)
qed

lemma encodeLength_bytes:
  "encodeLength n =
     (if n < 128 then [of_nat n]
      else if n < 255 then 0x81 # be_bytes 1 n
      else if n < 65535 then 0x82 # be_bytes 2 n
      else 0x83 # be_bytes 3 n)"
  unfolding encodeLength_def mask_bytes be_bytes_numerals by simp

lemma ber_length_encodeLength:
  assumes "n < 2 ^ 24"
  shows "ber_length (encodeLength n @ rest) = Some (n, rest)"
  using assms unfolding encodeLength_bytes by (simp add: Let_def be_nat_be_bytes)

interpretation gp_length: prefix_codec encodeLength ber_length "\<lambda>n. n < 2 ^ 24"
  by unfold_locales (simp_all add: ber_length_encodeLength ber_length_shrinks)

lemma encodeLength_nonempty [simp]: "encodeLength n \<noteq> []"
  by (simp add: encodeLength_def)

text \<open>The second BER length encoder of the repository against the first: below 16 MB \<open>DecodeBerLength\<close> reads
  what \<open>encodeLength\<close> writes, and the two encoders write the same bytes except for the lengths 255 and 65535,
  where \<open>encodeLength\<close> takes one byte more than the shortest form.\<close>

theorem encodeLength_agrees:
  assumes "n < 2 ^ 24"
  shows "decode_ber_length (us @ encodeLength n @ vs) (length us) = Inr (of_nat n, length us + length (encodeLength n))
    \<and> (encodeLength n = encode_ber_length (of_nat n) \<longleftrightarrow> n \<noteq> 255 \<and> n \<noteq> 65535)"
proof
  show "decode_ber_length (us @ encodeLength n @ vs) (length us) = Inr (of_nat n, length us + length (encodeLength n))"
    using decode_ber_length_at [OF ber_length_encodeLength [OF assms], of us vs] by simp
  have "unat (of_nat n :: u32) = n" using assms by (simp add: unat_of_nat take_bit_nat_eq_self)
  then have e: "encode_ber_length (of_nat n) =
     (if n < 128 then [of_nat n] else if n < 256 then 0x81 # be_bytes 1 n
      else if n < 256 ^ 2 then 0x82 # be_bytes 2 n else 0x83 # be_bytes 3 n)"
    unfolding encode_ber_length_bytes using assms by simp
  show "encodeLength n = encode_ber_length (of_nat n) \<longleftrightarrow> n \<noteq> 255 \<and> n \<noteq> 65535"
    unfolding encodeLength_bytes e using assms by (auto dest: arg_cong [where f = length])
qed

theorem encodeLength_agrees_witness:
  "decode_ber_length ([7] @ encodeLength 255 @ []) (length [7 :: byte]) = Inr (of_nat 255, length [7 :: byte] + length (encodeLength 255))
    \<and> (encodeLength 255 = encode_ber_length (of_nat 255) \<longleftrightarrow> (255 :: nat) \<noteq> 255 \<and> (255 :: nat) \<noteq> 65535)"
  by (rule encodeLength_agrees) simp

section \<open>The blocks\<close>

lemma load_Next_shrinks: "load_Next lcs = (True, lcs') \<Longrightarrow> length (lsData lcs') < length (lsData lcs)"
  by (auto simp: load_Next_def Let_def split: if_splits)

text \<open>The commands that a loop \<open>for load.Next() { ... load.GetCommand() ... }\<close> sees.\<close>

function stream_commands :: "load_stream \<Rightarrow> command list" where
  "stream_commands lcs =
     (let (more, lcs') = load_Next lcs in if more then GetCommand lcs' # stream_commands lcs' else [])"
  by pat_completeness auto
termination
  by (relation "measure (\<lambda>lcs. length (lsData lcs))") (auto dest: load_Next_shrinks [OF sym])

declare stream_commands.simps [simp del]

text \<open>The blocks of the data.\<close>

definition load_block :: "nat \<Rightarrow> bytes \<Rightarrow> nat \<Rightarrow> command" where
  "load_block k data i =
     NewCommand ClaGp InsLoad (if (i + 1) * blockSize < length data then 0x00 else 0x80) (of_nat (k + i))
       (take blockSize (drop (i * blockSize) data))"

lemma ceil_blocks: "(n + 246) div 247 = (if n = 0 then 0 else Suc ((n - 247 + 246) div 247))" for n :: nat
proof (cases "247 \<le> n")
  case True
  then have "n + 246 = (n - 247 + 246) + 247" by simp
  then show ?thesis using True by (simp only: div_add_self2) simp
qed auto

lemma stream_commands_blocks:
  assumes "lsP1 lcs = 0x00 \<or> lsData lcs = []"
  shows "stream_commands lcs =
    map (load_block (unat (currentIndex lcs)) (lsData lcs)) [0..<(length (lsData lcs) + 246) div 247]"
  using assms
proof (induction lcs rule: stream_commands.induct)
  case (1 lcs)
  show ?case
  proof (cases "lsData lcs = []")
    case True
    then show ?thesis by (subst stream_commands.simps) (simp add: load_Next_def)
  next
    case False
    define lcs' where "lcs' = snd (load_Next lcs)"
    let ?d = "lsData lcs" and ?k = "unat (currentIndex lcs)"
    have nxt: "load_Next lcs = (True, lcs')" using False by (simp add: load_Next_def lcs'_def Let_def)
    have d': "lsData lcs' = drop 247 ?d" "currentIndex lcs' = currentIndex lcs + 1"
      and p': "lsP1 lcs' = (if drop 247 ?d = [] then 0x80 else 0x00)" "currentData lcs' = take 247 ?d"
      using False 1(2) by (auto simp: lcs'_def load_Next_def Let_def)
    have k: "(of_nat (unat (currentIndex lcs') + i) :: byte) = of_nat (?k + Suc i)" for i
      by (simp add: d'(2) algebra_simps)
    have blk: "load_block (unat (currentIndex lcs')) (lsData lcs') i = load_block ?k ?d (Suc i)" for i
      unfolding load_block_def k d'(1) blockSize_def
      by (simp add: less_diff_conv add.commute mult.commute)
    have "stream_commands lcs' = map (load_block (unat (currentIndex lcs')) (lsData lcs')) [0..<(length (lsData lcs') + 246) div 247]"
      using p' d' by (intro "1.IH" [OF nxt [symmetric]]) auto
    also have "\<dots> = map (\<lambda>i. load_block ?k ?d (Suc i)) [0..<(length ?d - 247 + 246) div 247]"
      unfolding blk by (simp add: d'(1))
    also have "\<dots> = map (load_block ?k ?d) [Suc 0..<Suc ((length ?d - 247 + 246) div 247)]"
      by (simp add: map_Suc_upt [symmetric] comp_def del: upt_Suc)
    finally have rest: "stream_commands lcs' = map (load_block ?k ?d) [Suc 0..<Suc ((length ?d - 247 + 246) div 247)]" .
    have "GetCommand lcs' = load_block ?k ?d 0"
      using p' d'(2) by (auto simp: GetCommand_def load_block_def load_Index_def)
    then have "stream_commands lcs = load_block ?k ?d 0 # map (load_block ?k ?d) [Suc 0..<Suc ((length ?d - 247 + 246) div 247)]"
      using nxt rest by (subst stream_commands.simps) simp
    moreover have "(length ?d + 246) div 247 = Suc ((length ?d - 247 + 246) div 247)"
      using False ceil_blocks [of "length ?d"] by simp
    ultimately show ?thesis by (simp add: upt_conv_Cons del: upt_Suc)
  qed
qed

lemma concat_blocks:
  assumes "length data \<le> n * k" 
  shows "concat (map (\<lambda>i. take k (drop (i * k) data)) [0..<n]) = data"
  using assms
proof (induction n arbitrary: data)
  case (Suc n)
  have "concat (map (\<lambda>i. take k (drop (i * k) data)) [0..<Suc n])
      = take k data @ concat (map (\<lambda>i. take k (drop (i * k) (drop k data))) [0..<n])"
    by (simp add: upt_conv_Cons map_Suc_upt [symmetric] comp_def add.commute del: upt_Suc)
  also have "concat (map (\<lambda>i. take k (drop (i * k) (drop k data))) [0..<n]) = drop k data"
    using Suc.prems by (intro Suc.IH) simp
  finally show ?case by simp
qed simp

lemma NewLoadCommandStream_Inr:
  assumes "NewLoadCommandStream items = Inr lcs"
  obtains files where "loadFiles items Map.empty = Inr files" "lsData lcs = encodeFilesData files"
    "stream_commands lcs = map (load_block 0 (lsData lcs)) [0..<blocksCount lcs]"
    "blocksCount lcs = (length (lsData lcs) + 246) div 247"
  using assms stream_commands_blocks [of lcs]
  by (auto simp: NewLoadCommandStream_def Let_def returns_iff)

lemma CData_load_block [simp]: "CData (load_block k data i) = take 247 (drop (i * 247) data)"
  by (simp add: load_block_def NewCommand_def)

lemma blocks_cover: "concat (map (\<lambda>i. CData (load_block k data i)) [0..<(length data + 246) div 247]) = data"
proof -
  have "length data \<le> (length data + 246) div 247 * 247"
    using div_mult_mod_eq [of "length data + 246" 247] mod_less_divisor [of 247 "length data + 246"] by linarith
  then show ?thesis using concat_blocks [of data "(length data + 246) div 247" 247] by simp
qed

lemma stream_commands_cover:
  assumes "NewLoadCommandStream items = Inr lcs"
  shows "concat (map CData (stream_commands lcs)) = lsData lcs" "length (stream_commands lcs) = blocksCount lcs"
proof -
  obtain files where s: "stream_commands lcs = map (load_block 0 (lsData lcs)) [0..<blocksCount lcs]"
    and n: "blocksCount lcs = (length (lsData lcs) + 246) div 247"
    by (rule NewLoadCommandStream_Inr [OF assms])
  show "concat (map CData (stream_commands lcs)) = lsData lcs"
    using blocks_cover [of 0 "lsData lcs"] unfolding s n by (simp add: comp_def)
  show "length (stream_commands lcs) = blocksCount lcs" by (simp add: s)
qed

text \<open>C27. The loading loop ends, after exactly \<open>BlocksCount\<close> commands; together they carry every byte of the
  encoded file in order, in blocks of 1 to 247 bytes; only the last one is marked as last. The block number in
  P2 is the index modulo 256.\<close>

theorem load_stream_complete:
  assumes "NewLoadCommandStream items = Inr lcs"
  shows "length (stream_commands lcs) = blocksCount lcs \<and> 0 < blocksCount lcs
    \<and> concat (map CData (stream_commands lcs)) = lsData lcs
    \<and> (\<forall>i < blocksCount lcs.
        P1 (stream_commands lcs ! i) = (if i + 1 = blocksCount lcs then 0x80 else 0x00)
      \<and> P2 (stream_commands lcs ! i) = of_nat i
      \<and> CData (stream_commands lcs ! i) \<noteq> [] \<and> length (CData (stream_commands lcs ! i)) \<le> 247)"
proof -
  obtain files where f: "lsData lcs = encodeFilesData files"
    and s: "stream_commands lcs = map (load_block 0 (lsData lcs)) [0..<blocksCount lcs]"
    and n: "blocksCount lcs = (length (lsData lcs) + 246) div 247"
    by (rule NewLoadCommandStream_Inr [OF assms])
  have ne: "0 < length (lsData lcs)" by (simp add: f encodeFilesData_def Let_def)
  have last: "(i + 1) * 247 < length (lsData lcs) \<longleftrightarrow> i + 1 < blocksCount lcs" for i
    unfolding n by (simp add: less_eq_div_iff_mult_less_eq less_Suc_eq_le flip: Suc_le_eq)
  have "drop (i * 247) (lsData lcs) \<noteq> []" if "i < blocksCount lcs" for i
    using that ne last [of "i - 1"] by (cases i) auto
  moreover note stream_commands_cover [OF assms]
  moreover have "0 < blocksCount lcs" using ne unfolding n by (simp add: div_greater_zero_iff Suc_le_eq)
  ultimately show ?thesis using last unfolding s by (auto simp: load_block_def NewCommand_def)
qed

theorem load_stream_complete_witness:
  "\<exists>lcs. NewLoadCommandStream [(''Header.cap'', Inr (replicate 300 7))] = Inr lcs
     \<and> length (stream_commands lcs) = 2 \<and> concat (map CData (stream_commands lcs)) = lsData lcs"
proof -
  obtain lcs where l: "NewLoadCommandStream [(''Header.cap'', Inr (replicate 300 7))] = Inr lcs"
    "blocksCount lcs = 2"
    by (simp add: NewLoadCommandStream_def encodeFilesData_def internalFiles_def encodeLength_def Let_def)
  with load_stream_complete [OF l(1)] show ?thesis by auto
qed

end
