(* ===== verification/Gp_Command_Set.thy ===== *)
theory Gp_Command_Set
  imports Scp02 Gp_Load Identifiers Types_Info
begin

text \<open>
  \<open>globalplatform/command_set.go\<close>: the GlobalPlatform client, its session and channel pointers
  as options. A method call on a nil channel is a panic. The loading callback is a function on
  the world; a CAP file is its list of zip entries.
\<close>

section \<open>State\<close>

record gp_cs =
  gpSc :: "gp_channel option"
  gpSession :: "Session option"

definition Gp_NewCommandSet :: gp_cs where
  "Gp_NewCommandSet = \<lparr>gpSc = None, gpSession = None\<rparr>"

text \<open>\<open>cs.sc.Send(cmd)\<close>.\<close>

definition gp_send :: "('sk, 'pk) prims \<Rightarrow> ('w, 'sk) env \<Rightarrow> command \<Rightarrow> (gp_cs \<times> 'w, response) st" where
  "gp_send P env cmd = (\<lambda>(cs, w).
     case gpSc cs of
       None \<Rightarrow> (Inl (Panic ''nil pointer dereference''), cs, w)
     | Some ch \<Rightarrow> let (r, ch', w') = Gp_Send P env cmd (ch, w) in (r, cs\<lparr>gpSc := Some ch'\<rparr>, w'))"

definition gp_call :: "('sk, 'pk) prims \<Rightarrow> ('w, 'sk) env \<Rightarrow> u16 list \<Rightarrow> command \<Rightarrow> (gp_cs \<times> 'w, response) st" where
  "gp_call P env allowed cmd = checked allowed (gp_send P env cmd)"

section \<open>Selection and authentication\<close>

definition SelectAID :: "('w, 'sk) env \<Rightarrow> bytes \<Rightarrow> (gp_cs \<times> 'w, unit) st" where
  "SelectAID env aid = ignore (checked [] (worldS (env_send env (SetLe 0 (NewCommandSelect aid)))))"

definition Gp_Select :: "('w, 'sk) env \<Rightarrow> (gp_cs \<times> 'w, unit) st" where
  "Gp_Select env = SelectAID env []"

text \<open>The loop over the key sets; only a bad cryptogram moves on to the next.\<close>

fun try_key_sets :: "('sk, 'pk) prims \<Rightarrow> response \<Rightarrow> bytes \<Rightarrow> bytes list \<Rightarrow> Session res" where
  "try_key_sets P resp hostCh [] = Inl BadCryptogram"
| "try_key_sets P resp hostCh (key # rest) =
     (case NewSession P (NewSCP02Keys key key) resp hostCh of
        Inr s \<Rightarrow> Inr s
      | Inl e \<Rightarrow> if e = BadCryptogram then try_key_sets P resp hostCh rest else Inl e)"

definition initializeSession :: "('sk, 'pk) prims \<Rightarrow> response \<Rightarrow> bytes \<Rightarrow> Session res" where
  "initializeSession P resp hostCh =
     try_key_sets P resp hostCh [KeycardDevelopmentKey, GlobalPlatformDefaultKey]"

definition initializeUpdate :: "('sk, 'pk) prims \<Rightarrow> ('w, 'sk) env \<Rightarrow> bytes \<Rightarrow> (gp_cs \<times> 'w, unit) st" where
  "initializeUpdate P env hostCh =
     bindS (checked [] (worldS (env_send env (NewCommandInitializeUpdate hostCh)))) (\<lambda>resp.
     bindS (liftS (initializeSession P resp hostCh)) (\<lambda>session.
     localS (modifyS (\<lambda>cs. cs\<lparr>gpSc := Some (Gp_NewSecureChannel session), gpSession := Some session\<rparr>))))"

definition externalAuthenticate :: "('sk, 'pk) prims \<Rightarrow> ('w, 'sk) env \<Rightarrow> (gp_cs \<times> 'w, unit) st" where
  "externalAuthenticate P env = getS (\<lambda>cs.
     case gpSession cs of
       None \<Rightarrow> failS (Msg ''session must be initialized using initializeUpdate'')
     | Some session \<Rightarrow>
         bindS (liftS (NewCommandExternalAuthenticate P (scpEnc (sessionKeys session))
           (cardChallenge session) (hostChallenge session))) (\<lambda>cmd.
         ignore (gp_call P env [] cmd)))"

definition generateHostChallenge :: "('w, 'sk) env \<Rightarrow> (gp_cs \<times> 'w, bytes) st" where
  "generateHostChallenge env = worldS (env_rand env 8)"

definition Gp_OpenSecureChannel :: "('sk, 'pk) prims \<Rightarrow> ('w, 'sk) env \<Rightarrow> (gp_cs \<times> 'w, unit) st" where
  "Gp_OpenSecureChannel P env =
     bindS (generateHostChallenge env) (\<lambda>hostCh.
     bindS (initializeUpdate P env hostCh) (\<lambda>_.
     externalAuthenticate P env))"

section \<open>Content management\<close>

definition Gp_Delete :: "('sk, 'pk) prims \<Rightarrow> ('w, 'sk) env \<Rightarrow> bytes \<Rightarrow> byte \<Rightarrow> (gp_cs \<times> 'w, unit) st" where
  "Gp_Delete P env aid p2 = ignore (gp_call P env [SwOK, Gp_SwReferencedDataNotFound] (NewCommandDelete aid p2))"

definition DeleteObject :: "('sk, 'pk) prims \<Rightarrow> ('w, 'sk) env \<Rightarrow> bytes \<Rightarrow> (gp_cs \<times> 'w, unit) st" where
  "DeleteObject P env aid = Gp_Delete P env aid P2DeleteObject"

definition DeleteObjectAndRelatedObject :: "('sk, 'pk) prims \<Rightarrow> ('w, 'sk) env \<Rightarrow> bytes \<Rightarrow> (gp_cs \<times> 'w, unit) st" where
  "DeleteObjectAndRelatedObject P env aid = Gp_Delete P env aid P2DeleteObjectAndRelatedObject"

definition DeleteKeycardInstancesAndPackage :: "('sk, 'pk) prims \<Rightarrow> ('w, 'sk) env \<Rightarrow> (gp_cs \<times> 'w, unit) st" where
  "DeleteKeycardInstancesAndPackage P env = getS (\<lambda>cs.
     if gpSc cs = None then failS SecureChannelNotOpen else DeleteObjectAndRelatedObject P env id_PackageAID)"

definition InstallForInstall ::
  "('sk, 'pk) prims \<Rightarrow> ('w, 'sk) env \<Rightarrow> bytes \<Rightarrow> bytes \<Rightarrow> bytes \<Rightarrow> bytes \<Rightarrow> (gp_cs \<times> 'w, unit) st" where
  "InstallForInstall P env packageAID appletAID instanceAID params =
     ignore (gp_call P env [] (NewCommandInstallForInstall packageAID appletAID instanceAID params))"

definition InstallNDEFApplet :: "('sk, 'pk) prims \<Rightarrow> ('w, 'sk) env \<Rightarrow> bytes \<Rightarrow> (gp_cs \<times> 'w, unit) st" where
  "InstallNDEFApplet P env ndefRecord = InstallForInstall P env id_PackageAID NdefAID NdefInstanceAID ndefRecord"

definition InstallKeycardApplet :: "('sk, 'pk) prims \<Rightarrow> ('w, 'sk) env \<Rightarrow> (gp_cs \<times> 'w, unit) st" where
  "InstallKeycardApplet P env =
     bindS (liftS (id_KeycardInstanceAID KeycardDefaultInstanceIndex)) (\<lambda>instanceAID.
     InstallForInstall P env id_PackageAID id_KeycardAID instanceAID [])"

definition InstallCashApplet :: "('sk, 'pk) prims \<Rightarrow> ('w, 'sk) env \<Rightarrow> (gp_cs \<times> 'w, unit) st" where
  "InstallCashApplet P env = InstallForInstall P env id_PackageAID CashAID CashInstanceAID []"

definition InstallIdentApplet :: "('sk, 'pk) prims \<Rightarrow> ('w, 'sk) env \<Rightarrow> (gp_cs \<times> 'w, unit) st" where
  "InstallIdentApplet P env = InstallForInstall P env id_PackageAID IdentAID IdentInstanceAID []"

definition Gp_GetStatus :: "('sk, 'pk) prims \<Rightarrow> ('w, 'sk) env \<Rightarrow> (gp_cs \<times> 'w, CardStatus) st" where
  "Gp_GetStatus P env =
     bindS (gp_call P env [] (Gp_NewCommandGetStatus [] P1GetStatusIssuerSecurityDomain)) (\<lambda>resp.
     liftS (ParseCardStatus (RData resp)))"

text \<open>The loop \<open>for load.Next()\<close>.\<close>

function load_loop ::
  "('sk, 'pk) prims \<Rightarrow> ('w, 'sk) env \<Rightarrow> (nat \<Rightarrow> nat \<Rightarrow> 'w \<Rightarrow> 'w) \<Rightarrow> load_stream \<Rightarrow> (gp_cs \<times> 'w, unit) st" where
  "load_loop P env callback lcs s =
     (let (more, lcs') = load_Next lcs in
      if \<not> more then (Inr (), s)
      else
        let s' = (fst s, callback (unat (load_Index lcs')) (blocksCount lcs') (snd s))
        in case gp_call P env [] (GetCommand lcs') s' of
             (Inl e, t) \<Rightarrow> (Inl e, t)
           | (Inr _, t) \<Rightarrow> load_loop P env callback lcs' t)"
  by pat_completeness auto
termination
  by (relation "measure (\<lambda>(P, env, cb, lcs, s). length (lsData lcs))") (auto dest: load_Next_shrinks [OF sym])

declare load_loop.simps [simp del]

definition LoadPackage ::
  "('sk, 'pk) prims \<Rightarrow> ('w, 'sk) env \<Rightarrow> (nat \<Rightarrow> nat \<Rightarrow> 'w \<Rightarrow> 'w) \<Rightarrow> (string \<times> bytes res) list \<Rightarrow> bytes
    \<Rightarrow> (gp_cs \<times> 'w, unit) st" where
  "LoadPackage P env callback capFile pkgAID = getS (\<lambda>cs.
     if gpSc cs = None then failS SecureChannelNotOpen
     else
       bindS (gp_call P env [] (NewCommandInstallForLoad pkgAID [])) (\<lambda>_.
       bindS (liftS (NewLoadCommandStream capFile)) (\<lambda>load.
       load_loop P env callback load)))"

definition LoadKeycardPackage ::
  "('sk, 'pk) prims \<Rightarrow> ('w, 'sk) env \<Rightarrow> (nat \<Rightarrow> nat \<Rightarrow> 'w \<Rightarrow> 'w) \<Rightarrow> (string \<times> bytes res) list
    \<Rightarrow> (gp_cs \<times> 'w, unit) st" where
  "LoadKeycardPackage P env callback capFile = LoadPackage P env callback capFile id_PackageAID"

section \<open>Authentication\<close>

lemma keys_differ: "KeycardDevelopmentKey \<noteq> GlobalPlatformDefaultKey"
  by (simp add: KeycardDevelopmentKey_def GlobalPlatformDefaultKey_def)

lemma initializeSession_Inr:
  "initializeSession P resp hc = Inr s \<longleftrightarrow>
     NewSession P (NewSCP02Keys KeycardDevelopmentKey KeycardDevelopmentKey) resp hc = Inr s
   \<or> NewSession P (NewSCP02Keys KeycardDevelopmentKey KeycardDevelopmentKey) resp hc = Inl BadCryptogram
      \<and> NewSession P (NewSCP02Keys GlobalPlatformDefaultKey GlobalPlatformDefaultKey) resp hc = Inr s"
  unfolding initializeSession_def try_key_sets.simps by (simp split: sum.split)

lemma initializeUpdate_Inr:
  assumes "des_ok P" "length hc = 8" "initializeUpdate P env hc (cs, w) = (Inr (), s1)"
  obtains resp w2 key session where
    "env_send env (NewCommandInitializeUpdate hc) w = (Inr resp, w2)" "length (RData resp) = 28"
    "key \<in> {KeycardDevelopmentKey, GlobalPlatformDefaultKey}"
    "drop 20 (RData resp) = scp_cryptogram P (scp_session_key P key DerivationPurposeEnc (gslice 12 14 (RData resp)))
       (hc @ gslice 12 20 (RData resp))"
    "key = GlobalPlatformDefaultKey \<longrightarrow> drop 20 (RData resp) \<noteq>
       scp_cryptogram P (scp_session_key P KeycardDevelopmentKey DerivationPurposeEnc (gslice 12 14 (RData resp))) (hc @ gslice 12 20 (RData resp))"
    "session = \<lparr>sessionKeys = NewSCP02Keys (scp_session_key P key DerivationPurposeEnc (gslice 12 14 (RData resp)))
        (scp_session_key P key DerivationPurposeMac (gslice 12 14 (RData resp))),
        cardChallenge = gslice 12 20 (RData resp), hostChallenge = hc\<rparr>"
    "s1 = (cs\<lparr>gpSc := Some (Gp_NewSecureChannel session), gpSession := Some session\<rparr>, w2)"
proof -
  obtain resp w2 session where r: "env_send env (NewCommandInitializeUpdate hc) w = (Inr resp, w2)"
    and s: "initializeSession P resp hc = Inr session"
    and s1: "s1 = (cs\<lparr>gpSc := Some (Gp_NewSecureChannel session), gpSession := Some session\<rparr>, w2)"
    using assms(3) by (cases "env_send env (NewCommandInitializeUpdate hc) w") (auto simp: initializeUpdate_def returns_iff)
  obtain key where key: "key \<in> {KeycardDevelopmentKey, GlobalPlatformDefaultKey}"
    and ns: "NewSession P (NewSCP02Keys key key) resp hc = Inr session"
    and dev: "key = GlobalPlatformDefaultKey \<longrightarrow>
      NewSession P (NewSCP02Keys KeycardDevelopmentKey KeycardDevelopmentKey) resp hc = Inl BadCryptogram"
    using s keys_differ unfolding initializeSession_Inr by blast
  have "16 \<le> length (scpEnc (NewSCP02Keys key key))" using key by (auto simp: NewSCP02Keys_def)
  note spec = NewSession_spec [OF assms(1) this assms(2), of resp]
  have len: "length (RData resp) = 28" using spec ns by (auto split: if_splits)
  then have seq: "take 2 (gslice 12 20 (RData resp)) = gslice 12 14 (RData resp)" by (simp add: gslice_def)
  have "16 \<le> length (scpEnc (NewSCP02Keys KeycardDevelopmentKey KeycardDevelopmentKey))" by (simp add: NewSCP02Keys_def)
  note spec' = NewSession_spec [OF assms(1) this assms(2), of resp]
  have first: "key = GlobalPlatformDefaultKey \<longrightarrow> drop 20 (RData resp) \<noteq>
     scp_cryptogram P (scp_session_key P KeycardDevelopmentKey DerivationPurposeEnc (gslice 12 14 (RData resp))) (hc @ gslice 12 20 (RData resp))"
    using dev spec' seq unfolding Let_def by (auto simp: NewSCP02Keys_def split: if_splits)
  show ?thesis
    using that [OF r len key _ first _ s1] spec ns seq unfolding Let_def by (auto simp: NewSCP02Keys_def split: if_splits)
qed

lemma externalAuthenticate_Inr:
  assumes "externalAuthenticate P env (cs, w) = (Inr (), cs', w')" "gpSession cs = Some session" "gpSc cs = Some ch"
  obtains cmd wcmd resp wr where
    "NewCommandExternalAuthenticate P (scpEnc (sessionKeys session)) (cardChallenge session) (hostChallenge session) = Inr cmd"
    "Scp02_Wrap P cmd (gcWrapper ch) = (Inr wcmd, wr)" "env_send env wcmd w = (Inr resp, w')" "Sw resp = 0x9000"
    "cs' = cs\<lparr>gpSc := Some (ch\<lparr>gcWrapper := wr\<rparr>)\<rparr>"
proof -
  obtain cmd resp where cmd: "NewCommandExternalAuthenticate P (scpEnc (sessionKeys session)) (cardChallenge session) (hostChallenge session) = Inr cmd"
    and g: "gp_send P env cmd (cs, w) = (Inr resp, cs', w')" "Sw resp = 0x9000"
    using assms by (auto simp: externalAuthenticate_def ignore_def gp_call_def returns_iff)
  obtain rw wr where W: "Scp02_Wrap P cmd (gcWrapper ch) = (rw, wr)" by (cases "Scp02_Wrap P cmd (gcWrapper ch)")
  then obtain wcmd where rw: "rw = Inr wcmd" using g(1) assms(3) by (cases rw) (simp_all add: gp_send_def Gp_Send_def)
  obtain r w2 where E: "env_send env wcmd w = (r, w2)" by (cases "env_send env wcmd w")
  show ?thesis
    by (rule that [OF cmd W [unfolded rw] _ g(2)]) (use g(1) assms(3) W rw E in \<open>simp_all add: gp_send_def Gp_Send_def\<close>)
qed

text \<open>C19. \<open>OpenSecureChannel\<close> of the GlobalPlatform client authenticates the card: when it succeeds, the card
  answered a fresh host challenge with the cryptogram of both challenges under the session key of one of the two
  built-in key sets, the first one that matches: the development key, or the default key when the cryptogram is not
  that of the development key; the channel then starts from the session's MAC key and a zero
  chaining value and has sent one command, EXTERNAL AUTHENTICATE, which the card answered with success.\<close>

theorem gp_open_authenticates:
  assumes "des_ok P" "rand_ok env" "Gp_OpenSecureChannel P env (cs, w) = (Inr (), cs', w')"
  shows "\<exists>hc w1 resp w2 key seq. env_rand env 8 w = (Inr hc, w1) \<and> length hc = 8
     \<and> env_send env (NewCommandInitializeUpdate hc) w1 = (Inr resp, w2) \<and> length (RData resp) = 28
     \<and> key \<in> {KeycardDevelopmentKey, GlobalPlatformDefaultKey} \<and> seq = gslice 12 14 (RData resp)
     \<and> drop 20 (RData resp) = scp_cryptogram P (scp_session_key P key DerivationPurposeEnc seq) (hc @ gslice 12 20 (RData resp))
     \<and> (key = GlobalPlatformDefaultKey \<longrightarrow> drop 20 (RData resp) \<noteq>
          scp_cryptogram P (scp_session_key P KeycardDevelopmentKey DerivationPurposeEnc seq) (hc @ gslice 12 20 (RData resp)))
     \<and> (\<exists>session cmd wcmd resp2 wr.
          gpSession cs' = Some session \<and> sessionKeys session = NewSCP02Keys (scp_session_key P key DerivationPurposeEnc seq) (scp_session_key P key DerivationPurposeMac seq)
        \<and> NewCommandExternalAuthenticate P (scpEnc (sessionKeys session)) (gslice 12 20 (RData resp)) hc = Inr cmd
        \<and> Scp02_Wrap P cmd (NewSCP02Wrapper (scpMac (sessionKeys session))) = (Inr wcmd, wr)
        \<and> env_send env wcmd w2 = (Inr resp2, w') \<and> Sw resp2 = 0x9000
        \<and> gpSc cs' = Some \<lparr>gcSession = session, gcWrapper = wr\<rparr>)"
proof -
  obtain hc w1 s1 where hc: "env_rand env 8 w = (Inr hc, w1)"
    and iu: "initializeUpdate P env hc (cs, w1) = (Inr (), s1)" and ea: "externalAuthenticate P env s1 = (Inr (), cs', w')"
    using assms(3) by (cases "env_rand env 8 w") (auto simp: Gp_OpenSecureChannel_def generateHostChallenge_def returns_iff)
  have l: "length hc = 8" using assms(2) hc by (auto simp: rand_ok_def)
  obtain resp w2 key session where u:
    "env_send env (NewCommandInitializeUpdate hc) w1 = (Inr resp, w2)" "length (RData resp) = 28"
    "key \<in> {KeycardDevelopmentKey, GlobalPlatformDefaultKey}"
    "drop 20 (RData resp) = scp_cryptogram P (scp_session_key P key DerivationPurposeEnc (gslice 12 14 (RData resp)))
       (hc @ gslice 12 20 (RData resp))"
    "key = GlobalPlatformDefaultKey \<longrightarrow> drop 20 (RData resp) \<noteq>
       scp_cryptogram P (scp_session_key P KeycardDevelopmentKey DerivationPurposeEnc (gslice 12 14 (RData resp))) (hc @ gslice 12 20 (RData resp))"
    and sess: "session = \<lparr>sessionKeys = NewSCP02Keys (scp_session_key P key DerivationPurposeEnc (gslice 12 14 (RData resp)))
        (scp_session_key P key DerivationPurposeMac (gslice 12 14 (RData resp))),
        cardChallenge = gslice 12 20 (RData resp), hostChallenge = hc\<rparr>"
    and s1: "s1 = (cs\<lparr>gpSc := Some (Gp_NewSecureChannel session), gpSession := Some session\<rparr>, w2)"
    by (rule initializeUpdate_Inr [OF assms(1) l iu])
  obtain cmd wcmd resp2 wr where x:
    "NewCommandExternalAuthenticate P (scpEnc (sessionKeys session)) (cardChallenge session) (hostChallenge session) = Inr cmd"
    "Scp02_Wrap P cmd (gcWrapper (Gp_NewSecureChannel session)) = (Inr wcmd, wr)" "env_send env wcmd w2 = (Inr resp2, w')" "Sw resp2 = 0x9000"
    "cs' = cs\<lparr>gpSc := Some (Gp_NewSecureChannel session\<lparr>gcWrapper := wr\<rparr>), gpSession := Some session\<rparr>"
    by (rule externalAuthenticate_Inr [OF ea [unfolded s1], of session "Gp_NewSecureChannel session"]) simp_all
  have "gpSession cs' = Some session" "gpSc cs' = Some \<lparr>gcSession = session, gcWrapper = wr\<rparr>"
    "cardChallenge session = gslice 12 20 (RData resp)" "hostChallenge session = hc"
    "gcWrapper (Gp_NewSecureChannel session) = NewSCP02Wrapper (scpMac (sessionKeys session))"
    "sessionKeys session = NewSCP02Keys (scp_session_key P key DerivationPurposeEnc (gslice 12 14 (RData resp)))
        (scp_session_key P key DerivationPurposeMac (gslice 12 14 (RData resp)))"
    using x(5) sess by (simp_all add: Gp_NewSecureChannel_def)
  note f = this x(1-4) [unfolded this(3-5)]
  show ?thesis
    by (rule exI [where x = hc], rule exI [where x = w1], rule exI [where x = resp], rule exI [where x = w2],
        rule exI [where x = key], rule exI [where x = "gslice 12 14 (RData resp)"],
        intro conjI hc l u refl, rule exI [where x = session], rule exI [where x = cmd], rule exI [where x = wcmd],
        rule exI [where x = resp2], rule exI [where x = wr], intro conjI f)
qed

text \<open>A card that answers every command with the same response, for the witness.\<close>

definition gp_toy_env :: "(unit, unit) env" where
  "gp_toy_env = toy_env\<lparr>env_send := (\<lambda>_. returnS
     \<lparr>RData = replicate 11 0 @ [2] @ replicate 8 0 @ [0x89, 9, 9, 9, 9, 9, 9, 9], Sw1 = 0x90, Sw2 = 0, Sw = 0x9000\<rparr>)\<rparr>"

lemma gp_toy_open: "\<exists>cs' w'. Gp_OpenSecureChannel toy_prims gp_toy_env (Gp_NewCommandSet, ()) = (Inr (), cs', w')"
proof -
  have "fst (Gp_OpenSecureChannel toy_prims gp_toy_env (Gp_NewCommandSet, ())) = Inr ()" by code_simp
  then show ?thesis by (metis prod.collapse)
qed

theorem gp_open_authenticates_witness:
  "\<exists>cs' session key. Gp_OpenSecureChannel toy_prims gp_toy_env (Gp_NewCommandSet, ()) = (Inr (), cs', ())
     \<and> gpSession cs' = Some session \<and> key \<in> {KeycardDevelopmentKey, GlobalPlatformDefaultKey}
     \<and> scpEnc (sessionKeys session) = scp_session_key toy_prims key DerivationPurposeEnc [0, 0]"
proof -
  obtain cs' where o: "Gp_OpenSecureChannel toy_prims gp_toy_env (Gp_NewCommandSet, ()) = (Inr (), cs', ())"
    using gp_toy_open by auto
  have "rand_ok gp_toy_env" by (simp add: rand_ok_def gp_toy_env_def toy_env_def)
  from gp_open_authenticates [OF toy_prims_des_ok this o] obtain resp w2 key session hc w1 where
    "env_send gp_toy_env (NewCommandInitializeUpdate hc) w1 = (Inr resp, w2)"
    "key \<in> {KeycardDevelopmentKey, GlobalPlatformDefaultKey}" "gpSession cs' = Some session"
    "sessionKeys session = NewSCP02Keys (scp_session_key toy_prims key DerivationPurposeEnc (gslice 12 14 (RData resp)))
        (scp_session_key toy_prims key DerivationPurposeMac (gslice 12 14 (RData resp)))"
    by blast
  then show ?thesis using o by (auto simp: gp_toy_env_def NewSCP02Keys_def gslice_def numeral_eq_Suc)
qed

end
