(* ===== verification/Gp_Session.thy ===== *)
theory Gp_Session
  imports Gp_Command_Set
begin

text \<open>
  The GlobalPlatform client with a card that follows the protocol: opening the channel, and
  loading a package over it.
\<close>

section \<open>The card\<close>

text \<open>
  The card's end of the MAC chain, the session key and the host challenge of the authentication
  under way, whether it has authenticated the host, and the content-management commands it has
  carried out, in order. Its static key, the twelve bytes before its challenge and the challenge
  are parameters.
\<close>

record gp_card =
  gpc_scp :: scp_card
  gpc_enc :: bytes
  gpc_host :: bytes
  gpc_open :: bool
  gpc_log :: "command list"

definition gp_initialize ::
  "('sk, 'pk) prims \<Rightarrow> bytes \<Rightarrow> bytes \<Rightarrow> bytes \<Rightarrow> command \<Rightarrow> gp_card \<Rightarrow> response \<times> gp_card" where
  "gp_initialize P key info challenge cmd icc =
     (let seq = take 2 challenge; enc = scp_session_key P key DerivationPurposeEnc seq in
      (with_status (info @ challenge @ scp_cryptogram P enc (CData cmd @ challenge)) 0x90 0,
       icc\<lparr>gpc_scp := \<lparr>k_mac = scp_session_key P key DerivationPurposeMac seq, k_icv = NullBytes8\<rparr>,
            gpc_enc := enc, gpc_host := CData cmd, gpc_open := False\<rparr>))"

definition gp_carry_out :: "('sk, 'pk) prims \<Rightarrow> bytes \<Rightarrow> command \<Rightarrow> gp_card \<Rightarrow> response \<times> gp_card" where
  "gp_carry_out P challenge plain icc =
     (if Ins plain = InsExternalAuthenticate then
        if CData plain = scp_cryptogram P (gpc_enc icc) (challenge @ gpc_host icc)
        then (with_status [] 0x90 0, icc\<lparr>gpc_open := True\<rparr>) else (with_status [] 0x63 0, icc)
      else if gpc_open icc then (with_status [] 0x90 0, icc\<lparr>gpc_log := gpc_log icc @ [plain]\<rparr>)
      else (with_status [] 0x69 0x85, icc))"

definition gp_card_env ::
  "('sk, 'pk) prims \<Rightarrow> bytes \<Rightarrow> bytes \<Rightarrow> bytes \<Rightarrow> (nat \<Rightarrow> bytes) \<Rightarrow> (gp_card, 'sk) env" where
  "gp_card_env P key info challenge rnd =
     \<lparr>env_send = (\<lambda>cmd icc.
        case over_wire cmd of
          None \<Rightarrow> (Inl (External ''transmission''), icc)
        | Some rcmd \<Rightarrow>
            if Ins rcmd = InsInitializeUpdate then
              (let (r, icc') = gp_initialize P key info challenge rcmd icc in (Inr r, icc'))
            else
              (case card_unwrap P rcmd (gpc_scp icc) of
                 None \<Rightarrow> (Inr (with_status [] 0x69 0x82), icc)
               | Some (plain, c) \<Rightarrow>
                   let (r, icc') = gp_carry_out P challenge plain (icc\<lparr>gpc_scp := c\<rparr>) in (Inr r, icc'))),
      env_rand = (\<lambda>n. returnS (rnd n)), env_key = failS (External ''no key'')\<rparr>"

text \<open>A session that both ends share, and one in which the card has authenticated the host.\<close>

definition gp_shared :: "gp_cs \<Rightarrow> gp_card \<Rightarrow> bool" where
  "gp_shared cs icc \<longleftrightarrow> (\<exists>ch. gpSc cs = Some ch \<and> in_step (gcWrapper ch) (gpc_scp icc))"

definition gp_ready :: "gp_cs \<Rightarrow> gp_card \<Rightarrow> bool" where
  "gp_ready cs icc \<longleftrightarrow> gp_shared cs icc \<and> gpc_open icc"

text \<open>A wrapped command arrives as it was sent.\<close>

lemma gp_send_arrives:
  assumes "des_ok P" "gp_shared cs icc" "command_wf cmd" "length (CData cmd) \<le> 247" "Ins cmd \<noteq> InsInitializeUpdate"
    and "\<And>c. gp_carry_out P challenge (secured cmd) (icc\<lparr>gpc_scp := c\<rparr>) = (r, f (icc\<lparr>gpc_scp := c\<rparr>))"
    and "\<And>c. gpc_scp (f (icc\<lparr>gpc_scp := c\<rparr>)) = c"
  obtains ch w' c' where "gpSc cs = Some ch" "gp_send P (gp_card_env P key info challenge rnd) cmd (cs, icc)
      = (Inr r, cs\<lparr>gpSc := Some (ch\<lparr>gcWrapper := w'\<rparr>)\<rparr>, f (icc\<lparr>gpc_scp := c'\<rparr>))"
    "gp_shared (cs\<lparr>gpSc := Some (ch\<lparr>gcWrapper := w'\<rparr>)\<rparr>) (f (icc\<lparr>gpc_scp := c'\<rparr>))"
proof -
  obtain ch where ch: "gpSc cs = Some ch" "in_step (gcWrapper ch) (gpc_scp icc)" using assms(2) by (auto simp: gp_shared_def)
  obtain w' c' where x: "scp_exchange P cmd (gcWrapper ch, gpc_scp icc) = Some (secured cmd, w', c')" "in_step w' c'"
    by (rule scp_exchange_in_step [OF assms(1) ch(2) assms(3,4)])
  obtain wcmd rcmd where W: "Scp02_Wrap P cmd (gcWrapper ch) = (Inr wcmd, w')" "over_wire wcmd = Some rcmd"
    "card_unwrap P rcmd (gpc_scp icc) = Some (secured cmd, c')"
    using x(1) by (auto simp: scp_exchange_def bind_eq_Some_conv split: sum.splits prod.splits)
  obtain data where "rcmd\<lparr>CData := data\<rparr> = secured cmd" using W(3) by (auto simp: card_unwrap_def Let_def split: if_splits)
  from arg_cong [OF this, of Ins] have "Ins rcmd = Ins (secured cmd)" by simp
  then have "Ins rcmd \<noteq> InsInitializeUpdate" using assms(5) by (simp add: secured_def)
  then have "env_send (gp_card_env P key info challenge rnd) wcmd icc = (Inr r, f (icc\<lparr>gpc_scp := c'\<rparr>))"
    using W(2,3) assms(6) [of c'] by (simp add: gp_card_env_def)
  with W(1) ch(1) have "gp_send P (gp_card_env P key info challenge rnd) cmd (cs, icc)
      = (Inr r, cs\<lparr>gpSc := Some (ch\<lparr>gcWrapper := w'\<rparr>)\<rparr>, f (icc\<lparr>gpc_scp := c'\<rparr>))"
    by (simp add: gp_send_def Gp_Send_def)
  moreover have "gp_shared (cs\<lparr>gpSc := Some (ch\<lparr>gcWrapper := w'\<rparr>)\<rparr>) (f (icc\<lparr>gpc_scp := c'\<rparr>))"
    using x(2) assms(7) by (simp add: gp_shared_def)
  ultimately show ?thesis by (rule that [OF ch(1)])
qed

section \<open>Opening\<close>

lemma length_scp_cryptogram:
  assumes "des_ok P" "length challenges = 16"
  shows "length (scp_cryptogram P key challenges) = 8"
  using length_cbc_encrypt [of 8 "des3E P (take 16 key @ take 8 key)" NullBytes8 "iso_pad8 challenges"] assms
  by (simp add: scp_cryptogram_def des_ok_def flip: AppendDESPadding_iso)

text \<open>One of the built-in key sets is the card's, and no key set tried before it looks like it.\<close>

definition card_key_found :: "('sk, 'pk) prims \<Rightarrow> bytes \<Rightarrow> bytes \<Rightarrow> bytes \<Rightarrow> bool" where
  "card_key_found P key challenge hc \<longleftrightarrow>
     key = KeycardDevelopmentKey \<or>
     key = GlobalPlatformDefaultKey \<and>
       (let cryptogram = \<lambda>k. scp_cryptogram P (scp_session_key P k DerivationPurposeEnc (take 2 challenge)) (hc @ challenge)
        in cryptogram KeycardDevelopmentKey \<noteq> cryptogram GlobalPlatformDefaultKey)"

definition honest_session :: "('sk, 'pk) prims \<Rightarrow> bytes \<Rightarrow> bytes \<Rightarrow> bytes \<Rightarrow> Session" where
  "honest_session P key challenge hc =
     \<lparr>sessionKeys = NewSCP02Keys (scp_session_key P key DerivationPurposeEnc (take 2 challenge))
        (scp_session_key P key DerivationPurposeMac (take 2 challenge)), cardChallenge = challenge, hostChallenge = hc\<rparr>"

lemma initializeSession_honest:
  assumes "des_ok P" "length hc = 8" "length info = 12" "info ! 11 = 2" "length challenge = 8" "card_key_found P key challenge hc"
  defines "resp \<equiv> with_status (info @ challenge
    @ scp_cryptogram P (scp_session_key P key DerivationPurposeEnc (take 2 challenge)) (hc @ challenge)) 0x90 0"
  shows "initializeSession P resp hc = Inr (honest_session P key challenge hc)"
proof -
  have l: "length (scp_cryptogram P k (hc @ challenge)) = 8" for k using assms(1,2,5) by (intro length_scp_cryptogram) simp_all
  have d: "gslice 12 20 (RData resp) = challenge" "length (RData resp) = 28" "RData resp ! 11 = 2"
      "drop 20 (RData resp) = scp_cryptogram P (scp_session_key P key DerivationPurposeEnc (take 2 challenge)) (hc @ challenge)"
    using assms(3-5) l by (simp_all add: resp_def gslice_def nth_append)
  have sw: "Sw resp = 0x9000" by (simp add: resp_def)
  have "NewSession P (NewSCP02Keys k k) resp hc =
    (if scp_cryptogram P (scp_session_key P k DerivationPurposeEnc (take 2 challenge)) (hc @ challenge) \<noteq> drop 20 (RData resp)
     then Inl BadCryptogram else Inr (honest_session P k challenge hc))" if "16 \<le> length k" for k
    using NewSession_spec [OF assms(1) _ assms(2), of "NewSCP02Keys k k" resp] that d sw
    by (simp add: NewSCP02Keys_def honest_session_def Let_def)
  moreover have "16 \<le> length KeycardDevelopmentKey" "16 \<le> length GlobalPlatformDefaultKey" by simp_all
  ultimately show ?thesis using assms(6) unfolding d(4)
    by (auto simp: initializeSession_def card_key_found_def Let_def)
qed

text \<open>Client and card after INITIALIZE UPDATE.\<close>

definition cs_started :: "('sk, 'pk) prims \<Rightarrow> bytes \<Rightarrow> bytes \<Rightarrow> bytes \<Rightarrow> gp_cs \<Rightarrow> gp_cs" where
  "cs_started P key challenge hc cs =
     cs\<lparr>gpSc := Some (Gp_NewSecureChannel (honest_session P key challenge hc)), gpSession := Some (honest_session P key challenge hc)\<rparr>"

definition icc_started :: "('sk, 'pk) prims \<Rightarrow> bytes \<Rightarrow> bytes \<Rightarrow> bytes \<Rightarrow> gp_card \<Rightarrow> gp_card" where
  "icc_started P key challenge hc icc =
     icc\<lparr>gpc_scp := \<lparr>k_mac = scp_session_key P key DerivationPurposeMac (take 2 challenge), k_icv = NullBytes8\<rparr>,
       gpc_enc := scp_session_key P key DerivationPurposeEnc (take 2 challenge), gpc_host := hc, gpc_open := False\<rparr>"

lemma initializeUpdate_honest:
  assumes "des_ok P" "length hc = 8" "length info = 12" "info ! 11 = 2" "length challenge = 8" "card_key_found P key challenge hc"
  shows "initializeUpdate P (gp_card_env P key info challenge rnd) hc (cs, icc) =
    (Inr (), cs_started P key challenge hc cs, icc_started P key challenge hc icc)"
proof -
  have "over_wire (NewCommandInitializeUpdate hc) = Some (NewCommandInitializeUpdate hc)"
    using assms(2) by (intro over_wire_wf) (auto simp: NewCommandInitializeUpdate_def NewCommand_def SetLe_def command_wf_def)
  then have "env_send (gp_card_env P key info challenge rnd) (NewCommandInitializeUpdate hc) icc =
      (Inr (with_status (info @ challenge @ scp_cryptogram P (scp_session_key P key DerivationPurposeEnc (take 2 challenge)) (hc @ challenge)) 0x90 0),
       icc_started P key challenge hc icc)"
    by (simp add: gp_card_env_def gp_initialize_def NewCommandInitializeUpdate_def NewCommand_def SetLe_def icc_started_def Let_def)
  then show ?thesis
    using initializeSession_honest [OF assms] by (simp add: initializeUpdate_def bindS_def checked_def CheckOK_def cs_started_def)
qed

lemma started_shared:
  assumes "des_ok P" "16 \<le> length key" "length challenge = 8"
  shows "gp_shared (cs_started P key challenge hc cs) (icc_started P key challenge hc icc)"
    and "length (scp_session_key P key DerivationPurposeEnc (take 2 challenge)) = 16"
proof -
  have p: "length (take 2 challenge) = 2" "length DerivationPurposeEnc = 2" "length DerivationPurposeMac = 2"
    using assms(3) by (simp_all add: DerivationPurposeEnc_def DerivationPurposeMac_def)
  note k = Gp_DeriveKey_spec(2) [OF assms(1,2) p(1)]
  show "length (scp_session_key P key DerivationPurposeEnc (take 2 challenge)) = 16" by (rule k [OF p(2)])
  show "gp_shared (cs_started P key challenge hc cs) (icc_started P key challenge hc icc)"
    using k [OF p(3)] by (simp add: gp_shared_def cs_started_def icc_started_def in_step_def wrapper_inv_def
        Gp_NewSecureChannel_def NewSCP02Wrapper_def honest_session_def NewSCP02Keys_def)
qed

text \<open>C20. Opening a GlobalPlatform channel with an honest card: a card that holds one of the built-in keys, whatever
  challenge it picks, is recognised (for the default key, which is tried second, unless the development key happens to
  give the same cryptogram), the host cryptogram the client sends in the first wrapped command is the one the
  card expects, and client and card share the session, which the card has opened.\<close>

theorem gp_session_opens:
  assumes "des_ok P" "length (rnd 8) = 8" "length info = 12" "info ! 11 = 2" "length challenge = 8"
    and "card_key_found P key challenge (rnd 8)"
  shows "\<exists>cs' icc'. Gp_OpenSecureChannel P (gp_card_env P key info challenge rnd) (cs, icc) = (Inr (), cs', icc')
    \<and> gp_ready cs' icc' \<and> gpc_log icc' = gpc_log icc"
proof -
  let ?env = "gp_card_env P key info challenge rnd"
  define enc where "enc = scp_session_key P key DerivationPurposeEnc (take 2 challenge)"
  define cs1 where "cs1 = cs_started P key challenge (rnd 8) cs"
  define icc1 where "icc1 = icc_started P key challenge (rnd 8) icc"
  define cmd where "cmd = NewCommand ClaMac InsExternalAuthenticate P1ExternalAuthenticateCMAC 0 (scp_cryptogram P enc (challenge @ rnd 8))"
  have key: "16 \<le> length key" using assms(6) by (auto simp: card_key_found_def)
  note shared = started_shared(1) [OF assms(1) key assms(5), where hc = "rnd 8" and cs = cs and icc = icc, folded cs1_def icc1_def]
  have wf: "command_wf cmd" "length (CData cmd) \<le> 247" "Ins cmd \<noteq> InsInitializeUpdate"
    using assms(1,2,5) by (simp_all add: cmd_def NewCommand_def command_wf_def length_scp_cryptogram)
  have auth: "NewCommandExternalAuthenticate P enc challenge (rnd 8) = Inr cmd"
    using Mac3DES_spec [OF assms(1), of enc "challenge @ rnd 8"] started_shared(2) [OF assms(1) key assms(5)] assms(2,5)
    by (simp add: NewCommandExternalAuthenticate_def calculateHostCryptogram_def cmd_def enc_def)
  have carried: "gp_carry_out P challenge (secured cmd) (icc1\<lparr>gpc_scp := c\<rparr>) =
      (with_status [] 0x90 0, (\<lambda>k. k\<lparr>gpc_open := True\<rparr>) (icc1\<lparr>gpc_scp := c\<rparr>))" for c
    by (simp add: gp_carry_out_def secured_def cmd_def NewCommand_def icc1_def icc_started_def enc_def)
  obtain cs2 c where g: "gp_send P ?env cmd (cs1, icc1) = (Inr (with_status [] 0x90 0), cs2, icc1\<lparr>gpc_scp := c, gpc_open := True\<rparr>)"
      "gp_shared cs2 (icc1\<lparr>gpc_scp := c, gpc_open := True\<rparr>)"
    by (rule gp_send_arrives [OF assms(1) shared wf carried, of key info rnd]) simp_all
  have "gpSession cs1 = Some (honest_session P key challenge (rnd 8))" by (simp add: cs1_def cs_started_def)
  then have "externalAuthenticate P ?env (cs1, icc1) = (Inr (), cs2, icc1\<lparr>gpc_scp := c, gpc_open := True\<rparr>)"
    using g(1) auth by (simp add: externalAuthenticate_def honest_session_def NewSCP02Keys_def enc_def ignore_def gp_call_def
        checked_def CheckOK_def bindS_def)
  moreover have "env_rand ?env 8 icc = (Inr (rnd 8), icc)" by (simp add: gp_card_env_def)
  ultimately have "Gp_OpenSecureChannel P ?env (cs, icc) = (Inr (), cs2, icc1\<lparr>gpc_scp := c, gpc_open := True\<rparr>)"
    using initializeUpdate_honest [OF assms, where cs = cs and icc = icc and rnd = rnd]
    by (simp add: Gp_OpenSecureChannel_def generateHostChallenge_def bindS_def cs1_def icc1_def)
  then show ?thesis using g(2) by (intro exI conjI) (assumption | simp add: gp_ready_def icc1_def icc_started_def)+
qed

section \<open>Loading a package\<close>

lemma gp_call_ready:
  assumes "des_ok P" "gp_ready cs icc" "command_wf cmd" "length (CData cmd) \<le> 247"
    and "Ins cmd \<noteq> InsInitializeUpdate" "Ins cmd \<noteq> InsExternalAuthenticate"
  obtains cs' icc' resp where
    "gp_call P (gp_card_env P key info challenge rnd) [] cmd (cs, icc) = (Inr resp, cs', icc')" "gp_ready cs' icc'"
    "gpc_log icc' = gpc_log icc @ [secured cmd]"
proof -
  let ?f = "\<lambda>k. k\<lparr>gpc_log := gpc_log k @ [secured cmd]\<rparr>"
  have sh: "gp_shared cs icc" and op: "gpc_open icc" using assms(2) by (simp_all add: gp_ready_def)
  have carried: "gp_carry_out P challenge (secured cmd) (icc\<lparr>gpc_scp := c\<rparr>) = (with_status [] 0x90 0, ?f (icc\<lparr>gpc_scp := c\<rparr>))" for c
    using assms(6) op by (simp add: gp_carry_out_def secured_def)
  obtain cs' c where g: "gp_send P (gp_card_env P key info challenge rnd) cmd (cs, icc) = (Inr (with_status [] 0x90 0), cs', ?f (icc\<lparr>gpc_scp := c\<rparr>))"
      "gp_shared cs' (?f (icc\<lparr>gpc_scp := c\<rparr>))"
    by (rule gp_send_arrives [OF assms(1) sh assms(3-5) carried, of key info rnd]) simp_all
  show ?thesis
  proof (rule that)
    show "gp_call P (gp_card_env P key info challenge rnd) [] cmd (cs, icc) = (Inr (with_status [] 0x90 0), cs', ?f (icc\<lparr>gpc_scp := c\<rparr>))"
      using g(1) by (simp add: gp_call_def checked_def CheckOK_def)
    show "gp_ready cs' (?f (icc\<lparr>gpc_scp := c\<rparr>))" using g(2) op by (simp add: gp_ready_def)
  qed simp
qed

lemma GetCommand_sendable:
  assumes "load_Next lcs = (True, lcs')"
  shows "command_wf (GetCommand lcs')" "length (CData (GetCommand lcs')) \<le> 247"
    "Ins (GetCommand lcs') \<noteq> InsInitializeUpdate" "Ins (GetCommand lcs') \<noteq> InsExternalAuthenticate"
  using assms by (auto simp: load_Next_def Let_def GetCommand_def NewCommand_def command_wf_def split: if_splits)

lemma load_loop_ready:
  assumes "des_ok P" "gp_ready cs icc"
  shows "\<exists>cs' icc'. load_loop P (gp_card_env P key info challenge rnd) (\<lambda>_ _ w. w) lcs (cs, icc) = (Inr (), cs', icc')
    \<and> gpc_log icc' = gpc_log icc @ map secured (stream_commands lcs) \<and> gp_ready cs' icc'"
  using assms(2)
proof (induction lcs arbitrary: cs icc rule: stream_commands.induct)
  case (1 lcs)
  let ?env = "gp_card_env P key info challenge rnd"
  obtain more lcs' where nxt: "load_Next lcs = (more, lcs')" by (cases "load_Next lcs")
  show ?case
  proof (cases more)
    case False
    then show ?thesis using nxt 1(2) by (simp add: load_loop.simps stream_commands.simps [of lcs])
  next
    case True
    then have nxt': "load_Next lcs = (True, lcs')" using nxt by simp
    obtain cs1 icc1 resp where g: "gp_call P ?env [] (GetCommand lcs') (cs, icc) = (Inr resp, cs1, icc1)" "gp_ready cs1 icc1"
        "gpc_log icc1 = gpc_log icc @ [secured (GetCommand lcs')]"
      by (rule gp_call_ready [OF assms(1) 1(2) GetCommand_sendable [OF nxt']])
    obtain cs' icc' where "load_loop P ?env (\<lambda>_ _ w. w) lcs' (cs1, icc1) = (Inr (), cs', icc')"
        "gpc_log icc' = gpc_log icc1 @ map secured (stream_commands lcs')" "gp_ready cs' icc'"
      using "1.IH" [OF refl nxt' [symmetric] TrueI g(2)] by blast
    with g(1,3) nxt' show ?thesis
      by (simp add: load_loop.simps [of P _ _ lcs] stream_commands.simps [of lcs])
  qed
qed

text \<open>C18. Loading a package delivers it: with a card that shares an open session, \<open>LoadPackage\<close> returns success, and
  the card has carried out exactly INSTALL [for load] and then \<open>BlocksCount\<close> LOAD commands, block \<open>i\<close> with number
  \<open>i\<close> modulo 256, the last one marked as the last, that carry the whole encoded file in order and without
  gaps; the session is still in step. Wrapping never makes a block overflow its length byte.\<close>

theorem LoadPackage_delivers:
  assumes "des_ok P" "gp_ready cs icc" "length pkgAID \<le> 200" "NewLoadCommandStream capFile = Inr lcs"
  shows "\<exists>cs' icc' blocks. LoadPackage P (gp_card_env P key info challenge rnd) (\<lambda>_ _ w. w) capFile pkgAID (cs, icc) = (Inr (), cs', icc')
    \<and> gpc_log icc' = gpc_log icc @ secured (NewCommandInstallForLoad pkgAID []) # map secured blocks
    \<and> blocks = map (load_block 0 (lsData lcs)) [0..<blocksCount lcs]
    \<and> concat (map CData blocks) = lsData lcs \<and> gp_ready cs' icc'"
proof -
  let ?env = "gp_card_env P key info challenge rnd" and ?inst = "NewCommandInstallForLoad pkgAID []"
  have "command_wf ?inst" "length (CData ?inst) \<le> 247" "Ins ?inst \<noteq> InsInitializeUpdate" "Ins ?inst \<noteq> InsExternalAuthenticate"
    using assms(3) by (simp_all add: NewCommandInstallForLoad_def NewCommand_def command_wf_def lv_def)
  then obtain cs1 icc1 resp where g: "gp_call P ?env [] ?inst (cs, icc) = (Inr resp, cs1, icc1)" "gp_ready cs1 icc1"
      "gpc_log icc1 = gpc_log icc @ [secured ?inst]"
    by (rule gp_call_ready [OF assms(1,2)])
  obtain cs' icc' where l: "load_loop P ?env (\<lambda>_ _ w. w) lcs (cs1, icc1) = (Inr (), cs', icc')"
      "gpc_log icc' = gpc_log icc1 @ map secured (stream_commands lcs)" "gp_ready cs' icc'"
    using load_loop_ready [OF assms(1) g(2)] by blast
  have "gpSc cs \<noteq> None" using assms(2) by (auto simp: gp_ready_def gp_shared_def)
  then have run: "LoadPackage P ?env (\<lambda>_ _ w. w) capFile pkgAID (cs, icc) = (Inr (), cs', icc')"
    using g(1) l(1) assms(4) by (simp add: LoadPackage_def)
  obtain files where "stream_commands lcs = map (load_block 0 (lsData lcs)) [0..<blocksCount lcs]"
    by (rule NewLoadCommandStream_Inr [OF assms(4)])
  then show ?thesis using run g(3) l(2,3) stream_commands_cover(1) [OF assms(4)]
    by (intro exI [where x = cs'] exI [where x = icc'] exI [where x = "stream_commands lcs"]) simp
qed

section \<open>Instances\<close>

definition toy_icc :: gp_card where
  "toy_icc = \<lparr>gpc_scp = \<lparr>k_mac = replicate 16 2, k_icv = NullBytes8\<rparr>, gpc_enc = [], gpc_host = [], gpc_open = True, gpc_log = []\<rparr>"

definition toy_gp_cs :: gp_cs where
  "toy_gp_cs = \<lparr>gpSc = Some (Gp_NewSecureChannel \<lparr>sessionKeys = NewSCP02Keys (replicate 16 1) (replicate 16 2), cardChallenge = [], hostChallenge = []\<rparr>),
     gpSession = None\<rparr>"

theorem LoadPackage_delivers_witness:
  "\<exists>lcs cs' icc' blocks. NewLoadCommandStream [(''Header.cap'', Inr [1, 2, 3])] = Inr lcs
    \<and> LoadPackage toy_prims (gp_card_env toy_prims KeycardDevelopmentKey (replicate 12 2) (replicate 8 5) (\<lambda>n. replicate n 0)) (\<lambda>_ _ w. w) [(''Header.cap'', Inr [1, 2, 3])] id_PackageAID
        (toy_gp_cs, toy_icc) = (Inr (), cs', icc')
    \<and> gpc_log icc' = gpc_log toy_icc @ secured (NewCommandInstallForLoad id_PackageAID []) # map secured blocks
    \<and> blocks = map (load_block 0 (lsData lcs)) [0..<blocksCount lcs]
    \<and> concat (map CData blocks) = lsData lcs \<and> gp_ready cs' icc'"
proof -
  obtain lcs where l: "NewLoadCommandStream [(''Header.cap'', Inr [1, 2, 3])] = Inr lcs"
    by (simp add: NewLoadCommandStream_def Let_def)
  have r: "gp_ready toy_gp_cs toy_icc"
    by (simp add: gp_ready_def gp_shared_def toy_icc_def toy_gp_cs_def in_step_def wrapper_inv_def Gp_NewSecureChannel_def
        NewSCP02Wrapper_def NewSCP02Keys_def)
  have "length id_PackageAID \<le> 200" by (simp add: id_PackageAID_def)
  from LoadPackage_delivers [OF toy_prims_des_ok r this l] l show ?thesis by blast
qed

theorem gp_session_opens_witness:
  "\<exists>cs' icc'. Gp_OpenSecureChannel toy_prims (gp_card_env toy_prims KeycardDevelopmentKey (replicate 11 0 @ [2]) (replicate 8 5) (\<lambda>n. replicate n 0))
      (Gp_NewCommandSet, toy_icc) = (Inr (), cs', icc')
    \<and> gp_ready cs' icc' \<and> gpc_log icc' = gpc_log toy_icc"
  by (rule gp_session_opens) (simp_all add: card_key_found_def nth_append)

end
