(* ===== verification/Hex.thy ===== *)
theory Hex
  imports Go_Strings
begin

text \<open>
  \<open>hexutils\<close> and the texts of the repository's error types: bytes and status words as hexadecimal
  digits, with what \<open>encoding/hex\<close> and the verbs \<open>%x\<close>, \<open>%X\<close>, \<open>% X\<close> and \<open>%04X\<close> do on them.
\<close>

section \<open>Digits\<close>

definition hex_char :: "nat \<Rightarrow> char" where
  "hex_char n = char_of (if n < 10 then 48 + n else 55 + n)"

definition hex_value :: "char \<Rightarrow> nat option" where
  "hex_value c = (let n = of_char c :: nat in
     if 48 \<le> n \<and> n \<le> 57 then Some (n - 48) else if 65 \<le> n \<and> n \<le> 70 then Some (n - 55)
     else if 97 \<le> n \<and> n \<le> 102 then Some (n - 87) else None)"

definition upper_char :: "char \<Rightarrow> char" where
  "upper_char c = (let n = of_char c :: nat in if 97 \<le> n \<and> n \<le> 122 then char_of (n - 32) else c)"

lemma hex_value_hex_char [simp]: "n < 16 \<Longrightarrow> hex_value (hex_char n) = Some n"
  by (auto simp: hex_value_def hex_char_def Let_def)

lemma hex_value_lt: "hex_value c = Some n \<Longrightarrow> n < 16"
  by (auto simp: hex_value_def Let_def split: if_splits)

lemma hex_char_inject [simp]: "m < 16 \<Longrightarrow> n < 16 \<Longrightarrow> hex_char m = hex_char n \<longleftrightarrow> m = n"
  by (metis hex_value_hex_char option.inject)

lemma hex_char_not_space [simp]: "n < 16 \<Longrightarrow> hex_char n \<noteq> CHR '' ''"
proof
  assume "n < 16" "hex_char n = CHR '' ''"
  then have "hex_value (CHR '' '') = Some n" by (metis hex_value_hex_char)
  then show False by (simp add: hex_value_def)
qed

text \<open>A digit is read as \<open>n\<close> exactly if its upper-case form is the digit printed for \<open>n\<close>.\<close>

lemma hex_value_upper: "hex_value c = Some n \<longleftrightarrow> n < 16 \<and> upper_char c = hex_char n"
proof -
  define k :: nat where "k = of_char c"
  have "c = char_of k" "k mod 256 = k" by (simp_all add: k_def)
  then have "c = char_of k" "k < 256" by simp_all
  moreover from this have "take_bit 8 k = k" "take_bit 8 (k - 32) = k - 32" by (simp_all add: take_bit_nat_eq_self)
  ultimately show ?thesis
    by (auto simp: hex_value_def upper_char_def hex_char_def Let_def char_of_eq_iff split: if_splits)
qed

section \<open>Byte strings\<close>

text \<open>\<open>hex.DecodeString\<close>: the bytes are checked in order, the odd length last.\<close>

fun DecodeString :: "string \<Rightarrow> bytes res" where
  "DecodeString [] = Inr []"
| "DecodeString [c] = (case hex_value c of None \<Rightarrow> Inl (External ''encoding/hex: invalid byte'')
     | Some _ \<Rightarrow> Inl (External ''encoding/hex: odd length hex string''))"
| "DecodeString (c # d # s) = (case hex_value c of None \<Rightarrow> Inl (External ''encoding/hex: invalid byte'')
     | Some a \<Rightarrow> (case hex_value d of None \<Rightarrow> Inl (External ''encoding/hex: invalid byte'')
         | Some b \<Rightarrow> bindE (DecodeString s) (\<lambda>bs. Inr (of_nat (16 * a + b) # bs))))"

definition HexToBytes :: "string \<Rightarrow> bytes res" where
  "HexToBytes s = DecodeString (filter (\<lambda>c. c \<noteq> CHR '' '') s)"

definition MustHexToBytes :: "string \<Rightarrow> bytes res" where
  "MustHexToBytes s = (case HexToBytes s of Inl e \<Rightarrow> Inl (Panic ''hexutils.MustHexToBytes'') | Inr b \<Rightarrow> Inr b)"

definition hex_byte :: "byte \<Rightarrow> string" where
  "hex_byte b = [hex_char (unat b div 16), hex_char (unat b mod 16)]"

definition BytesToHex :: "bytes \<Rightarrow> string" where
  "BytesToHex b = concat (map hex_byte b)"

definition BytesToHexWithSpaces :: "bytes \<Rightarrow> string" where
  "BytesToHexWithSpaces b = go_join '' '' (map hex_byte b)"

lemma unat_byte_div: "unat (b :: byte) div 16 < 16"
  using unsigned_less [of b] by (simp add: less_mult_imp_div_less)

lemma hex_byte_digits [simp]: "filter (\<lambda>c. c \<noteq> CHR '' '') (hex_byte b) = hex_byte b"
  using unat_byte_div [of b] by (simp add: hex_byte_def)

lemma BytesToHex_simps [simp]: "BytesToHex [] = []" "BytesToHex (x # b) = hex_byte x @ BytesToHex b"
  by (simp_all add: BytesToHex_def)

lemma byte_of_digits:
  fixes x :: byte
  assumes "m < 16" "n < 16"
  shows "x = of_nat (16 * m + n) \<longleftrightarrow> m = unat x div 16 \<and> n = unat x mod 16"
proof -
  have "unat (of_nat k :: byte) = k" if "k < 256" for k
    using that by (simp add: unsigned_of_nat take_bit_eq_mod)
  then have "unat (of_nat (16 * m + n) :: byte) = 16 * m + n" using assms by (simp del: of_nat_add of_nat_mult)
  then have "x = of_nat (16 * m + n) \<longleftrightarrow> unat x = 16 * m + n" by (metis word_unat_eq_iff)
  also have "\<dots> \<longleftrightarrow> m = unat x div 16 \<and> n = unat x mod 16" using assms by auto
  finally show ?thesis .
qed

text \<open>Exactly the strings of hex digits, of any case and spacing, are read, as the bytes they print.\<close>

lemma DecodeString_iff: "DecodeString s = Inr b \<longleftrightarrow> map upper_char s = BytesToHex b"
proof (induction s arbitrary: b rule: DecodeString.induct)
  case 1
  then show ?case by (cases b) (auto simp: hex_byte_def)
next
  case (2 c)
  then show ?case by (cases b) (auto simp: hex_byte_def split: option.split)
next
  case (3 c d s)
  show ?case
  proof (cases b)
    case Nil
    then show ?thesis by (auto split: option.split simp: bindE_def split: sum.split)
  next
    case (Cons x b')
    have digits: "hex_value c = Some m \<and> hex_value d = Some n \<and> x = of_nat (16 * m + n)
        \<longleftrightarrow> upper_char c = hex_char (unat x div 16) \<and> upper_char d = hex_char (unat x mod 16)
            \<and> m = unat x div 16 \<and> n = unat x mod 16" for m n
      using unat_byte_div [of x] byte_of_digits [of m n x] hex_value_lt [of c m] hex_value_lt [of d n]
      by (auto simp: hex_value_upper simp del: of_nat_add of_nat_mult)
    have "DecodeString (c # d # s) = Inr b \<longleftrightarrow>
        (\<exists>m n. hex_value c = Some m \<and> hex_value d = Some n \<and> x = of_nat (16 * m + n)) \<and> DecodeString s = Inr b'"
      by (cases "DecodeString s") (auto simp: Cons bindE_def split: option.split)
    also have "\<dots> \<longleftrightarrow> upper_char c = hex_char (unat x div 16) \<and> upper_char d = hex_char (unat x mod 16)
        \<and> DecodeString s = Inr b'"
      by (simp only: digits) auto
    also have "\<dots> \<longleftrightarrow> map upper_char (c # d # s) = BytesToHex b"
    proof (cases "hex_value c \<noteq> None \<and> hex_value d \<noteq> None")
      case True
      then show ?thesis using "3.IH" by (auto simp: Cons hex_byte_def)
    next
      case False
      then have "upper_char c \<noteq> hex_char (unat x div 16) \<or> upper_char d \<noteq> hex_char (unat x mod 16)"
        using hex_value_upper [of c "unat x div 16"] hex_value_upper [of d "unat x mod 16"] unat_byte_div [of x] by auto
      then show ?thesis by (auto simp: Cons hex_byte_def)
    qed
    finally show ?thesis .
  qed
qed

lemma HexToBytes_iff: "HexToBytes s = Inr b \<longleftrightarrow> map upper_char (filter (\<lambda>c. c \<noteq> CHR '' '') s) = BytesToHex b"
  by (simp add: HexToBytes_def DecodeString_iff)

lemma upper_hex_char [simp]: "n < 16 \<Longrightarrow> upper_char (hex_char n) = hex_char n"
  by (auto simp: upper_char_def hex_char_def Let_def)

lemma printed_digits [simp]: "map upper_char (BytesToHex b) = BytesToHex b"
    "filter (\<lambda>c. c \<noteq> CHR '' '') (BytesToHex b) = BytesToHex b"
    "filter (\<lambda>c. c \<noteq> CHR '' '') (BytesToHexWithSpaces b) = BytesToHex b"
proof -
  show "map upper_char (BytesToHex b) = BytesToHex b"
    by (induction b) (simp_all add: hex_byte_def unat_byte_div)
  show "filter (\<lambda>c. c \<noteq> CHR '' '') (BytesToHex b) = BytesToHex b"
    by (induction b) simp_all
  show "filter (\<lambda>c. c \<noteq> CHR '' '') (BytesToHexWithSpaces b) = BytesToHex b"
    unfolding BytesToHexWithSpaces_def
  proof (induction b)
    case (Cons x b)
    then show ?case by (cases b) simp_all
  qed simp
qed

lemma HexToBytes_printed: "HexToBytes (BytesToHex b) = Inr b" "HexToBytes (BytesToHexWithSpaces b) = Inr b"
    "MustHexToBytes (BytesToHex b) = Inr b"
proof -
  show 1: "HexToBytes (BytesToHex b) = Inr b" by (simp add: HexToBytes_iff)
  show "HexToBytes (BytesToHexWithSpaces b) = Inr b" by (simp add: HexToBytes_iff)
  show "MustHexToBytes (BytesToHex b) = Inr b" by (simp add: MustHexToBytes_def 1)
qed

lemma BytesToHex_inject: "BytesToHex a = BytesToHex b \<longleftrightarrow> a = b"
  using HexToBytes_printed(1) by (metis sum.inject(2))

section \<open>Error texts\<close>

text \<open>The verb \<open>%X\<close> on a number, and its padding to four digits.\<close>

fun format_hex :: "nat \<Rightarrow> string" where
  "format_hex n = (if n < 16 then [hex_char n] else format_hex (n div 16) @ [hex_char (n mod 16)])"

declare format_hex.simps [simp del]

definition lower_char :: "char \<Rightarrow> char" where
  "lower_char c = (let n = of_char c :: nat in if 65 \<le> n \<and> n \<le> 90 then char_of (n + 32) else c)"

definition format_04X :: "u16 \<Rightarrow> string" where
  "format_04X sw = (let s = format_hex (unat sw) in replicate (4 - length s) (CHR ''0'') @ s)"

record APDUError =
  SW :: u16
  Message :: string

definition APDUError_Error :: "APDUError \<Rightarrow> string" where
  "APDUError_Error e = ''APDU error 0x'' @ format_04X (SW e) @ '': '' @ Message e"

definition SecurityConditionNotSatisfied :: "u16 \<Rightarrow> APDUError" where
  "SecurityConditionNotSatisfied sw = \<lparr>SW = sw, Message = ''Security condition not satisfied''\<rparr>"

definition AuthenticationMethodBlocked :: "u16 \<Rightarrow> APDUError" where
  "AuthenticationMethodBlocked sw = \<lparr>SW = sw, Message = ''Authentication method blocked''\<rparr>"

definition UnexpectedSW :: "u16 \<Rightarrow> string \<Rightarrow> APDUError" where
  "UnexpectedSW sw message = \<lparr>SW = sw, Message = message\<rparr>"

definition ErrBadResponse_Error :: "u16 \<Rightarrow> string \<Rightarrow> string" where
  "ErrBadResponse_Error sw message = ''bad response '' @ map lower_char (format_hex (unat sw)) @ '': '' @ message"

definition WrongPINError_Error :: "nat \<Rightarrow> string" where
  "WrongPINError_Error n = ''wrong pin. remaining attempts: '' @ format_uint n"

definition WrongPUKError_Error :: "nat \<Rightarrow> string" where
  "WrongPUKError_Error n = ''wrong puk. remaining attempts: '' @ format_uint n"

definition ErrInvalidLifeCycleValue_Error :: "bytes \<Rightarrow> string" where
  "ErrInvalidLifeCycleValue_Error lc =
     ''life cycle value must be 1 byte. got '' @ format_uint (length lc) @ '' bytes: '' @ map lower_char (BytesToHex lc)"

text \<open>The four digits are those of the two bytes, so the text of an error determines it.\<close>

lemma format_hex_digits:
  assumes "n < 65536"
  shows "replicate (4 - length (format_hex n)) (CHR ''0'') @ format_hex n
    = [hex_char (n div 4096), hex_char (n div 256 mod 16), hex_char (n div 16 mod 16), hex_char (n mod 16)]"
proof -
  have small: "format_hex k = [hex_char k]" if "k < 16" for k using that by (simp add: format_hex.simps)
  have large: "format_hex k = format_hex (k div 16) @ [hex_char (k mod 16)]" if "16 \<le> k" for k
    using that by (subst format_hex.simps) simp
  have zero: "hex_char 0 = CHR ''0''" unfolding hex_char_def by code_simp
  have rep: "replicate 3 z = [z, z, z]" "replicate 2 z = [z, z]" for z :: char by (simp_all add: numeral_eq_Suc)
  consider "n < 16" | "16 \<le> n" "n < 256" | "256 \<le> n" "n < 4096" | "4096 \<le> n" by linarith
  then show ?thesis
  proof cases
    case 1
    then show ?thesis by (simp add: small zero rep)
  next
    case 2
    then show ?thesis using large [of n] small [of "n div 16"] by (simp add: zero rep)
  next
    case 3
    then show ?thesis using large [of n] large [of "n div 16"] small [of "n div 256"]
      by (simp add: zero div_mult2_eq [symmetric])
  next
    case 4
    then show ?thesis using assms large [of n] large [of "n div 16"] large [of "n div 256"] small [of "n div 4096"]
      by (simp add: div_mult2_eq [symmetric])
  qed
qed

lemma hex_digits_value:
  "(n :: nat) = ((n div 4096 * 16 + n div 256 mod 16) * 16 + n div 16 mod 16) * 16 + n mod 16"
proof -
  have "n div 4096 = n div 256 div 16" "n div 256 = n div 16 div 16" by (simp_all add: div_mult2_eq [symmetric])
  then show ?thesis by (simp only: div_mult_mod_eq)
qed

lemma format_04X_inject: "format_04X a = format_04X b \<longleftrightarrow> a = b"
proof
  assume *: "format_04X a = format_04X b"
  have lt: "unat x < 65536" for x :: u16 using unsigned_less [of x, where ?'a = nat] by simp
  have "unat a div 4096 = unat b div 4096" "unat a div 256 mod 16 = unat b div 256 mod 16"
    "unat a div 16 mod 16 = unat b div 16 mod 16" "unat a mod 16 = unat b mod 16"
    using * lt [of a] lt [of b] by (simp_all add: format_04X_def Let_def format_hex_digits less_mult_imp_div_less)
  then have "unat a = unat b" using hex_digits_value [of "unat a"] hex_digits_value [of "unat b"] by metis
  then show "a = b" by (simp add: word_unat_eq_iff)
qed simp

lemma length_format_04X: "length (format_04X a) = 4"
proof -
  have "unat a < 65536" using unsigned_less [of a, where ?'a = nat] by simp
  then show ?thesis by (simp only: format_04X_def Let_def format_hex_digits) simp
qed

lemma APDUError_Error_inject: "APDUError_Error e = APDUError_Error f \<longleftrightarrow> e = f"
proof
  assume "APDUError_Error e = APDUError_Error f"
  then have "format_04X (SW e) @ '': '' @ Message e = format_04X (SW f) @ '': '' @ Message f"
    by (simp add: APDUError_Error_def)
  then have "format_04X (SW e) = format_04X (SW f)" "Message e = Message f"
    using append_eq_append_conv [of "format_04X (SW e)" "format_04X (SW f)"] by (simp_all add: length_format_04X)
  then show "e = f" by (simp add: format_04X_inject)
qed simp

end
