(* ===== verification/Spec2Isabelle.thy ===== *)
theory Spec2Isabelle
  imports Metadata Types_Info Command_Set_Props Command_Set_Flows Honest_Card No_Panic Card_Mnemonic Cash_Ident
    Normal_Channel Gp_Session Hex
begin

text \<open>
  The keycard-go library: a Go client for Keycard smart cards. This development translates its
  packages into HOL functions and proves what makes them correct. File names are those of the
  repository, relative to its root; theorem and theory names are those of this directory.

  \<^bold>\<open>The program.\<close> A \<open>CommandSet\<close> (\<open>command_set.go\<close>) is the client of one card. It holds a transport
  (\<open>types.Channel\<close>, which sends an APDU and returns the response), the information read when the
  applet was selected, the trusted CA keys and whitelisted cards, and a \<open>SecureChannel\<close>. \<open>Select\<close>
  reads the version of the applet and installs the channel that belongs to it: version 1
  (\<open>secure_channel.go\<close>: pairing, AES-CBC, a CBC-MAC chained through the IV) or version 2
  (\<open>secure_channel_v2.go\<close>: a certificate, an ephemeral key agreement authenticated by a signature,
  AES-CCM with a counter). Every later operation builds an APDU (\<open>commands.go\<close>, \<open>apdu\<close>), has the
  channel protect it, transmits it, has the channel open the response, checks the status word
  and parses the payload (\<open>tlv\<close>, \<open>types\<close>, \<open>derivationpath\<close>). The GlobalPlatform client
  (\<open>globalplatform\<close>) manages the applets of a card over its own secure channel (SCP02).

  \<^bold>\<open>Conventions\<close> (\<open>Prelude\<close>). A byte slice is a \<open>byte list\<close> with \<open>byte = 8 word\<close>; Go's unsigned integers
  are words of their width; \<open>int\<close> is a natural number where it holds a length or an offset of a
  slice, and a 64-bit integer that wraps where a caller may pass any value (\<open>Advance\<close>). An operation that can fail has type \<open>'a res = error + 'a\<close>; the panics of Go (a slice
  expression out of range, a nil dereference) are errors of their own, so that they are
  branches of the model too. Stateful code has type \<open>('s, 'a) st\<close>, a function from the state to a
  result and the new state: an error does not undo the changes made before it, as in Go.
  What is not in the repository is an argument: the cryptographic primitives are the record
  \<open>prims\<close> (\<open>Primitives\<close>), the card, the random source and the key generation are the record \<open>env\<close>
  over an arbitrary world type (\<open>Secure_Channel\<close>), so that a card may answer anything and may
  remember. Theorems name what they need of them: \<open>aes_ok\<close>, \<open>des_ok\<close>, \<open>hashes_ok\<close>, \<open>prims_ok\<close>
  (block and digest sizes, decryption inverts encryption), \<open>rand_ok\<close>, \<open>rand_int_ok\<close> (a random
  source fills its buffer, stays in its range). The witnesses run concrete instances.

  \<^bold>\<open>Theories and sources.\<close>
  \<^item> \<open>Codec\<close>, \<open>Go_Strings\<close>, \<open>Primitives\<close>: shared vocabulary; what the repository uses of \<open>strings\<close>,
    \<open>strconv\<close>, \<open>crypto/cipher\<close>.
  \<^item> \<open>Tlv\<close>: \<open>tlv/tlv.go\<close>. The reader is a buffer with a cursor, as in the code; it refines a parser on
    the unread bytes (\<open>ReadPrimitive_refines_tlv_item\<close>), moves its cursor only forward and inside the buffer, \<open>Advance\<close> with a
    negative or huge count excepted (\<open>reader_methods_cursor_safe\<close>) and reads back what the writer writes.
  \<^item> \<open>Apdu\<close>: \<open>apdu/command.go\<close>, \<open>response.go\<close>, \<open>utils.go\<close>; the wire format, and where it is lossy.
  \<^item> \<open>Derivation_Path\<close>, \<open>Key_Path\<close>: package \<open>derivationpath\<close>. Its decoder is a state machine of parse
    functions, its second parser works on split strings; \<open>path_parsers_agree_iff\<close> says exactly when
    the two agree.
  \<^item> \<open>Crypto\<close>, \<open>Ccm\<close>: \<open>crypto/crypto.go\<close>, \<open>crypto/ccm.go\<close>. \<open>ccm_accepts_exactly_encryptions\<close>.
  \<^item> \<open>Der\<close>: the DER form of a signature as the standard has it; what cards and signing libraries are
    assumed to produce is stated over it, so that the parsers of the repository are verified against it.
  \<^item> \<open>Signature\<close>, \<open>Certificate\<close>, \<open>Types_Info\<close>, \<open>Types_Keys\<close>, \<open>Metadata\<close>: package \<open>types\<close>: parsers with their
    reference messages, certificates, the sorted slice of wallet ids as a finite set.
  \<^item> \<open>Wordlist\<close>, \<open>Mnemonic\<close>, \<open>Mnemonic_Checksum\<close>: \<open>types/mnemonic.go\<close>. \<open>ValidateMnemonic_iff\<close> states that the
    validation accepts exactly the phrases that BIP-39 generates from some entropy.
  \<^item> \<open>Constants\<close>, \<open>Commands\<close>, \<open>Identifiers\<close>, \<open>Secrets\<close>: \<open>constants.go\<close>, \<open>commands.go\<close>, \<open>errors.go\<close>,
    \<open>identifiers/identifiers.go\<close>, \<open>secrets.go\<close>.
  \<^item> \<open>Hex\<close>: \<open>hexutils/hexutils.go\<close> (what is printed reads back, exactly the hexadecimal strings of any
    case and spacing are read) and the texts of the error types of the repository.
  \<^item> \<open>Secure_Channel\<close>, \<open>Secure_Channel_V1\<close>, \<open>Secure_Channel_V2\<close>, \<open>Channel_Dispatch\<close>: the interface
    \<open>SecureChannel\<close>, its two implementations (records \<open>sc1\<close>, \<open>sc2\<close>) and the dynamic dispatch of an
    interface value (datatype \<open>channel\<close>).
  \<^item> \<open>Command_Set\<close>: every operation of \<open>command_set.go\<close> on the record \<open>command_set\<close>.
    \<open>Command_Set_Runs\<close> has the calls of a client as an inductive relation \<open>api_call\<close>, one rule per
    operation, with the invariants of runs; \<open>Command_Set_Props\<close> and \<open>Command_Set_Flows\<close> the
    properties of runs and of single operations. \<open>Requests\<close> has the operations that go through the
    secure channel as data, \<open>Simulation\<close> the simulation of one run by another, \<open>Ideal_Card\<close> the
    refinement of a plain connection by an open channel, \<open>Honest_Card\<close> the handshakes of both
    versions with a card that follows the protocol, \<open>No_Panic\<close> the absence of panics, \<open>Card_Mnemonic\<close>
    the mnemonics a card generates.
  \<^item> \<open>Cash_Ident\<close>, \<open>Normal_Channel\<close>: \<open>cash_command_set.go\<close>, \<open>ident_command_set.go\<close>,
    \<open>io/normal_channel.go\<close>.
  \<^item> \<open>Gp_Crypto\<close>, \<open>Gp_Commands\<close>, \<open>Scp02\<close>, \<open>Gp_Load\<close>, \<open>Gp_Command_Set\<close>, \<open>Gp_Session\<close>: package \<open>globalplatform\<close>: the
    operations on DES keys, the command builders, session, wrapper and channel, the LOAD FILE
    stream over a CAP file, and the client. \<open>Gp_Session\<close> runs the client with a card that follows the
    protocol.

  \<^bold>\<open>Interfaces.\<close> Locales carry what several components share, each interpreted on the model:
  \<^item> \<open>prefix_codec\<close> (\<open>Codec\<close>), an encoder and a decoder that returns the unread bytes: BER lengths,
    TLV items, path segments, the length-prefixed fields of GlobalPlatform and the lengths of a
    load file;
  \<^item> \<open>secure_channel\<close> (\<open>Secure_Channel\<close>), what both versions promise: a channel that is not open
    never opens by itself, every transport error closes it: \<open>v1\<close>, \<open>v2\<close> and \<open>any\<close>, the dispatched value;
  \<^item> \<open>lockstep\<close> (\<open>Sessions\<close>), two parties in step: the SCP02 wrapper and a card;
  \<^item> \<open>channel_invariant\<close> (\<open>Command_Set_Runs\<close>), an invariant of the channel that its methods keep is
    kept by all fifty operations of the client: \<open>wf\<close> (well-formed state), \<open>est\<close> (a version-1 channel
    stays established), \<open>trust\<close> (an open version-2 channel belongs to a vouched card);
  \<^item> \<open>matching\<close> (\<open>Simulation\<close>), a relation between two runs that computations keep, and
    \<open>ideal_link\<close> (\<open>Ideal_Card\<close>), which gives it for two command sets: \<open>link1\<close> and \<open>link2\<close>, an open channel
    of either version and the card behind it against the application on a plain reader;
  \<^item> \<open>id_set\<close> (\<open>Metadata\<close>), the sorted slice as a set.

  \<^bold>\<open>What the theorems show.\<close>
  \<^item> Confidentiality and trust: a version-2 channel opens only on the answer of a card whose
    certificate is signed by a trusted CA or whitelisted, over every sequence of calls
    (\<open>CommandSet_opens_trusted\<close>, \<open>V2_AutoOpen_authenticates\<close>); an established version-1 channel
    never sends a plain command (\<open>CommandSet_never_plaintext\<close>), a closed version-2 channel does, against
    the comment in the code (lemma \<open>V2_closed_sends_plaintext\<close>).
  \<^item> Integrity: a response is delivered only if its MAC or tag is right, and a failure closes the
    channel, with one exception: an answer that authenticates but decrypts to less than a status word (\<open>short_answer\<close>)
    gives an error and leaves it open (\<open>V1_receive_authentic\<close>, \<open>sendProtected_fails_closed\<close>); the nonces of a session never
    repeat (\<open>V2_session_nonces_distinct\<close>).
  \<^item> Transparency: over an open channel every sequence of requests gets the answers, errors included,
    that the same client gets from the card's application over a plain reader
    (\<open>CommandSet_transparent_V1\<close>, \<open>CommandSet_transparent_V2\<close>). \<open>AutoOpenSecureChannel\<close> brings client
    and card into that state (\<open>opened_session_V1\<close>, \<open>opened_session_V2\<close>): a client that is paired with
    an honest card, or knows its identity key, opens the channel and then talks to the application;
    pairing with the right password makes it a paired client (\<open>paired_with_honest_card\<close>).
    The curve, the signatures and the key derivation are assumed to be what they are documented to
    be (\<open>ec_ok\<close>, \<open>der_signs\<close>, \<open>hkdf_ok\<close>). A GlobalPlatform session opens with a card that holds one of
    the built-in keys (\<open>gp_session_opens\<close>) and delivers every command (\<open>scp02_session_lossless\<close>).
  \<^item> Robustness: of all operations of the client only the deprecated \<open>Pair\<close> can be made to panic
    (\<open>only_Pair_panics\<close>).
  \<^item> State: the invariants of every object hold over every run (\<open>CommandSet_invariant\<close>); \<open>Select\<close>
    either leaves the channel or installs the right fresh one (\<open>Select_result\<close>).
  \<^item> Delivery: \<open>LoadPackage\<close> sends the files of a package in order, in blocks that are numbered
    and marked as the card expects (\<open>LoadPackage_delivers\<close>, \<open>load_stream_complete\<close>); \<open>SetNDEF\<close>
    writes the message (\<open>SetNDEF_writes_message\<close>); a mnemonic that a card generates becomes a valid
    phrase (\<open>generated_mnemonic_valid\<close>).
  \<^item> Formats: round trips of the wire formats, with the boundary inputs on which they fail stated
    and proved.

  \<^bold>\<open>Termination and bounds.\<close> No definition that models code uses fuel; of the
  specifications only \<open>decode_all\<close> (\<open>Codec\<close>) has a bound, the number of items to read. The loops of the code are recursive functions,
  structural or with a measure: the unread bytes (readers, decoders, the load stream), the
  remaining count (recovery ids 0 to 3, the slots of \<open>UnpairOthers\<close>, the bytes of the nonce), the
  distance of the two ends (binary search). \<open>NormalChannel.Send\<close> calls itself; it terminates
  because the second command is a GET RESPONSE (\<open>NC_Send_terminates\<close>). Lengths that the code writes
  into fixed-width fields are converted with \<open>of_nat\<close>, so they wrap as in the code.

  \<^bold>\<open>Not modelled.\<close> Logging (\<open>keycard.go\<close> and \<open>globalplatform/globalplatform.go\<close> hold only a logger each), the
  one-method interface of \<open>types/types.go\<close> (a transport is the field \<open>env_send\<close> of \<open>env\<close>), the texts of
  wrapped errors beyond what tells the branches apart, accessors that return a field (they are the
  record selectors), the loading callback of the GlobalPlatform client (it only observes), the ZIP
  reader (a CAP file is the list of its named files), and the arithmetic inside the ciphers, hashes
  and the curve (fields of \<open>prims\<close>). The program has no concurrency of its own: a command set is not
  shared between goroutines, and a run is a sequence of calls.
\<close>

end
